(* ===== verification/Prelude.thy ===== *)
theory Prelude
  imports Main
begin

text \<open>
  Shared vocabulary of the development: the Python exceptions that the service's code
  raises or lets propagate, the collections of lemmas the component theories extend, and
  the facts about association lists (the model of database tables and of JSON objects)
  that every component uses, and the methods of Python's \<^verbatim>\<open>str\<close> that the
  libraries apply to header values, with their lemmas.
\<close>

section \<open>Collections\<close>

named_theorems model_defs "unfolding equations of the operations of the model"
named_theorems keys_simps "facts about the key column of association lists"

section \<open>Python exceptions\<close>

text \<open>
  Every exception that can leave a line of \<^verbatim>\<open>src/backend/main.py\<close>:
  \<^item> \<open>KeyError k\<close> and \<open>TypeError\<close> from the subscription \<^verbatim>\<open>body['id']\<close>;
  \<^item> \<open>IntegrityError\<close> from SQLAlchemy when SQLite rejects a duplicate primary key;
  \<^item> \<open>OperationalError\<close> from SQLAlchemy when the table does not exist;
  \<^item> \<open>ObjectDeletedError\<close> from SQLAlchemy when an expired instance is reloaded and its
    row is gone;
  \<^item> \<open>HTTPException n\<close>, the Werkzeug exceptions that carry an HTTP status \<open>n\<close>
    (raised by \<^verbatim>\<open>request.json\<close> and by the router).
\<close>

datatype py_exc =
    KeyError string
  | TypeError
  | IntegrityError
  | OperationalError
  | ObjectDeletedError
  | HTTPException nat

type_synonym 'a py_result = "py_exc + 'a"

section \<open>Python string methods\<close>

text \<open>
  The methods of Python's \<^verbatim>\<open>str\<close> that the libraries apply to header values, on
  Isabelle's 256 characters (the Latin-1 code points).
\<close>

text \<open>\<^verbatim>\<open>str.isspace\<close> and \<^verbatim>\<open>str.strip()\<close>.\<close>

definition py_isspace :: "char \<Rightarrow> bool" where
  "py_isspace c \<longleftrightarrow>
     (let n = (of_char c :: nat) in (9 \<le> n \<and> n \<le> 13) \<or> (28 \<le> n \<and> n \<le> 32) \<or> n = 133 \<or> n = 160)"

definition py_strip :: "string \<Rightarrow> string" where
  "py_strip s = rev (dropWhile py_isspace (rev (dropWhile py_isspace s)))"

text \<open>\<^verbatim>\<open>str.lower()\<close> on one character: \<^verbatim>\<open>A\<close>..\<^verbatim>\<open>Z\<close> and the Latin-1 capitals.\<close>

definition py_lower_char :: "char \<Rightarrow> char" where
  "py_lower_char c =
     (let n = (of_char c :: nat) in
      if (65 \<le> n \<and> n \<le> 90) \<or> (192 \<le> n \<and> n \<le> 222 \<and> n \<noteq> 215) then char_of (n + 32) else c)"

text \<open>
  \<^verbatim>\<open>str.upper()\<close>: \<^verbatim>\<open>a\<close>..\<^verbatim>\<open>z\<close> and the Latin-1 small letters, and
  \<^verbatim>\<open>\u00df\<close> (sharp s) to \<^verbatim>\<open>SS\<close>. The upper cases of \<^verbatim>\<open>\u00b5\<close> and
  \<^verbatim>\<open>\u00ff\<close> lie outside the 256 characters; they are kept, which changes no
  comparison with an ASCII text.
\<close>

definition py_upper_char :: "char \<Rightarrow> string" where
  "py_upper_char c =
     (let n = (of_char c :: nat) in
      if (97 \<le> n \<and> n \<le> 122) \<or> (224 \<le> n \<and> n \<le> 254 \<and> n \<noteq> 247) then [char_of (n - 32)]
      else if n = 223 then ''SS'' else [c])"

definition py_upper :: "string \<Rightarrow> string" where
  "py_upper s = concat (map py_upper_char s)"

text \<open>\<^verbatim>\<open>str.split(sep)\<close> with a one-character separator: every occurrence splits,
  empty pieces included.\<close>

fun py_split :: "char \<Rightarrow> string \<Rightarrow> string list" where
  "py_split c [] = [[]]"
| "py_split c (x # xs) =
     (let r = py_split c xs in if x = c then [] # r else (x # hd r) # tl r)"

section \<open>Association lists\<close>

abbreviation keys :: "('k \<times> 'v) list \<Rightarrow> 'k list" where
  "keys xs \<equiv> map fst xs"

abbreviation distinct_keys :: "('k \<times> 'v) list \<Rightarrow> bool" where
  "distinct_keys xs \<equiv> distinct (map fst xs)"

text \<open>Removing every entry of one key (SQL \<^verbatim>\<open>DELETE ... WHERE id = k\<close>).\<close>

abbreviation drop_key :: "'k \<Rightarrow> ('k \<times> 'v) list \<Rightarrow> ('k \<times> 'v) list" where
  "drop_key k xs \<equiv> filter (\<lambda>r. fst r \<noteq> k) xs"

lemma map_of_drop_key [keys_simps]:
  "map_of (drop_key k xs) = (map_of xs)(k := None)"
  by (induction xs) (auto simp: fun_eq_iff)

lemma map_of_snoc_fresh [keys_simps]:
  "k \<notin> set (keys xs) \<Longrightarrow> map_of (xs @ [(k, v)]) = (map_of xs)(k \<mapsto> v)"
  by (induction xs) (auto simp: fun_eq_iff)

lemma distinct_keys_drop_key [keys_simps, intro]:
  "distinct_keys xs \<Longrightarrow> distinct_keys (drop_key k xs)"
  by (simp add: distinct_map_filter)

lemma distinct_keys_snoc [keys_simps]:
  "distinct_keys (xs @ [(k, v)]) \<longleftrightarrow> distinct_keys xs \<and> k \<notin> set (keys xs)"
  by auto

lemma key_in_keys_iff [keys_simps]:
  "k \<in> set (keys xs) \<longleftrightarrow> map_of xs k \<noteq> None"
  by (simp add: map_of_eq_None_iff)

lemma drop_key_absent [keys_simps]:
  "k \<notin> set (keys xs) \<Longrightarrow> drop_key k xs = xs"
  by (induction xs) auto

lemma set_distinct_keys_graph:
  "distinct_keys xs \<Longrightarrow> set xs = {(k, v). map_of xs k = Some v}"
  by auto

lemma length_drop_key_present:
  "distinct_keys xs \<Longrightarrow> k \<in> set (keys xs) \<Longrightarrow> length (drop_key k xs) = length xs - 1"
proof (induction xs)
  case Nil
  then show ?case by simp
next
  case (Cons r xs)
  show ?case
  proof (cases "fst r = k")
    case True
    with Cons.prems have "k \<notin> set (keys xs)" by auto
    with True show ?thesis by (simp add: drop_key_absent)
  next
    case False
    with Cons show ?thesis by (cases xs) auto
  qed
qed

lemma count_key_distinct:
  "distinct_keys xs \<Longrightarrow>
     length (filter (\<lambda>r. fst r = k) xs) = (if k \<in> set (keys xs) then 1 else 0)"
  by (induction xs) (fastforce simp: filter_empty_conv)+

lemma map_of_rev_distinct:
  "distinct_keys xs \<Longrightarrow> map_of (rev xs) = map_of xs"
  by (simp add: map_of_inject_set rev_map [symmetric])

section \<open>Lists updated at one index\<close>

text \<open>The accounting of a list of threads when one thread changes state.\<close>

lemma length_filter_list_update:
  "i < length xs \<Longrightarrow>
     length (filter P (xs[i := x])) + (if P (xs ! i) then 1 else 0) =
     length (filter P xs) + (if P x then 1 else 0)"
proof (induction xs arbitrary: i)
  case Nil
  then show ?case by simp
next
  case (Cons y ys)
  then show ?case by (cases i) auto
qed

lemma sum_list_map_list_update:
  "i < length xs \<Longrightarrow>
     sum_list (map f (xs[i := x])) + f (xs ! i) = sum_list (map f xs) + (f x :: nat)"
proof (induction xs arbitrary: i)
  case Nil
  then show ?case by simp
next
  case (Cons y ys)
  then show ?case by (cases i) auto
qed

lemma count_list_map_filter: "count_list (map f xs) c = length (filter (\<lambda>x. f x = c) xs)"
  by (induction xs) auto

lemma count_list_two_values:
  "(\<And>x. x \<in> set xs \<Longrightarrow> f x = a \<or> f x = b) \<Longrightarrow> a \<noteq> b \<Longrightarrow>
     count_list (map f xs) a + count_list (map f xs) b = length xs"
  by (induction xs) auto

section \<open>Lemmas on the string methods\<close>

lemma py_split_no_sep: "c \<notin> set x \<Longrightarrow> py_split c x = [x]"
  by (induction x) (auto simp: Let_def)

lemma py_split_append_sep: "c \<notin> set x \<Longrightarrow> py_split c (x @ c # y) = x # py_split c y"
  by (induction x) (auto simp: Let_def)

lemma py_split_pieces: "p \<in> set (py_split c s) \<Longrightarrow> c \<notin> set p"
proof (induction s arbitrary: p)
  case (Cons x xs)
  have "py_split c xs \<noteq> []" by (cases xs) (simp_all add: Let_def)
  with Cons show ?case
    by (cases "py_split c xs") (auto simp: Let_def split: if_splits)
qed simp

lemma set_py_strip: "set (py_strip p) \<subseteq> set p"
proof -
  have "set (dropWhile P y) \<subseteq> set y" for P and y :: string by (induction y) auto
  then show ?thesis by (metis py_strip_def set_rev subset_trans)
qed

lemma py_strip_space: "py_strip (CHR '' '' # x) = py_strip x"
  by (simp add: py_strip_def py_isspace_def)

lemma last_dropWhile: "dropWhile P w \<noteq> [] \<Longrightarrow> last (dropWhile P w) = last w"
  by (metis last_appendR takeWhile_dropWhile_id)

lemma py_strip_id:
  assumes "x = [] \<or> (\<not> py_isspace (hd x) \<and> \<not> py_isspace (last x))"
  shows "py_strip x = x"
proof (cases "x = []")
  case False
  with assms have "dropWhile py_isspace x = x" "dropWhile py_isspace (rev x) = rev x"
    by (simp_all add: dropWhile_eq_self_iff hd_rev)
  then show ?thesis by (simp add: py_strip_def)
qed (simp add: py_strip_def)

lemma py_strip_stripped:
  "py_strip x = [] \<or> (\<not> py_isspace (hd (py_strip x)) \<and> \<not> py_isspace (last (py_strip x)))"
proof -
  let ?w = "dropWhile py_isspace x"
  let ?z = "dropWhile py_isspace (rev ?w)"
  show ?thesis
  proof (cases "?z = []")
    case False
    have w: "?w \<noteq> []"
    proof
      assume "?w = []"
      with False show False by simp
    qed
    have "\<not> py_isspace (hd ?z)" using False by (metis hd_dropWhile)
    moreover have "last ?z = hd ?w" using False w by (simp add: last_dropWhile last_rev)
    moreover have "\<not> py_isspace (hd ?w)" using w by (metis hd_dropWhile)
    ultimately show ?thesis using False by (simp add: py_strip_def hd_rev last_rev)
  qed (simp add: py_strip_def)
qed

lemma py_strip_idem: "py_strip (py_strip x) = py_strip x"
  by (rule py_strip_id [OF py_strip_stripped])

lemma py_split_Nil [simp]: "py_split c s \<noteq> []"
  by (cases s) (simp_all add: Let_def)

lemma py_split_prefix:
  "c \<notin> set s \<Longrightarrow> py_split c (s @ r) = (s @ hd (py_split c r)) # tl (py_split c r)"
  by (induction s) (auto simp: Let_def)

end
