(* ===== verification/Json.thy ===== *)
theory Json
  imports Prelude
begin

text \<open>
  JSON values as the service sees them: the Python objects that \<^verbatim>\<open>request.json\<close>
  returns (\<^verbatim>\<open>json.loads\<close>: \<^verbatim>\<open>null\<close> is \<^verbatim>\<open>None\<close>, an object is a \<^verbatim>\<open>dict\<close>, a string
  a \<^verbatim>\<open>str\<close>) and the values \<^verbatim>\<open>jsonify\<close> serialises. The two Python operations the
  handler applies to a request body, the subscription \<^verbatim>\<open>body[k]\<close> and the test
  \<^verbatim>\<open>type(x) is str\<close>, are defined here with the exceptions Python raises.
\<close>

section \<open>Values\<close>

text \<open>
  Numbers are integers: the service only asks whether a value is a string, so the
  numeric value is never looked at. An object keeps its members in source order;
  \<^verbatim>\<open>json.loads\<close> builds the dict member by member, so a later duplicate key wins.
\<close>

datatype json =
    JNull
  | JBool bool
  | JNum int
  | JStr string
  | JArr "json list"
  | JObj "(string \<times> json) list"

section \<open>Python operations on request bodies\<close>

text \<open>
  \<^verbatim>\<open>body[k]\<close> with a string key: a dict answers the value of the last member named
  \<open>k\<close> or raises \<^verbatim>\<open>KeyError\<close>; a list or a string raises \<^verbatim>\<open>TypeError\<close> (their
  indices must be integers); \<^verbatim>\<open>None\<close>, numbers and booleans raise \<^verbatim>\<open>TypeError\<close>
  (not subscriptable).
\<close>

fun py_getitem :: "json \<Rightarrow> string \<Rightarrow> json py_result" where
  "py_getitem (JObj kvs) k =
     (case map_of (rev kvs) k of None \<Rightarrow> Inl (KeyError k) | Some v \<Rightarrow> Inr v)"
| "py_getitem _ k = Inl TypeError"

text \<open>\<^verbatim>\<open>type(x) is str\<close> and \<^verbatim>\<open>x is None\<close>.\<close>

fun py_is_str :: "json \<Rightarrow> bool" where
  "py_is_str (JStr _) = True"
| "py_is_str _ = False"

definition py_is_none :: "json \<Rightarrow> bool" where
  "py_is_none x \<longleftrightarrow> x = JNull"

section \<open>The request body: \<^verbatim>\<open>request.json\<close>\<close>

text \<open>
  What the client sent: its \<^verbatim>\<open>Content-Type\<close> says JSON or not, and the bytes parse as
  JSON (\<open>Some j\<close>) or not (\<open>None\<close>).
\<close>

record req_body =
  content_is_json :: bool
  parsed :: "json option"

text \<open>
  Flask's \<^verbatim>\<open>request.json\<close> (Flask 2.3 and later, with Werkzeug 2.3 and later): a
  request whose content type is not JSON raises 415 Unsupported Media Type, a body
  that does not parse raises 400 Bad Request; otherwise the parsed value, \<^verbatim>\<open>None\<close>
  for the literal \<^verbatim>\<open>null\<close>. Framework behaviour, not code of this repository.
\<close>

definition request_json :: "req_body \<Rightarrow> json py_result" where
  "request_json rb =
     (if \<not> content_is_json rb then Inl (HTTPException 415)
      else case parsed rb of None \<Rightarrow> Inl (HTTPException 400) | Some j \<Rightarrow> Inr j)"

definition json_body :: "json \<Rightarrow> req_body" where
  "json_body j = \<lparr>content_is_json = True, parsed = Some j\<rparr>"

section \<open>Lemmas\<close>

lemma py_is_str_iff: "py_is_str x \<longleftrightarrow> (\<exists>s. x = JStr s)"
  by (cases x) auto

lemma py_is_str_not_none [simp]: "py_is_str x \<Longrightarrow> \<not> py_is_none x"
  by (cases x) (auto simp: py_is_none_def)

lemma py_getitem_Inr:
  "py_getitem b k = Inr v \<longleftrightarrow> (\<exists>kvs. b = JObj kvs \<and> map_of (rev kvs) k = Some v)"
  by (cases b) (auto split: option.splits)

lemma py_getitem_obj_distinct [simp]:
  "distinct_keys kvs \<Longrightarrow> py_getitem (JObj kvs) k =
     (case map_of kvs k of None \<Rightarrow> Inl (KeyError k) | Some v \<Rightarrow> Inr v)"
  by (simp add: map_of_rev_distinct)

lemma request_json_body [simp]: "request_json (json_body j) = Inr j"
  by (simp add: request_json_def json_body_def)

end
