(* ===== verification/Http.thy ===== *)
theory Http
  imports Json
begin

text \<open>
  The HTTP side of \<^verbatim>\<open>src/backend/main.py\<close>: the response a view returns
  (\<^verbatim>\<open>jsonify(x)\<close> or the pair \<^verbatim>\<open>(jsonify(x), status)\<close>), the cross-origin header that
  \<^verbatim>\<open>CORS(app)\<close> (line 8) adds, the way Flask turns an exception leaving a view into a
  response under \<^verbatim>\<open>app.run(debug=True, ...)\<close> (line 74), and the URL map built by the
  four \<^verbatim>\<open>@app.route\<close> decorators (lines 31, 35, 41, 66) with Werkzeug's matching
  (leading slashes stripped; a 308 redirect for a path that matches once its doubled
  slashes are merged; 405 or 404 otherwise).
\<close>

section \<open>Responses\<close>

datatype payload =
    JsonPayload json
  | ErrorPage nat        \<comment> \<open>Werkzeug's HTML page for an \<^verbatim>\<open>HTTPException\<close> with this status\<close>
  | DebuggerPage         \<comment> \<open>the interactive traceback of the debug server\<close>
  | OptionsPage          \<comment> \<open>the empty answer to an automatic \<^verbatim>\<open>OPTIONS\<close>\<close>

record response =
  status :: nat
  payload :: payload
  headers :: "(string \<times> string) list"

text \<open>\<^verbatim>\<open>jsonify(x)\<close>: status 200, a JSON body.\<close>

definition jsonify :: "json \<Rightarrow> response" where
  "jsonify j = \<lparr>status = 200, payload = JsonPayload j,
                headers = [(''Content-Type'', ''application/json'')]\<rparr>"

text \<open>A view returning the pair \<^verbatim>\<open>(resp, n)\<close>: Flask replaces the status.\<close>

definition with_status :: "response \<Rightarrow> nat \<Rightarrow> response" where
  "with_status r n = r\<lparr>status := n\<rparr>"

definition json_response :: "json \<Rightarrow> nat \<Rightarrow> response" where
  "json_response j n = with_status (jsonify j) n"

definition error_page :: "nat \<Rightarrow> response" where
  "error_page n = \<lparr>status = n, payload = ErrorPage n,
                   headers = [(''Content-Type'', ''text/html'')]\<rparr>"

section \<open>Requests\<close>

datatype http_method = GET | HEAD | POST | PUT | PATCH | DELETE | OPTIONS

record request =
  req_method :: http_method
  path :: string
  origin :: "string option"   \<comment> \<open>the \<^verbatim>\<open>Origin\<close> header, if any\<close>
  rbody :: req_body

section \<open>Cross-origin resource sharing\<close>

text \<open>
  \<^verbatim>\<open>CORS(app)\<close> with its defaults (flask-cors 4: origins \<^verbatim>\<open>*\<close> read as the
  pattern \<^verbatim>\<open>.*\<close>, no wildcard echoing, \<^verbatim>\<open>vary_header\<close> on): an
  \<^verbatim>\<open>after_request\<close> hook that allows the request's own origin, or \<^verbatim>\<open>*\<close> when the
  request named none; an echoed origin depends on the request, so the hook adds
  \<^verbatim>\<open>Vary: Origin\<close> (the pattern is "probably a regex"). This is the hook for a
  request without \<^verbatim>\<open>Access-Control-Request-Method\<close>; \<open>Cors_Preflight\<close> adds the
  headers of a preflight.
\<close>

text \<open>
  The origin the hook allows (\<^verbatim>\<open>get_cors_origins\<close>): a non-empty \<^verbatim>\<open>Origin\<close>
  header is echoed (it matches \<^verbatim>\<open>.*\<close>); a missing or empty one gives \<^verbatim>\<open>*\<close>
  (\<^verbatim>\<open>always_send\<close>). \<^verbatim>\<open>Vary: Origin\<close> follows unless the allowed origin is \<^verbatim>\<open>*\<close>.
\<close>

definition allowed_origin :: "string option \<Rightarrow> string" where
  "allowed_origin org = (case org of Some s \<Rightarrow> if s = [] then ''*'' else s | None \<Rightarrow> ''*'')"

definition cors :: "string option \<Rightarrow> response \<Rightarrow> response" where
  "cors org r = r\<lparr>headers := headers r @
      [(''Access-Control-Allow-Origin'', allowed_origin org)] @
      (if allowed_origin org = ''*'' then [] else [(''Vary'', ''Origin'')])\<rparr>"

definition allows_origin :: "string option \<Rightarrow> response \<Rightarrow> bool" where
  "allows_origin org r \<longleftrightarrow> (''Access-Control-Allow-Origin'', allowed_origin org) \<in> set (headers r)"

section \<open>Exceptions leaving a view\<close>

text \<open>
  \<^verbatim>\<open>app.run(debug=True, host="0.0.0.0", port=8000)\<close> (line 74) runs the debug server.
  An \<^verbatim>\<open>HTTPException\<close> is turned into its error page and goes through the
  \<^verbatim>\<open>after_request\<close> hooks; any other exception is propagated in debug mode and the
  Werkzeug debugger answers 500 with a traceback, past the hooks. Outside debug
  mode Flask answers 500 through the hooks. \<open>hook\<close> is the \<^verbatim>\<open>after_request\<close>
  hook of \<^verbatim>\<open>CORS(app)\<close>: \<open>cors\<close> of the request's origin, or with the preflight
  headers of \<open>Cors_Preflight\<close>.
\<close>

definition app_debug :: bool where
  "app_debug = True"

fun finalize :: "bool \<Rightarrow> (response \<Rightarrow> response) \<Rightarrow> response py_result \<Rightarrow> response" where
  "finalize dbg hook (Inr r) = hook r"
| "finalize dbg hook (Inl (HTTPException n)) = hook (error_page n)"
| "finalize dbg hook (Inl e) =
     (if dbg then \<lparr>status = 500, payload = DebuggerPage, headers = []\<rparr>
      else hook (error_page 500))"

section \<open>The URL map\<close>

text \<open>
  A rule's path is a literal or a literal followed by one \<^verbatim>\<open><id>\<close> variable with
  Werkzeug's default \<^verbatim>\<open>string\<close> converter: a non-empty segment without \<^verbatim>\<open>/\<close>.
\<close>

datatype rule_path = Static string | WithVar string

fun match_path :: "rule_path \<Rightarrow> string \<Rightarrow> string option option" where
  "match_path (Static p) s = (if s = p then Some None else None)"
| "match_path (WithVar p) s =
     (let v = drop (length p) s in
      if take (length p) s = p \<and> v \<noteq> [] \<and> CHR ''/'' \<notin> set v then Some (Some v) else None)"

datatype view = View_test | View_get_todos | View_create_todo | View_delete_todo

record url_rule =
  rule_path :: rule_path
  rule_methods :: "http_method list"
  rule_view :: view

text \<open>
  The decorators, in the order Flask registers them. \<^verbatim>\<open>methods\<close> defaults to
  \<^verbatim>\<open>GET\<close>; Werkzeug adds \<^verbatim>\<open>HEAD\<close> to a rule with \<^verbatim>\<open>GET\<close> and Flask adds
  \<^verbatim>\<open>OPTIONS\<close> to every rule (automatic options).
\<close>

definition rule_test :: url_rule where
  "rule_test = \<lparr>rule_path = Static ''/test'', rule_methods = [GET, HEAD, OPTIONS], rule_view = View_test\<rparr>"

definition rule_get_todos :: url_rule where
  "rule_get_todos = \<lparr>rule_path = Static ''/todo'', rule_methods = [GET, HEAD, OPTIONS], rule_view = View_get_todos\<rparr>"

definition rule_create_todo :: url_rule where
  "rule_create_todo = \<lparr>rule_path = Static ''/todo'', rule_methods = [POST, OPTIONS], rule_view = View_create_todo\<rparr>"

definition rule_delete_todo :: url_rule where
  "rule_delete_todo =
     \<lparr>rule_path = WithVar ''/todo/'', rule_methods = [DELETE, OPTIONS], rule_view = View_delete_todo\<rparr>"

text \<open>
  \<^verbatim>\<open>app.url_map\<close>: the rules in the order the decorators register them.
\<close>

definition url_map :: "url_rule list" where
  "url_map = [rule_test, rule_get_todos, rule_create_todo, rule_delete_todo]"

text \<open>
  Werkzeug's matcher (2.3, \<^verbatim>\<open>StateMachineMatcher\<close>) over a path: the first rule
  whose path matches and whose methods contain the request's method, with the flag
  \<^verbatim>\<open>have_match_for\<close>: some rule matched the path but not the method.
\<close>

fun url_match :: "url_rule list \<Rightarrow> http_method \<Rightarrow> string \<Rightarrow> (view \<times> string option) option \<times> bool" where
  "url_match [] m p = (None, False)"
| "url_match (r # rs) m p =
     (case match_path (rule_path r) p of
        None \<Rightarrow> url_match rs m p
      | Some arg \<Rightarrow> if m \<in> set (rule_methods r) then (Some (rule_view r, arg), False)
                   else (fst (url_match rs m p), True))"

text \<open>
  \<^verbatim>\<open>MapAdapter.match\<close> first strips the leading slashes of the path and puts one
  back (\<^verbatim>\<open>"/" + path_info.lstrip("/")\<close>).
\<close>

definition werkzeug_path :: "string \<Rightarrow> string" where
  "werkzeug_path p = (if p = [] then [] else CHR ''/'' # dropWhile (\<lambda>c. c = CHR ''/'') p)"

text \<open>
  \<^verbatim>\<open>merge_slashes\<close> (on by default): \<^verbatim>\<open>re.sub("/{2,}?", "/", path)\<close>, which
  replaces each non-overlapping pair of slashes, left to right, by one.
\<close>

fun merge_slashes :: "string \<Rightarrow> string" where
  "merge_slashes (a # b # s) =
     (if a = CHR ''/'' \<and> b = CHR ''/'' then CHR ''/'' # merge_slashes s else a # merge_slashes (b # s))"
| "merge_slashes s = s"

text \<open>
  Routing: a match on the path answers the view and its argument; otherwise the
  matcher tries the path with merged slashes, and a match there is a 308 redirect
  to that path (\<^verbatim>\<open>RequestRedirect\<close>, an \<^verbatim>\<open>HTTPException\<close>); with no match in
  either attempt the answer is 405 if some rule matched the path in either attempt
  (\<^verbatim>\<open>have_match_for\<close> is shared), 404 otherwise.
\<close>

definition route :: "http_method \<Rightarrow> string \<Rightarrow> (view \<times> string option) py_result" where
  "route m p =
     (let q = werkzeug_path p in
      case url_match url_map m q of
        (Some r, _) \<Rightarrow> Inr r
      | (None, seen) \<Rightarrow>
          (case url_match url_map m (merge_slashes q) of
             (Some _, _) \<Rightarrow> Inl (HTTPException 308)
           | (None, seen') \<Rightarrow> Inl (HTTPException (if seen \<or> seen' then 405 else 404))))"

section \<open>Lemmas\<close>

lemmas url_rule_defs = rule_test_def rule_get_todos_def rule_create_todo_def rule_delete_todo_def

lemma json_response_simps [simp]:
  "status (json_response j n) = n"
  "payload (json_response j n) = JsonPayload j"
  by (simp_all add: json_response_def with_status_def jsonify_def)

lemma jsonify_simps [simp]:
  "status (jsonify j) = 200"
  "payload (jsonify j) = JsonPayload j"
  by (simp_all add: jsonify_def)

lemma cors_simps [simp]:
  "status (cors org r) = status r"
  "payload (cors org r) = payload r"
  "allows_origin org (cors org r)"
  by (simp_all add: cors_def allows_origin_def)

lemma finalize_hook_status:
  assumes "\<And>r. status (hook r) = status r"
  shows "status (finalize dbg hook res) =
     (case res of Inr r \<Rightarrow> status r | Inl (HTTPException n) \<Rightarrow> n | Inl _ \<Rightarrow> 500)"
  by (cases "(dbg, hook, res)" rule: finalize.cases) (simp_all add: assms error_page_def)

lemma finalize_status:
  "status (finalize dbg (cors org) res) =
     (case res of Inr r \<Rightarrow> status r | Inl (HTTPException n) \<Rightarrow> n | Inl _ \<Rightarrow> 500)"
  by (rule finalize_hook_status) simp

lemma url_match_fst:
  "fst (url_match url_map m q) =
     (if q = ''/test'' then (if m \<in> {GET, HEAD, OPTIONS} then Some (View_test, None) else None)
      else if q = ''/todo'' then
        (if m \<in> {GET, HEAD, OPTIONS} then Some (View_get_todos, None)
         else if m = POST then Some (View_create_todo, None) else None)
      else case match_path (WithVar ''/todo/'') q of
        None \<Rightarrow> None
      | Some arg \<Rightarrow> (if m \<in> {DELETE, OPTIONS} then Some (View_delete_todo, arg) else None))"
proof -
  have t: "match_path (WithVar ''/todo/'') ''/test'' = None"
    and o: "match_path (WithVar ''/todo/'') ''/todo'' = None"
    by (simp_all add: Let_def)
  show ?thesis
    by (cases m) (auto simp: url_map_def url_rule_defs t o split: option.splits)
qed

lemma url_match_snd:
  "fst (url_match url_map m q) = None \<Longrightarrow>
     snd (url_match url_map m q) \<longleftrightarrow>
       q = ''/test'' \<or> q = ''/todo'' \<or> match_path (WithVar ''/todo/'') q \<noteq> None"
proof -
  assume "fst (url_match url_map m q) = None"
  moreover have "match_path (WithVar ''/todo/'') ''/test'' = None"
    and "match_path (WithVar ''/todo/'') ''/todo'' = None"
    by (simp_all add: Let_def)
  ultimately show ?thesis
    by (cases m) (auto simp: url_map_def url_rule_defs split: option.splits)
qed

lemma werkzeug_path_slash [simp]:
  "c \<noteq> CHR ''/'' \<Longrightarrow> werkzeug_path (CHR ''/'' # c # r) = CHR ''/'' # c # r"
  by (simp add: werkzeug_path_def)

lemma route_Inr:
  "route m p = Inr r \<longleftrightarrow> fst (url_match url_map m (werkzeug_path p)) = Some r"
  by (auto simp: route_def Let_def split: prod.splits option.splits)

lemma route_Inl:
  "route m p = Inl e \<Longrightarrow> e = HTTPException 308 \<or> e = HTTPException 404 \<or> e = HTTPException 405"
  by (auto simp: route_def Let_def split: prod.splits option.splits)

lemma route_eq:
  "route m p =
     (case fst (url_match url_map m (werkzeug_path p)) of
        Some r \<Rightarrow> Inr r
      | None \<Rightarrow>
         (case fst (url_match url_map m (merge_slashes (werkzeug_path p))) of
            Some _ \<Rightarrow> Inl (HTTPException 308)
          | None \<Rightarrow> Inl (HTTPException
              (if snd (url_match url_map m (werkzeug_path p)) \<or>
                  snd (url_match url_map m (merge_slashes (werkzeug_path p))) then 405 else 404))))"
  by (cases "url_match url_map m (werkzeug_path p)";
      cases "url_match url_map m (merge_slashes (werkzeug_path p))")
     (auto simp: route_def Let_def split: option.splits)

lemma match_path_var_Some:
  assumes "match_path (WithVar q) p = Some (Some k)"
  shows "p = q @ k \<and> k \<noteq> [] \<and> CHR ''/'' \<notin> set k"
proof -
  from assms have "take (length q) p = q" "k = drop (length q) p" "k \<noteq> []" "CHR ''/'' \<notin> set k"
    by (auto simp: Let_def split: if_splits)
  then show ?thesis by (metis append_take_drop_id)
qed

lemma match_path_var_None:
  "match_path (WithVar q) p = None \<longleftrightarrow> \<not> (\<exists>k. p = q @ k \<and> k \<noteq> [] \<and> CHR ''/'' \<notin> set k)"
proof
  assume n: "match_path (WithVar q) p = None"
  show "\<not> (\<exists>k. p = q @ k \<and> k \<noteq> [] \<and> CHR ''/'' \<notin> set k)"
  proof
    assume "\<exists>k. p = q @ k \<and> k \<noteq> [] \<and> CHR ''/'' \<notin> set k"
    then obtain k where "p = q @ k" "k \<noteq> []" "CHR ''/'' \<notin> set k" by blast
    then have "match_path (WithVar q) p = Some (Some k)" by (simp add: Let_def)
    with n show False by simp
  qed
next
  assume none: "\<not> (\<exists>k. p = q @ k \<and> k \<noteq> [] \<and> CHR ''/'' \<notin> set k)"
  show "match_path (WithVar q) p = None"
  proof (cases "match_path (WithVar q) p")
    case (Some a)
    then obtain k where "a = Some k" by (auto simp: Let_def split: if_splits)
    with Some have "p = q @ k \<and> k \<noteq> [] \<and> CHR ''/'' \<notin> set k"
      by (intro match_path_var_Some) simp
    with none show ?thesis by blast
  qed
qed

lemma route_delete_arg:
  "route m p = Inr (View_delete_todo, Some k) \<Longrightarrow>
     werkzeug_path p = ''/todo/'' @ k \<and> k \<noteq> [] \<and> CHR ''/'' \<notin> set k"
proof -
  assume "route m p = Inr (View_delete_todo, Some k)"
  then have "match_path (WithVar ''/todo/'') (werkzeug_path p) = Some (Some k)"
    by (auto simp: route_Inr url_match_fst simp del: match_path.simps split: if_splits option.splits)
  then show ?thesis by (rule match_path_var_Some)
qed

lemma route_delete_path:
  "k \<noteq> [] \<Longrightarrow> CHR ''/'' \<notin> set k \<Longrightarrow> route DELETE (''/todo/'' @ k) = Inr (View_delete_todo, Some k)"
  by (simp add: route_Inr url_match_fst Let_def)

end
