(* ===== verification/Database.thy ===== *)
theory Database
  imports Prelude
begin

text \<open>
  The SQLite file \<^verbatim>\<open>todo.db\<close> behind \<^verbatim>\<open>create_engine("sqlite:///todo.db")\<close>: its
  schema (the names in \<^verbatim>\<open>sqlite_master\<close>) and the rows of table \<^verbatim>\<open>todo\<close>, in rowid
  order. The four statements the ORM sends for this service are defined with the
  errors SQLite reports: a statement on a missing table fails with
  \<^verbatim>\<open>OperationalError\<close>, an insert that repeats a primary key with
  \<^verbatim>\<open>IntegrityError\<close>. This is the storage engine, not code of the repository; the
  statements are the ones SQLAlchemy emits for lines 38, 59, 64 and 69 of
  \<^verbatim>\<open>src/backend/main.py\<close>.
\<close>

section \<open>State\<close>

text \<open>A row of \<^verbatim>\<open>todo(id VARCHAR NOT NULL PRIMARY KEY, value VARCHAR NOT NULL)\<close>.\<close>

type_synonym row = "string \<times> string"

record database =
  schema :: "string list"
  todo_rows :: "row list"

definition empty_database :: database where
  "empty_database = \<lparr>schema = [], todo_rows = []\<rparr>"

definition has_todo_table :: "database \<Rightarrow> bool" where
  "has_todo_table d \<longleftrightarrow> ''todo'' \<in> set (schema d)"

text \<open>
  The primary-key constraint: no two rows share an id. SQLite enforces it on every
  insert; the lemmas below show that each statement keeps it.
\<close>

definition pk_inv :: "database \<Rightarrow> bool" where
  "pk_inv d \<longleftrightarrow> distinct_keys (todo_rows d)"

text \<open>The state the views expect: the table exists and its key is unique.\<close>

definition db_ok :: "database \<Rightarrow> bool" where
  "db_ok d \<longleftrightarrow> has_todo_table d \<and> pk_inv d"

section \<open>Statements\<close>

text \<open>\<^verbatim>\<open>SELECT todo.id, todo.value FROM todo\<close>: a full scan, in rowid order.\<close>

definition sql_select_all :: "database \<Rightarrow> row list py_result" where
  "sql_select_all d = (if has_todo_table d then Inr (todo_rows d) else Inl OperationalError)"

text \<open>\<^verbatim>\<open>SELECT todo.id, todo.value FROM todo WHERE todo.id = ?\<close>.\<close>

definition sql_select_id :: "string \<Rightarrow> database \<Rightarrow> row option py_result" where
  "sql_select_id k d =
     (if has_todo_table d then Inr (map_option (Pair k) (map_of (todo_rows d) k))
      else Inl OperationalError)"

text \<open>
  \<^verbatim>\<open>INSERT INTO todo (id, value) VALUES (?, ?)\<close>: the new row gets the next rowid, so
  it is scanned last.
\<close>

definition sql_insert :: "row \<Rightarrow> database \<Rightarrow> database py_result" where
  "sql_insert r d =
     (if \<not> has_todo_table d then Inl OperationalError
      else if fst r \<in> set (keys (todo_rows d)) then Inl IntegrityError
      else Inr (d\<lparr>todo_rows := todo_rows d @ [r]\<rparr>))"

text \<open>\<^verbatim>\<open>DELETE FROM todo WHERE todo.id = ?\<close>, answering the row count.\<close>

definition sql_delete_id :: "string \<Rightarrow> database \<Rightarrow> (nat \<times> database) py_result" where
  "sql_delete_id k d =
     (if \<not> has_todo_table d then Inl OperationalError
      else Inr (length (filter (\<lambda>r. fst r = k) (todo_rows d)),
                d\<lparr>todo_rows := drop_key k (todo_rows d)\<rparr>))"

lemmas sql_defs [model_defs] = sql_select_all_def sql_select_id_def sql_insert_def sql_delete_id_def

section \<open>Properties of the statements\<close>

lemma sql_insert_Inr:
  "sql_insert r d = Inr d' \<longleftrightarrow>
     has_todo_table d \<and> fst r \<notin> set (keys (todo_rows d)) \<and> d' = d\<lparr>todo_rows := todo_rows d @ [r]\<rparr>"
  by (auto simp: sql_insert_def)

lemma sql_insert_Inl:
  "sql_insert r d = Inl e \<longleftrightarrow>
     (\<not> has_todo_table d \<and> e = OperationalError) \<or>
     (has_todo_table d \<and> fst r \<in> set (keys (todo_rows d)) \<and> e = IntegrityError)"
  by (auto simp: sql_insert_def)

lemma sql_insert_pk_inv:
  "pk_inv d \<Longrightarrow> sql_insert r d = Inr d' \<Longrightarrow> pk_inv d'"
  by (cases r) (auto simp: sql_insert_Inr pk_inv_def)

lemma sql_delete_pk_inv:
  "pk_inv d \<Longrightarrow> sql_delete_id k d = Inr (n, d') \<Longrightarrow> pk_inv d'"
  by (auto simp: sql_delete_id_def pk_inv_def split: if_splits)

lemma sql_statements_keep_schema:
  "sql_insert r d = Inr d' \<Longrightarrow> schema d' = schema d"
  "sql_delete_id k d = Inr (n, d') \<Longrightarrow> schema d' = schema d"
  by (auto simp: sql_insert_def sql_delete_id_def split: if_splits)

lemma sql_delete_count:
  "pk_inv d \<Longrightarrow> sql_delete_id k d = Inr (n, d') \<Longrightarrow>
     n = (if k \<in> set (keys (todo_rows d)) then 1 else 0)"
  by (auto simp: sql_delete_id_def pk_inv_def count_key_distinct split: if_splits)

end
