(* ===== verification/Todo.thy ===== *)
theory Todo
  imports Json Database
begin

text \<open>
  The mapped class \<^verbatim>\<open>Todo\<close> of \<^verbatim>\<open>src/backend/main.py\<close> (lines 13--24): its two
  columns, the computed view \<^verbatim>\<open>serialize\<close>, the correspondence between an instance and
  its table row, and the schema creation \<^verbatim>\<open>Base.metadata.create_all(db)\<close> (line 29)
  that runs once when the module is loaded.
\<close>

section \<open>The entity\<close>

text \<open>
  \<^verbatim>\<open>id: Mapped[str] = mapped_column(primary_key=True, index=True)\<close> and
  \<^verbatim>\<open>value: Mapped[str] = mapped_column(unique=False, index=False)\<close>. The fields are
  called \<open>todo_id\<close> and \<open>todo_value\<close>: \<open>id\<close> is HOL's identity function and
  \<open>value\<close> a command name.
\<close>

record todo =
  todo_id :: string
  todo_value :: string

text \<open>The property \<^verbatim>\<open>serialize\<close>: \<^verbatim>\<open>{'id': self.id, 'value': self.value}\<close>.\<close>

definition serialize :: "todo \<Rightarrow> json" where
  "serialize t = JObj [(''id'', JStr (todo_id t)), (''value'', JStr (todo_value t))]"

text \<open>An instance and its row: the ORM writes and reads the two columns.\<close>

definition row_of_todo :: "todo \<Rightarrow> row" where
  "row_of_todo t = (todo_id t, todo_value t)"

definition todo_of_row :: "row \<Rightarrow> todo" where
  "todo_of_row r = \<lparr>todo_id = fst r, todo_value = snd r\<rparr>"

section \<open>Schema creation\<close>

text \<open>
  \<^verbatim>\<open>Base.metadata\<close>: the schema objects registered on the declarative base
  (lines 10--11) by the mapped class \<^verbatim>\<open>Todo\<close>: its table \<^verbatim>\<open>todo\<close>
  (\<^verbatim>\<open>__tablename__\<close>) and the index \<^verbatim>\<open>ix_todo_id\<close> of \<^verbatim>\<open>index=True\<close> on
  \<^verbatim>\<open>id\<close> (line 16), in the order \<^verbatim>\<open>create_all\<close> emits them.
\<close>

definition base_metadata :: "string list" where
  "base_metadata = [''todo'', ''ix_todo_id'']"

text \<open>
  \<^verbatim>\<open>Base.metadata.create_all(db)\<close>: for each table of the metadata that the database
  lacks, \<^verbatim>\<open>CREATE TABLE todo\<close> and its index \<^verbatim>\<open>ix_todo_id\<close> (from \<^verbatim>\<open>index=True\<close>);
  a table that exists is left alone with its rows.
\<close>

definition create_all :: "database \<Rightarrow> database" where
  "create_all d =
     (if has_todo_table d then d
      else d\<lparr>schema := schema d @ base_metadata, todo_rows := []\<rparr>)"

text \<open>
  The state the service starts in: \<^verbatim>\<open>create_engine\<close> opens the file as it was left,
  and \<^verbatim>\<open>create_all\<close> runs on it (lines 26--29).
\<close>

definition startup :: "database \<Rightarrow> database" where
  "startup file = create_all file"

section \<open>Lemmas\<close>

declare base_metadata_def [simp]

lemma todo_of_row_of_todo [simp]: "todo_of_row (row_of_todo t) = t"
  by (simp add: todo_of_row_def row_of_todo_def)

lemma row_of_todo_of_row [simp]: "row_of_todo (todo_of_row r) = r"
  by (simp add: todo_of_row_def row_of_todo_def)

lemma todo_of_row_simps [simp]:
  "todo_id (todo_of_row r) = fst r" "todo_value (todo_of_row r) = snd r"
  by (simp_all add: todo_of_row_def)

lemma serialize_inj: "serialize t = serialize t' \<longleftrightarrow> t = t'"
  by (cases t, cases t') (simp add: serialize_def)

lemma create_all_has_table [simp]: "has_todo_table (create_all d)"
  by (simp add: create_all_def has_todo_table_def)

lemma create_all_pk_inv: "pk_inv d \<Longrightarrow> pk_inv (create_all d)"
  by (simp add: create_all_def pk_inv_def)

end
