(* ===== verification/Session.thy ===== *)
theory Session
  imports Todo
begin

text \<open>
  The part of SQLAlchemy's \<^verbatim>\<open>Session\<close> that the views use: a unit of work over one
  transaction. \<^verbatim>\<open>Session(db)\<close> opens it on the committed database, \<^verbatim>\<open>add\<close> puts a
  new instance in the pending list, a flush sends one \<^verbatim>\<open>INSERT\<close> per pending instance
  in order, \<^verbatim>\<open>commit\<close> flushes and makes the transaction's database the committed one,
  and leaving the \<^verbatim>\<open>with\<close> block closes the session, rolling back whatever was not
  committed. A failed flush rolls the transaction back: the committed database is the
  one the session was opened on. Library behaviour, modelled from SQLAlchemy's
  documentation as far as the views rely on it.
\<close>

record session =
  s_db :: database          \<comment> \<open>the database as the session's transaction sees it\<close>
  s_new :: "todo list"      \<comment> \<open>instances added and not yet flushed\<close>

definition session_open :: "database \<Rightarrow> session" where
  "session_open d = \<lparr>s_db = d, s_new = []\<rparr>"

definition session_add :: "todo \<Rightarrow> session \<Rightarrow> session" where
  "session_add t s = s\<lparr>s_new := s_new s @ [t]\<rparr>"

text \<open>The flush: one \<^verbatim>\<open>INSERT\<close> per pending instance; the first failure aborts it.\<close>

fun flush_inserts :: "todo list \<Rightarrow> database \<Rightarrow> database py_result" where
  "flush_inserts [] d = Inr d"
| "flush_inserts (t # ts) d =
     (case sql_insert (row_of_todo t) d of Inl e \<Rightarrow> Inl e | Inr d' \<Rightarrow> flush_inserts ts d')"

definition session_flush :: "session \<Rightarrow> session py_result" where
  "session_flush s =
     (case flush_inserts (s_new s) (s_db s) of
        Inl e \<Rightarrow> Inl e
      | Inr d \<Rightarrow> Inr (s\<lparr>s_db := d, s_new := []\<rparr>))"

text \<open>\<^verbatim>\<open>session.commit()\<close>: flush, then \<^verbatim>\<open>COMMIT\<close>; the result is the new committed database.\<close>

definition session_commit :: "session \<Rightarrow> database py_result" where
  "session_commit s = (case session_flush s of Inl e \<Rightarrow> Inl e | Inr s' \<Rightarrow> Inr (s_db s'))"

text \<open>\<^verbatim>\<open>session.query(Todo).all()\<close>: autoflush, then the full scan.\<close>

definition session_query_all :: "session \<Rightarrow> (todo list \<times> session) py_result" where
  "session_query_all s =
     (case session_flush s of
        Inl e \<Rightarrow> Inl e
      | Inr s' \<Rightarrow> (case sql_select_all (s_db s') of
                     Inl e \<Rightarrow> Inl e
                   | Inr rs \<Rightarrow> Inr (map todo_of_row rs, s')))"

text \<open>
  \<^verbatim>\<open>session.query(Todo).where(Todo.id == k).delete()\<close>: a bulk \<^verbatim>\<open>DELETE\<close> executed at
  once in the session's transaction (after an autoflush), answering the row count.
\<close>

definition session_query_delete :: "string \<Rightarrow> session \<Rightarrow> (nat \<times> session) py_result" where
  "session_query_delete k s =
     (case session_flush s of
        Inl e \<Rightarrow> Inl e
      | Inr s' \<Rightarrow> (case sql_delete_id k (s_db s') of
                     Inl e \<Rightarrow> Inl e
                   | Inr (n, d) \<Rightarrow> Inr (n, s'\<lparr>s_db := d\<rparr>)))"

text \<open>
  Reading an attribute of an instance that \<^verbatim>\<open>commit\<close> expired
  (\<^verbatim>\<open>expire_on_commit=True\<close>): the session reloads it by its primary key from the
  committed database, and raises \<^verbatim>\<open>ObjectDeletedError\<close> when the row is gone.
\<close>

definition session_reload :: "string \<Rightarrow> database \<Rightarrow> todo py_result" where
  "session_reload k d =
     (case sql_select_id k d of
        Inl e \<Rightarrow> Inl e
      | Inr None \<Rightarrow> Inl ObjectDeletedError
      | Inr (Some r) \<Rightarrow> Inr (todo_of_row r))"

lemmas session_defs [model_defs] = session_open_def session_add_def session_flush_def
  session_commit_def session_query_all_def session_query_delete_def session_reload_def

section \<open>Atomicity of the flush\<close>

text \<open>
  A flush inserts all pending rows, in order, or fails and writes nothing the session
  keeps: the all-or-nothing behaviour of the transaction.
\<close>

lemma flush_inserts_Inr:
  "flush_inserts ts d = Inr d' \<Longrightarrow>
     schema d' = schema d \<and> todo_rows d' = todo_rows d @ map row_of_todo ts"
proof (induction ts arbitrary: d)
  case Nil
  then show ?case by simp
next
  case (Cons t ts)
  then obtain d1 where ins: "sql_insert (row_of_todo t) d = Inr d1"
    and rest: "flush_inserts ts d1 = Inr d'"
    by (auto split: sum.splits)
  from ins have "schema d1 = schema d" "todo_rows d1 = todo_rows d @ [row_of_todo t]"
    by (simp_all add: sql_insert_Inr)
  with Cons.IH [OF rest] show ?case by simp
qed

lemma flush_inserts_pk_inv:
  "pk_inv d \<Longrightarrow> flush_inserts ts d = Inr d' \<Longrightarrow> pk_inv d'"
proof (induction ts arbitrary: d)
  case Nil
  then show ?case by simp
next
  case (Cons t ts)
  then show ?case by (auto split: sum.splits intro: sql_insert_pk_inv)
qed

lemma flush_single:
  "flush_inserts [t] d = sql_insert (row_of_todo t) d"
  by (simp split: sum.splits)

lemma session_commit_add_open:
  "session_commit (session_add t (session_open d)) = sql_insert (row_of_todo t) d"
  by (simp add: session_commit_def session_flush_def session_add_def session_open_def
                flush_single split: sum.splits)

lemma session_query_all_open:
  "session_query_all (session_open d) =
     (case sql_select_all d of Inl e \<Rightarrow> Inl e
      | Inr rs \<Rightarrow> Inr (map todo_of_row rs, session_open d))"
  by (simp add: session_query_all_def session_flush_def session_open_def split: sum.splits)

lemma session_delete_commit_open:
  "(case session_query_delete k (session_open d) of Inl e \<Rightarrow> Inl e
    | Inr (n, s) \<Rightarrow> session_commit s) =
   (case sql_delete_id k d of Inl e \<Rightarrow> Inl e | Inr (n, d') \<Rightarrow> Inr d')"
  by (simp add: session_query_delete_def session_commit_def session_flush_def session_open_def
           split: sum.splits prod.splits)

lemma session_reload_Inr:
  "session_reload k d = Inr t \<longleftrightarrow>
     has_todo_table d \<and> map_of (todo_rows d) k = Some (todo_value t) \<and> todo_id t = k"
  by (auto simp: session_reload_def sql_select_id_def todo_of_row_def split: option.splits)

end
