(* ===== verification/Handlers.thy ===== *)
theory Handlers
  imports Http Session
begin

text \<open>
  The four view functions of \<^verbatim>\<open>src/backend/main.py\<close> (\<^verbatim>\<open>test\<close>, \<^verbatim>\<open>get_todos\<close>,
  \<^verbatim>\<open>create_todo\<close>, \<^verbatim>\<open>delete_todo\<close>, lines 31--72), each a function of the request
  and the committed database that returns the view's outcome (a response, or the
  exception that leaves it) and the committed database afterwards; the dispatch of a
  request to its view, Flask's handling of the outcome, and a server that answers a
  sequence of requests one after the other.
\<close>

section \<open>Views\<close>

text \<open>\<^verbatim>\<open>test()\<close>, lines 31--33.\<close>

definition test :: "response py_result" where
  "test = Inr (jsonify (JStr ''Working''))"

text \<open>
  \<^verbatim>\<open>get_todos()\<close>, lines 35--39: query every instance inside the session, serialise
  them after it is closed (their attributes are loaded, so nothing is reloaded).
\<close>

definition get_todos :: "database \<Rightarrow> response py_result" where
  "get_todos d =
     (case session_query_all (session_open d) of
        Inl e \<Rightarrow> Inl e
      | Inr (todos, _) \<Rightarrow> Inr (jsonify (JArr (map serialize todos))))"

text \<open>
  The \<^verbatim>\<open>try\<close> block of \<^verbatim>\<open>create_todo\<close>, lines 46--48: \<^verbatim>\<open>id = body['id']\<close>, then
  \<^verbatim>\<open>value = body['value']\<close>; the first exception ends it.
\<close>

definition read_fields :: "json \<Rightarrow> (json \<times> json) py_result" where
  "read_fields body =
     (case py_getitem body ''id'' of
        Inl e \<Rightarrow> Inl e
      | Inr i \<Rightarrow> (case py_getitem body ''value'' of Inl e \<Rightarrow> Inl e | Inr v \<Rightarrow> Inr (i, v)))"

text \<open>The Python string held by a value that passed \<^verbatim>\<open>type(x) is str\<close>.\<close>

fun str_of :: "json \<Rightarrow> string" where
  "str_of (JStr s) = s"
| "str_of _ = []"

definition invalid_body :: response where
  "invalid_body = json_response (JStr ''Invalid body'') 400"

definition already_exist :: response where
  "already_exist = json_response (JStr ''Already exist'') 409"

text \<open>
  \<^verbatim>\<open>create_todo()\<close>, lines 41--64. \<^verbatim>\<open>request.json\<close> may raise (the framework's 400 or
  415); a \<^verbatim>\<open>None\<close> body, a failed subscription or a field that is \<^verbatim>\<open>None\<close> or not a
  \<^verbatim>\<open>str\<close> answers 400; then the new instance is added and committed. An
  \<^verbatim>\<open>IntegrityError\<close> answers 409 and the session is rolled back; any other exception of
  the commit leaves the view. After the commit the instance is expired, so
  \<^verbatim>\<open>new_todo.serialize\<close> reloads it from the committed database.
\<close>

definition create_todo :: "req_body \<Rightarrow> database \<Rightarrow> response py_result \<times> database" where
  "create_todo rb d =
     (case request_json rb of
        Inl e \<Rightarrow> (Inl e, d)
      | Inr body \<Rightarrow>
         (if py_is_none body then (Inr invalid_body, d)
          else case read_fields body of
            Inl _ \<Rightarrow> (Inr invalid_body, d)
          | Inr (i, v) \<Rightarrow>
             (if py_is_none i \<or> py_is_none v \<or> \<not> py_is_str i \<or> \<not> py_is_str v
              then (Inr invalid_body, d)
              else
                (let new_todo = \<lparr>todo_id = str_of i, todo_value = str_of v\<rparr>;
                     s = session_add new_todo (session_open d)
                 in case session_commit s of
                      Inl e \<Rightarrow> (if e = IntegrityError then (Inr already_exist, d) else (Inl e, d))
                    | Inr d' \<Rightarrow>
                       (case session_reload (todo_id new_todo) d' of
                          Inl e \<Rightarrow> (Inl e, d')
                        | Inr t \<Rightarrow> (Inr (json_response (serialize t) 201), d'))))))"

text \<open>
  \<^verbatim>\<open>delete_todo(id)\<close>, lines 66--72: a bulk delete and a commit, whatever the row
  count, then \<^verbatim>\<open>"Deleted"\<close> with status 200.
\<close>

definition delete_todo :: "string \<Rightarrow> database \<Rightarrow> response py_result \<times> database" where
  "delete_todo k d =
     (case session_query_delete k (session_open d) of
        Inl e \<Rightarrow> (Inl e, d)
      | Inr (_, s) \<Rightarrow>
         (case session_commit s of
            Inl e \<Rightarrow> (Inl e, d)
          | Inr d' \<Rightarrow> (Inr (jsonify (JStr ''Deleted'')), d')))"

section \<open>Dispatch and the sequential server\<close>

text \<open>Flask answers \<^verbatim>\<open>OPTIONS\<close> itself on every rule (automatic options).\<close>

definition options_response :: response where
  "options_response = \<lparr>status = 200, payload = OptionsPage, headers = []\<rparr>"

definition dispatch :: "request \<Rightarrow> database \<Rightarrow> response py_result \<times> database" where
  "dispatch rq d =
     (case route (req_method rq) (path rq) of
        Inl e \<Rightarrow> (Inl e, d)
      | Inr (vw, arg) \<Rightarrow>
         (if req_method rq = OPTIONS then (Inr options_response, d)
          else case vw of
            View_test \<Rightarrow> (test, d)
          | View_get_todos \<Rightarrow> (get_todos d, d)
          | View_create_todo \<Rightarrow> create_todo (rbody rq) d
          | View_delete_todo \<Rightarrow>
             (case arg of None \<Rightarrow> (Inl (HTTPException 404), d) | Some k \<Rightarrow> delete_todo k d)))"

definition handle_request :: "request \<Rightarrow> database \<Rightarrow> response \<times> database" where
  "handle_request rq d =
     (case dispatch rq d of (res, d') \<Rightarrow> (finalize app_debug (cors (origin rq)) res, d'))"

text \<open>One request after the other, each on the database the previous one committed.\<close>

fun serve :: "database \<Rightarrow> request list \<Rightarrow> response list \<times> database" where
  "serve d [] = ([], d)"
| "serve d (rq # rqs) =
     (case handle_request rq d of
        (r, d') \<Rightarrow> (case serve d' rqs of (rs, d'') \<Rightarrow> (r # rs, d'')))"

text \<open>
  What the checks of \<^verbatim>\<open>create_todo\<close> (lines 43--53) decide, stated in one step: the
  body is a dict whose \<^verbatim>\<open>'id'\<close> and \<^verbatim>\<open>'value'\<close> entries are both strings. The
  lemma \<open>create_todo_eq\<close> shows that the code's sequence of checks computes it.
\<close>

definition body_todo :: "json \<Rightarrow> todo option" where
  "body_todo b =
     (case b of
        JObj kvs \<Rightarrow>
          (case (map_of (rev kvs) ''id'', map_of (rev kvs) ''value'') of
             (Some (JStr i), Some (JStr v)) \<Rightarrow> Some \<lparr>todo_id = i, todo_value = v\<rparr>
           | _ \<Rightarrow> None)
      | _ \<Rightarrow> None)"

lemmas view_defs [model_defs] = test_def get_todos_def create_todo_def delete_todo_def
  read_fields_def

section \<open>Lemmas\<close>

lemma create_todo_eq:
  "create_todo rb d =
     (case request_json rb of
        Inl e \<Rightarrow> (Inl e, d)
      | Inr body \<Rightarrow>
         (case body_todo body of
            None \<Rightarrow> (Inr invalid_body, d)
          | Some t \<Rightarrow>
             (case sql_insert (row_of_todo t) d of
                Inl e \<Rightarrow> (if e = IntegrityError then (Inr already_exist, d) else (Inl e, d))
              | Inr d' \<Rightarrow>
                 (case session_reload (todo_id t) d' of
                    Inl e \<Rightarrow> (Inl e, d')
                  | Inr t' \<Rightarrow> (Inr (json_response (serialize t') 201), d')))))"
proof (cases "request_json rb")
  case (Inl e)
  then show ?thesis by (simp add: create_todo_def)
next
  case (Inr body)
  show ?thesis
  proof (cases body)
    case (JObj kvs)
    with Inr show ?thesis
      by (auto simp: create_todo_def body_todo_def read_fields_def py_is_none_def
               session_commit_add_open split: option.splits json.splits sum.splits)
  qed (simp_all add: Inr create_todo_def body_todo_def read_fields_def py_is_none_def)
qed

lemma session_reload_after_insert:
  "sql_insert (row_of_todo t) d = Inr d' \<Longrightarrow> session_reload (todo_id t) d' = Inr t"
  by (auto simp: sql_insert_Inr session_reload_Inr row_of_todo_def map_of_snoc_fresh
                 has_todo_table_def simp del: map_of_append)

lemma get_todos_eq:
  "get_todos d =
     (case sql_select_all d of
        Inl e \<Rightarrow> Inl e
      | Inr rs \<Rightarrow> Inr (jsonify (JArr (map (serialize \<circ> todo_of_row) rs))))"
  by (simp add: get_todos_def session_query_all_open split: sum.split)

lemma delete_todo_eq:
  "delete_todo k d =
     (case sql_delete_id k d of
        Inl e \<Rightarrow> (Inl e, d)
      | Inr (n, d') \<Rightarrow> (Inr (jsonify (JStr ''Deleted'')), d'))"
  by (simp add: delete_todo_def session_query_delete_def session_commit_def session_flush_def
                session_open_def split: sum.split prod.split)

lemma body_todo_Some:
  "body_todo b = Some t \<longleftrightarrow>
     (\<exists>kvs. b = JObj kvs \<and> map_of (rev kvs) ''id'' = Some (JStr (todo_id t))
            \<and> map_of (rev kvs) ''value'' = Some (JStr (todo_value t)))"
  by (auto simp: body_todo_def split: json.splits option.splits)

lemma body_todo_serialize [simp]: "body_todo (serialize t) = Some t"
  by (simp add: body_todo_def serialize_def)

lemma create_todo_insert_ok:
  assumes "has_todo_table d" and "todo_id t \<notin> set (keys (todo_rows d))"
  shows "sql_insert (row_of_todo t) d = Inr (d\<lparr>todo_rows := todo_rows d @ [row_of_todo t]\<rparr>)"
    and "session_reload (todo_id t) (d\<lparr>todo_rows := todo_rows d @ [row_of_todo t]\<rparr>) = Inr t"
proof -
  from assms show ins: "sql_insert (row_of_todo t) d = Inr (d\<lparr>todo_rows := todo_rows d @ [row_of_todo t]\<rparr>)"
    by (simp add: sql_insert_def row_of_todo_def)
  then show "session_reload (todo_id t) (d\<lparr>todo_rows := todo_rows d @ [row_of_todo t]\<rparr>) = Inr t"
    by (rule session_reload_after_insert)
qed

lemma create_todo_effect:
  "snd (create_todo rb d) = d \<or>
   (\<exists>t. has_todo_table d \<and> todo_id t \<notin> set (keys (todo_rows d)) \<and>
        snd (create_todo rb d) = d\<lparr>todo_rows := todo_rows d @ [row_of_todo t]\<rparr>)"
proof -
  consider (same) "snd (create_todo rb d) = d"
    | (ins) t where "sql_insert (row_of_todo t) d = Inr (snd (create_todo rb d))"
    by (fastforce simp: create_todo_eq split: sum.splits option.splits)
  then show ?thesis
  proof cases
    case (ins t)
    then show ?thesis by (auto simp: sql_insert_Inr row_of_todo_def)
  qed simp
qed

lemma delete_todo_effect:
  "snd (delete_todo k d) = d \<or>
   (has_todo_table d \<and> snd (delete_todo k d) = d\<lparr>todo_rows := drop_key k (todo_rows d)\<rparr>)"
  by (auto simp: delete_todo_eq sql_delete_id_def)

lemma dispatch_effect:
  "snd (dispatch rq d) = d \<or>
   (\<exists>t. has_todo_table d \<and> todo_id t \<notin> set (keys (todo_rows d)) \<and>
        snd (dispatch rq d) = d\<lparr>todo_rows := todo_rows d @ [row_of_todo t]\<rparr>) \<or>
   (\<exists>k. route (req_method rq) (path rq) = Inr (View_delete_todo, Some k) \<and> has_todo_table d \<and>
        snd (dispatch rq d) = d\<lparr>todo_rows := drop_key k (todo_rows d)\<rparr>)"
proof (cases "route (req_method rq) (path rq)")
  case (Inr va)
  obtain vw arg where va: "va = (vw, arg)" by (cases va)
  show ?thesis
  proof (cases "req_method rq = OPTIONS")
    case True
    with Inr va show ?thesis by (simp add: dispatch_def)
  next
    case False
    then show ?thesis
    proof (cases vw)
      case View_create_todo
      with Inr va False show ?thesis
        using create_todo_effect [of "rbody rq" d] by (simp add: dispatch_def)
    next
      case View_delete_todo
      with Inr va False show ?thesis
        using delete_todo_effect [of _ d] by (auto simp: dispatch_def split: option.splits)
    qed (simp_all add: dispatch_def Inr va)
  qed
qed (simp add: dispatch_def)

lemma dispatch_db_ok:
  assumes "db_ok d" shows "db_ok (snd (dispatch rq d))"
  using dispatch_effect [of rq d] assms
  by (auto simp: db_ok_def pk_inv_def has_todo_table_def row_of_todo_def)

lemma handle_request_db [simp]: "snd (handle_request rq d) = snd (dispatch rq d)"
  by (simp add: handle_request_def split: prod.split)

lemma serve_Cons:
  "serve d (rq # rqs) =
     (fst (handle_request rq d) # fst (serve (snd (handle_request rq d)) rqs),
      snd (serve (snd (handle_request rq d)) rqs))"
  by (simp del: handle_request_db split: prod.split)

lemma serve_snoc:
  "snd (serve d (rqs @ [rq])) = snd (handle_request rq (snd (serve d rqs)))"
  by (induction rqs arbitrary: d) (simp_all add: serve_Cons del: serve.simps(2) handle_request_db)

lemma serve_db_ok:
  "db_ok d \<Longrightarrow> db_ok (snd (serve d rqs))"
proof (induction rqs arbitrary: d)
  case Nil
  then show ?case by simp
next
  case (Cons rq rqs)
  from Cons.prems have "db_ok (snd (handle_request rq d))"
    by (simp add: dispatch_db_ok)
  then have "db_ok (snd (serve (snd (handle_request rq d)) rqs))"
    by (rule Cons.IH)
  then show ?case by (simp only: serve_Cons snd_conv)
qed

lemma startup_db_ok: "pk_inv f \<Longrightarrow> db_ok (startup f)"
  by (simp add: startup_def db_ok_def create_all_pk_inv)

lemma dispatch_keeps_id:
  assumes "map_of (todo_rows d) k = Some v"
    and "\<And>m p. route m p \<noteq> Inr (View_delete_todo, Some k)"
  shows "map_of (todo_rows (snd (dispatch rq d))) k = Some v"
  using dispatch_effect [of rq d] assms
  by (auto simp: row_of_todo_def map_of_drop_key map_of_eq_None_iff [symmetric])

lemma serve_keeps_id:
  assumes "map_of (todo_rows d) k = Some v"
    and "\<And>m p. route m p \<noteq> Inr (View_delete_todo, Some k)"
  shows "map_of (todo_rows (snd (serve d rqs))) k = Some v"
  using assms(1)
proof (induction rqs arbitrary: d)
  case Nil
  then show ?case by simp
next
  case (Cons rq rqs)
  from Cons.prems assms(2) have "map_of (todo_rows (snd (handle_request rq d))) k = Some v"
    by (simp add: dispatch_keeps_id)
  then show ?case by (simp only: serve_Cons snd_conv Cons.IH)
qed





section \<open>Behaviour of the views\<close>

text \<open>
  C1. A well-formed create on an id the table does not hold answers 201 with the
  serialised todo and appends its row to the table.
\<close>

theorem create_todo_created:
  assumes "request_json rb = Inr b" and "body_todo b = Some t"
    and "has_todo_table d" and "todo_id t \<notin> set (keys (todo_rows d))"
  shows "create_todo rb d =
           (Inr (json_response (serialize t) 201),
            d\<lparr>todo_rows := todo_rows d @ [row_of_todo t]\<rparr>)"
  using assms create_todo_insert_ok [OF assms(3,4)] by (simp add: create_todo_eq)

theorem create_todo_created_witness:
  "request_json (json_body (JObj [(''id'', JStr ''a''), (''value'', JStr ''buy milk'')]))
     = Inr (JObj [(''id'', JStr ''a''), (''value'', JStr ''buy milk'')]) \<and>
   body_todo (JObj [(''id'', JStr ''a''), (''value'', JStr ''buy milk'')])
     = Some \<lparr>todo_id = ''a'', todo_value = ''buy milk''\<rparr> \<and>
   has_todo_table (startup empty_database) \<and>
   ''a'' \<notin> set (keys (todo_rows (startup empty_database))) \<and>
   create_todo (json_body (JObj [(''id'', JStr ''a''), (''value'', JStr ''buy milk'')]))
     (startup empty_database) =
     (Inr (json_response (JObj [(''id'', JStr ''a''), (''value'', JStr ''buy milk'')]) 201),
      \<lparr>schema = [''todo'', ''ix_todo_id''], todo_rows = [(''a'', ''buy milk'')]\<rparr>)"
  using create_todo_created [of "json_body (JObj [(''id'', JStr ''a''), (''value'', JStr ''buy milk'')])"
      "JObj [(''id'', JStr ''a''), (''value'', JStr ''buy milk'')]"
      "\<lparr>todo_id = ''a'', todo_value = ''buy milk''\<rparr>" "startup empty_database"]
  by (simp add: body_todo_def startup_def create_all_def empty_database_def has_todo_table_def
                serialize_def row_of_todo_def)

text \<open>
  C2. A well-formed create on an id the table already holds answers 409
  \<^verbatim>\<open>"Already exist"\<close> and leaves the database as it was: the stored value is not
  overwritten.
\<close>

theorem create_todo_conflict:
  assumes "request_json rb = Inr b" and "body_todo b = Some t"
    and "has_todo_table d" and "todo_id t \<in> set (keys (todo_rows d))"
  shows "create_todo rb d = (Inr already_exist, d)"
  using assms by (simp add: create_todo_eq sql_insert_def row_of_todo_def)

theorem create_todo_conflict_witness:
  "request_json (json_body (JObj [(''id'', JStr ''a''), (''value'', JStr ''other'')]))
     = Inr (JObj [(''id'', JStr ''a''), (''value'', JStr ''other'')]) \<and>
   body_todo (JObj [(''id'', JStr ''a''), (''value'', JStr ''other'')])
     = Some \<lparr>todo_id = ''a'', todo_value = ''other''\<rparr> \<and>
   has_todo_table \<lparr>schema = [''todo'', ''ix_todo_id''], todo_rows = [(''a'', ''buy milk'')]\<rparr> \<and>
   ''a'' \<in> set (keys [(''a'', ''buy milk'')]) \<and>
   create_todo (json_body (JObj [(''id'', JStr ''a''), (''value'', JStr ''other'')]))
     \<lparr>schema = [''todo'', ''ix_todo_id''], todo_rows = [(''a'', ''buy milk'')]\<rparr> =
     (Inr already_exist, \<lparr>schema = [''todo'', ''ix_todo_id''], todo_rows = [(''a'', ''buy milk'')]\<rparr>)"
  using create_todo_conflict [of "json_body (JObj [(''id'', JStr ''a''), (''value'', JStr ''other'')])"
      "JObj [(''id'', JStr ''a''), (''value'', JStr ''other'')]"
      "\<lparr>todo_id = ''a'', todo_value = ''other''\<rparr>"
      "\<lparr>schema = [''todo'', ''ix_todo_id''], todo_rows = [(''a'', ''buy milk'')]\<rparr>"]
  by (simp add: body_todo_def has_todo_table_def)

text \<open>
  C3. A JSON body that is not a dict with string \<^verbatim>\<open>'id'\<close> and \<^verbatim>\<open>'value'\<close> entries
  (missing key, \<^verbatim>\<open>null\<close>, wrong type, not an object) answers 400
  \<^verbatim>\<open>"Invalid body"\<close> and leaves the database as it was.
\<close>

theorem create_todo_invalid:
  assumes "request_json rb = Inr b" and "body_todo b = None"
  shows "create_todo rb d = (Inr invalid_body, d)"
  using assms by (simp add: create_todo_eq)

theorem create_todo_invalid_witness:
  "request_json (json_body (JObj [(''id'', JStr ''t1'')])) = Inr (JObj [(''id'', JStr ''t1'')]) \<and>
   body_todo (JObj [(''id'', JStr ''t1'')]) = None \<and>
   create_todo (json_body (JObj [(''id'', JStr ''t1'')])) (startup empty_database) =
     (Inr invalid_body, startup empty_database)"
  using create_todo_invalid [of "json_body (JObj [(''id'', JStr ''t1'')])"
      "JObj [(''id'', JStr ''t1'')]" "startup empty_database"]
  by (simp add: body_todo_def)

text \<open>
  C4. Delete answers 200 \<^verbatim>\<open>"Deleted"\<close> whether or not the id is stored, and removes
  exactly the rows with that id, keeping the others in order.
\<close>

theorem delete_todo_removes:
  assumes "has_todo_table d"
  shows "delete_todo k d =
           (Inr (jsonify (JStr ''Deleted'')), d\<lparr>todo_rows := drop_key k (todo_rows d)\<rparr>)"
  using assms by (simp add: delete_todo_eq sql_delete_id_def)

theorem delete_todo_removes_witness:
  "has_todo_table \<lparr>schema = [''todo'', ''ix_todo_id''], todo_rows = [(''a'', ''x''), (''b'', ''y'')]\<rparr> \<and>
   delete_todo ''a'' \<lparr>schema = [''todo'', ''ix_todo_id''], todo_rows = [(''a'', ''x''), (''b'', ''y'')]\<rparr> =
     (Inr (jsonify (JStr ''Deleted'')),
      \<lparr>schema = [''todo'', ''ix_todo_id''], todo_rows = [(''b'', ''y'')]\<rparr>)"
  using delete_todo_removes [of "\<lparr>schema = [''todo'', ''ix_todo_id''], todo_rows = [(''a'', ''x''), (''b'', ''y'')]\<rparr>" "''a''"]
  by (simp add: has_todo_table_def)

text \<open>
  C5. List answers 200 with every stored row serialised as \<^verbatim>\<open>{id, value}\<close>, in the
  order of the table scan, and changes nothing.
\<close>

theorem get_todos_lists:
  assumes "has_todo_table d"
  shows "get_todos d = Inr (jsonify (JArr (map (serialize \<circ> todo_of_row) (todo_rows d))))"
  using assms by (simp add: get_todos_eq sql_select_all_def)

theorem get_todos_lists_witness:
  "has_todo_table \<lparr>schema = [''todo'', ''ix_todo_id''], todo_rows = [(''a'', ''buy milk'')]\<rparr> \<and>
   get_todos \<lparr>schema = [''todo'', ''ix_todo_id''], todo_rows = [(''a'', ''buy milk'')]\<rparr> =
     Inr (jsonify (JArr [JObj [(''id'', JStr ''a''), (''value'', JStr ''buy milk'')]]))"
  using get_todos_lists [of "\<lparr>schema = [''todo'', ''ix_todo_id''], todo_rows = [(''a'', ''buy milk'')]\<rparr>"]
  by (simp add: has_todo_table_def serialize_def)

section \<open>Properties of the whole application\<close>

text \<open>
  C11. From the start-up state on any database file whose key is unique, every
  sequence of requests leaves the table present and its primary key unique.
\<close>

theorem serve_keeps_db_ok:
  assumes "pk_inv f"
  shows "db_ok (snd (serve (startup f) rqs))"
  using assms by (intro serve_db_ok startup_db_ok)

theorem serve_keeps_db_ok_witness:
  "pk_inv empty_database \<and>
   db_ok (snd (serve (startup empty_database)
     [\<lparr>req_method = POST, path = ''/todo'', origin = None,
       rbody = json_body (JObj [(''id'', JStr ''a''), (''value'', JStr ''x'')])\<rparr>]))"
proof -
  have h: "pk_inv empty_database" by (simp add: pk_inv_def empty_database_def)
  with serve_keeps_db_ok [OF h] show ?thesis by blast
qed

text \<open>
  C17. The data survives a restart: started again on the file a run of the service
  left behind, \<^verbatim>\<open>create_all\<close> finds the table and the service resumes in exactly the
  state it stopped in, every stored todo kept.
\<close>

theorem restart_keeps_data:
  assumes "pk_inv f"
  shows "startup (snd (serve (startup f) rqs)) = snd (serve (startup f) rqs)"
proof -
  have "db_ok (snd (serve (startup f) rqs))"
    using assms by (intro serve_db_ok startup_db_ok)
  then show ?thesis by (simp add: startup_def create_all_def db_ok_def)
qed

theorem restart_keeps_data_witness:
  "pk_inv empty_database \<and>
   startup (snd (serve (startup empty_database)
     [\<lparr>req_method = POST, path = ''/todo'', origin = None,
       rbody = json_body (JObj [(''id'', JStr ''a''), (''value'', JStr ''x'')])\<rparr>])) =
   snd (serve (startup empty_database)
     [\<lparr>req_method = POST, path = ''/todo'', origin = None,
       rbody = json_body (JObj [(''id'', JStr ''a''), (''value'', JStr ''x'')])\<rparr>])"
proof -
  have h: "pk_inv empty_database" by (simp add: pk_inv_def empty_database_def)
  with restart_keeps_data [OF h] show ?thesis by blast
qed

text \<open>
  C24. A request reaches \<^verbatim>\<open>delete_todo(k)\<close> exactly when it is a \<^verbatim>\<open>DELETE\<close> (or the
  automatic \<^verbatim>\<open>OPTIONS\<close>) whose path, once Werkzeug has stripped its leading slashes,
  is \<^verbatim>\<open>/todo/k\<close> with \<open>k\<close> a non-empty segment without \<^verbatim>\<open>/\<close>: the \<^verbatim>\<open><id>\<close>
  converter of line 66. So \<^verbatim>\<open>//todo/k\<close> deletes \<open>k\<close> too, while \<^verbatim>\<open>/todo//k\<close> is
  only redirected.
\<close>

theorem route_delete_iff:
  "route m p = Inr (View_delete_todo, Some k) \<longleftrightarrow>
     m \<in> {DELETE, OPTIONS} \<and> werkzeug_path p = ''/todo/'' @ k \<and> k \<noteq> [] \<and> CHR ''/'' \<notin> set k"
proof
  assume r: "route m p = Inr (View_delete_todo, Some k)"
  then have p: "werkzeug_path p = ''/todo/'' @ k \<and> k \<noteq> [] \<and> CHR ''/'' \<notin> set k"
    by (rule route_delete_arg)
  with r show "m \<in> {DELETE, OPTIONS} \<and> werkzeug_path p = ''/todo/'' @ k \<and> k \<noteq> [] \<and> CHR ''/'' \<notin> set k"
    by (auto simp: route_Inr url_match_fst Let_def split: if_splits)
next
  assume "m \<in> {DELETE, OPTIONS} \<and> werkzeug_path p = ''/todo/'' @ k \<and> k \<noteq> [] \<and> CHR ''/'' \<notin> set k"
  then show "route m p = Inr (View_delete_todo, Some k)"
    by (auto simp: route_Inr url_match_fst Let_def)
qed

text \<open>
  C20. A stored todo whose id is empty or contains \<^verbatim>\<open>/\<close> survives every sequence of
  requests: no URL reaches \<^verbatim>\<open>delete_todo\<close> with that id, although
  \<^verbatim>\<open>create_todo\<close> accepts any string id (C1).
\<close>

theorem serve_keeps_unroutable_id:
  assumes "k = [] \<or> CHR ''/'' \<in> set k" and "map_of (todo_rows d) k = Some v"
  shows "map_of (todo_rows (snd (serve d rqs))) k = Some v"
proof (rule serve_keeps_id [OF assms(2)])
  fix m p
  from assms(1) show "route m p \<noteq> Inr (View_delete_todo, Some k)"
    using route_delete_arg by blast
qed

theorem serve_keeps_unroutable_id_witness:
  "(''a/b'' = [] \<or> CHR ''/'' \<in> set ''a/b'') \<and>
   map_of (todo_rows \<lparr>schema = [''todo'', ''ix_todo_id''], todo_rows = [(''a/b'', ''x'')]\<rparr>) ''a/b'' = Some ''x'' \<and>
   map_of (todo_rows (snd (serve \<lparr>schema = [''todo'', ''ix_todo_id''], todo_rows = [(''a/b'', ''x'')]\<rparr>
     [\<lparr>req_method = DELETE, path = ''/todo/a/b'', origin = None, rbody = json_body JNull\<rparr>])))
     ''a/b'' = Some ''x''"
proof -
  have h1: "''a/b'' = [] \<or> CHR ''/'' \<in> set ''a/b''" by simp
  have h2: "map_of (todo_rows \<lparr>schema = [''todo'', ''ix_todo_id''], todo_rows = [(''a/b'', ''x'')]\<rparr>) ''a/b''
              = Some ''x''" by simp
  from h1 h2 serve_keeps_unroutable_id [OF h1 h2] show ?thesis by blast
qed





text \<open>
  C21. Before any check of its own, \<^verbatim>\<open>create_todo\<close> lets \<^verbatim>\<open>request.json\<close> raise:
  a body that is not declared JSON answers 415 and one that does not parse answers
  Werkzeug's 400 page, not \<^verbatim>\<open>"Invalid body"\<close>; only a parsed body reaches the checks.
\<close>

theorem create_todo_request_json:
  "create_todo rb d =
     (if \<not> content_is_json rb then (Inl (HTTPException 415), d)
      else case parsed rb of
        None \<Rightarrow> (Inl (HTTPException 400), d)
      | Some b \<Rightarrow> create_todo (json_body b) d)"
  by (simp add: create_todo_eq request_json_def json_body_def split: option.split)

text \<open>
  C25. Delete changes the row count by exactly one when the id is stored and not at
  all when it is not.
\<close>

theorem delete_todo_row_count:
  assumes "db_ok d"
  shows "length (todo_rows (snd (delete_todo k d))) =
           (if k \<in> set (keys (todo_rows d)) then length (todo_rows d) - 1 else length (todo_rows d))"
  using assms
  by (simp add: delete_todo_eq sql_delete_id_def db_ok_def pk_inv_def length_drop_key_present
                drop_key_absent)

theorem delete_todo_row_count_witness:
  "db_ok \<lparr>schema = [''todo'', ''ix_todo_id''], todo_rows = [(''a'', ''x''), (''b'', ''y'')]\<rparr> \<and>
   length (todo_rows (snd (delete_todo ''a''
      \<lparr>schema = [''todo'', ''ix_todo_id''], todo_rows = [(''a'', ''x''), (''b'', ''y'')]\<rparr>))) = 1 \<and>
   length (todo_rows (snd (delete_todo ''z''
      \<lparr>schema = [''todo'', ''ix_todo_id''], todo_rows = [(''a'', ''x''), (''b'', ''y'')]\<rparr>))) = 2"
proof -
  have h: "db_ok \<lparr>schema = [''todo'', ''ix_todo_id''], todo_rows = [(''a'', ''x''), (''b'', ''y'')]\<rparr>"
    by (simp add: db_ok_def pk_inv_def has_todo_table_def)
  from h delete_todo_row_count [OF h, of "''a''"] delete_todo_row_count [OF h, of "''z''"]
  show ?thesis by simp
qed

end
