(* ===== verification/Server.thy ===== *)
theory Server
  imports Handlers
begin

text \<open>
  The debug server of \<^verbatim>\<open>app.run(debug=True)\<close> (line 74) serves every request on a
  thread of its own, all against the one SQLite file. Each view touches the database in
  atomic steps: \<^verbatim>\<open>get_todos\<close> reads once, \<^verbatim>\<open>delete_todo\<close> deletes and commits
  (SQLite's write lock makes the pair one step for every other connection), and
  \<^verbatim>\<open>create_todo\<close> takes two: the commit of line 59, then the reload of the expired
  instance that \<^verbatim>\<open>new_todo.serialize\<close> performs at line 64. Other threads may run
  between the two. This theory models the threads and their interleaving.
\<close>

section \<open>The create view in two atomic steps\<close>

text \<open>
  Lines 43--62 of \<^verbatim>\<open>create_todo\<close>, up to the commit: either the view has finished
  (\<open>Inl\<close>: its outcome) or the new instance is committed (\<open>Inr\<close>) and waits for line
  64.
\<close>

definition create_todo_commit :: "req_body \<Rightarrow> database \<Rightarrow> (response py_result + todo) \<times> database" where
  "create_todo_commit rb d =
     (case request_json rb of
        Inl e \<Rightarrow> (Inl (Inl e), d)
      | Inr body \<Rightarrow>
         (if py_is_none body then (Inl (Inr invalid_body), d)
          else case read_fields body of
            Inl _ \<Rightarrow> (Inl (Inr invalid_body), d)
          | Inr (i, v) \<Rightarrow>
             (if py_is_none i \<or> py_is_none v \<or> \<not> py_is_str i \<or> \<not> py_is_str v
              then (Inl (Inr invalid_body), d)
              else
                (let new_todo = \<lparr>todo_id = str_of i, todo_value = str_of v\<rparr>;
                     s = session_add new_todo (session_open d)
                 in case session_commit s of
                      Inl e \<Rightarrow>
                        (if e = IntegrityError then (Inl (Inr already_exist), d) else (Inl (Inl e), d))
                    | Inr d' \<Rightarrow> (Inr new_todo, d')))))"

text \<open>Line 64: \<^verbatim>\<open>jsonify(new_todo.serialize), 201\<close> on the expired instance.\<close>

definition create_todo_finish :: "todo \<Rightarrow> database \<Rightarrow> response py_result" where
  "create_todo_finish new_todo d =
     (case session_reload (todo_id new_todo) d of
        Inl e \<Rightarrow> Inl e
      | Inr t \<Rightarrow> Inr (json_response (serialize t) 201))"

section \<open>Threads\<close>

text \<open>
  A request's thread: waiting to start, inside \<^verbatim>\<open>create_todo\<close> between the commit and
  the reload, or done with its response.
\<close>

datatype phase =
    Pending request
  | AwaitReload request todo
  | Done response

definition is_create :: "request \<Rightarrow> bool" where
  "is_create rq \<longleftrightarrow>
     req_method rq \<noteq> OPTIONS \<and>
     (case route (req_method rq) (path rq) of Inr (View_create_todo, _) \<Rightarrow> True | _ \<Rightarrow> False)"

text \<open>
  The first atomic step of a thread: a create runs to its commit; every other request
  runs its whole view, which touches the database at most once.
\<close>

definition start_step :: "request \<Rightarrow> database \<Rightarrow> phase \<times> database" where
  "start_step rq d =
     (if is_create rq then
        (case create_todo_commit (rbody rq) d of
           (Inl res, d') \<Rightarrow> (Done (finalize app_debug (cors (origin rq)) res), d')
         | (Inr t, d') \<Rightarrow> (AwaitReload rq t, d'))
      else (case handle_request rq d of (r, d') \<Rightarrow> (Done r, d')))"

fun phase_step :: "phase \<Rightarrow> database \<Rightarrow> (phase \<times> database) option" where
  "phase_step (Pending rq) d = Some (start_step rq d)"
| "phase_step (AwaitReload rq t) d =
     Some (Done (finalize app_debug (cors (origin rq)) (create_todo_finish t d)), d)"
| "phase_step (Done r) d = None"

text \<open>The atomic steps a thread still has to take.\<close>

fun remaining :: "phase \<Rightarrow> nat" where
  "remaining (Pending rq) = 2"
| "remaining (AwaitReload rq t) = 1"
| "remaining (Done r) = 0"

text \<open>A thread run alone, for at most \<open>n\<close> steps.\<close>

fun solo :: "nat \<Rightarrow> phase \<Rightarrow> database \<Rightarrow> phase \<times> database" where
  "solo 0 p d = (p, d)"
| "solo (Suc n) p d = (case phase_step p d of None \<Rightarrow> (p, d) | Some (p', d') \<Rightarrow> solo n p' d')"

section \<open>The server\<close>

record server =
  sdb :: database
  threads :: "phase list"

text \<open>One thread takes its next atomic step; which one is up to the scheduler.\<close>

inductive run_step :: "server \<Rightarrow> server \<Rightarrow> bool" where
  run: "i < length (threads s) \<Longrightarrow> phase_step (threads s ! i) (sdb s) = Some (p, d) \<Longrightarrow>
        run_step s (s\<lparr>sdb := d, threads := (threads s)[i := p]\<rparr>)"

text \<open>A request arrives and gets a thread, or a thread takes a step.\<close>

inductive server_step :: "server \<Rightarrow> server \<Rightarrow> bool" where
  arrive: "server_step s (s\<lparr>threads := threads s @ [Pending rq]\<rparr>)"
| thread: "run_step s s' \<Longrightarrow> server_step s s'"

inductive reachable :: "server \<Rightarrow> bool" where
  init: "pk_inv f \<Longrightarrow> reachable \<lparr>sdb = startup f, threads = []\<rparr>"
| step: "reachable s \<Longrightarrow> server_step s s' \<Longrightarrow> reachable s'"

inductive_cases run_stepE: "run_step s s'"

fun is_done :: "phase \<Rightarrow> bool" where
  "is_done (Done r) = True"
| "is_done _ = False"

section \<open>Schedules\<close>

text \<open>
  An interleaving written out: a list of scheduler decisions, each the arrival of a
  request or the next step of thread \<open>i\<close>. Executable, so that a given interleaving
  can be run by the simplifier; \<open>sched_step_iff\<close> shows that schedules describe
  exactly the steps of \<open>server_step\<close>.
\<close>

datatype sched = Arrive request | Run nat

fun sched_step :: "server \<Rightarrow> sched \<Rightarrow> server option" where
  "sched_step s (Arrive rq) = Some (s\<lparr>threads := threads s @ [Pending rq]\<rparr>)"
| "sched_step s (Run i) =
     (if i < length (threads s) then
        (case phase_step (threads s ! i) (sdb s) of
           None \<Rightarrow> None
         | Some (p, d) \<Rightarrow> Some (s\<lparr>sdb := d, threads := (threads s)[i := p]\<rparr>))
      else None)"

fun run_schedule :: "server \<Rightarrow> sched list \<Rightarrow> server option" where
  "run_schedule s [] = Some s"
| "run_schedule s (x # xs) = (case sched_step s x of None \<Rightarrow> None | Some s' \<Rightarrow> run_schedule s' xs)"

definition boot :: "database \<Rightarrow> server" where
  "boot f = \<lparr>sdb = startup f, threads = []\<rparr>"

section \<open>Clients\<close>

text \<open>The two requests the interleavings below are made of.\<close>

definition post_todo :: "string \<Rightarrow> string \<Rightarrow> request" where
  "post_todo k v = \<lparr>req_method = POST, path = ''/todo'', origin = None,
                    rbody = json_body (JObj [(''id'', JStr k), (''value'', JStr v)])\<rparr>"

definition delete_request :: "string \<Rightarrow> request" where
  "delete_request k = \<lparr>req_method = DELETE, path = ''/todo/'' @ k, origin = None,
                       rbody = json_body JNull\<rparr>"

text \<open>A client's \<^verbatim>\<open>POST /todo\<close> with an arbitrary JSON body.\<close>

definition post_json :: "json \<Rightarrow> request" where
  "post_json j = \<lparr>req_method = POST, path = ''/todo'', origin = None, rbody = json_body j\<rparr>"

text \<open>The work the threads still have to do.\<close>

definition work :: "server \<Rightarrow> nat" where
  "work s = sum_list (map remaining (threads s))"

section \<open>Racing creates\<close>

text \<open>
  The specification's one concurrency guarantee (its section 5): creates of the same
  id are serialised by the uniqueness constraint and the losers answer 409. A request
  \<open>creates k\<close> when it reaches \<^verbatim>\<open>create_todo\<close> with a valid body for id \<open>k\<close>; a
  thread has \<open>won\<close> once its insert committed.
\<close>

definition creates :: "string \<Rightarrow> request \<Rightarrow> bool" where
  "creates k rq \<longleftrightarrow> is_create rq \<and>
     (case request_json (rbody rq) of
        Inl _ \<Rightarrow> False
      | Inr b \<Rightarrow> (case body_todo b of None \<Rightarrow> False | Some t \<Rightarrow> todo_id t = k))"

fun won :: "phase \<Rightarrow> bool" where
  "won (AwaitReload rq t) = True"
| "won (Done r) = (status r = 201)"
| "won (Pending rq) = False"

fun phase_status :: "phase \<Rightarrow> nat" where
  "phase_status (Done r) = status r"
| "phase_status _ = 0"

text \<open>
  The invariant of a race on \<open>k\<close>: every thread is a pending create of \<open>k\<close>, a
  committed create of \<open>k\<close> or done with 201 or 409; at most one thread has won; the
  table holds \<open>k\<close> exactly when one has; a 409 was answered only after one had.
\<close>

definition race_inv :: "string \<Rightarrow> server \<Rightarrow> bool" where
  "race_inv k s \<longleftrightarrow>
     db_ok (sdb s) \<and>
     (\<forall>p \<in> set (threads s).
        (case p of
           Pending rq \<Rightarrow> creates k rq
         | AwaitReload rq t \<Rightarrow> todo_id t = k
         | Done r \<Rightarrow> status r = 201 \<or> status r = 409)) \<and>
     length (filter won (threads s)) \<le> 1 \<and>
     (k \<in> set (keys (todo_rows (sdb s))) \<longleftrightarrow> length (filter won (threads s)) = 1) \<and>
     ((\<exists>p \<in> set (threads s). phase_status p = 409) \<longrightarrow> length (filter won (threads s)) = 1)"

section \<open>Lemmas\<close>

lemma create_todo_commit_eq:
  "create_todo_commit rb d =
     (case request_json rb of
        Inl e \<Rightarrow> (Inl (Inl e), d)
      | Inr body \<Rightarrow>
         (case body_todo body of
            None \<Rightarrow> (Inl (Inr invalid_body), d)
          | Some t \<Rightarrow>
             (case sql_insert (row_of_todo t) d of
                Inl e \<Rightarrow> (if e = IntegrityError then (Inl (Inr already_exist), d) else (Inl (Inl e), d))
              | Inr d' \<Rightarrow> (Inr t, d'))))"
proof (cases "request_json rb")
  case (Inl e)
  then show ?thesis by (simp add: create_todo_commit_def)
next
  case (Inr body)
  show ?thesis
  proof (cases body)
    case (JObj kvs)
    with Inr show ?thesis
      by (auto simp: create_todo_commit_def body_todo_def read_fields_def py_is_none_def
               session_commit_add_open split: option.splits json.splits sum.splits)
  qed (simp_all add: Inr create_todo_commit_def body_todo_def read_fields_def py_is_none_def)
qed

lemma create_todo_split:
  "create_todo rb d =
     (case create_todo_commit rb d of
        (Inl res, d') \<Rightarrow> (res, d')
      | (Inr t, d') \<Rightarrow> (create_todo_finish t d', d'))"
  by (simp add: create_todo_eq create_todo_commit_eq create_todo_finish_def
           split: sum.split option.split)

lemma phase_step_None: "phase_step p d = None \<longleftrightarrow> is_done p"
  by (cases p) auto

lemma phase_step_remaining:
  "phase_step p d = Some (p', d') \<Longrightarrow> remaining p' < remaining p"
  by (cases p) (auto simp: start_step_def split: if_splits sum.splits prod.splits)

lemma remaining_zero: "remaining p = 0 \<longleftrightarrow> is_done p"
  by (cases p) auto


lemma sched_step_iff: "server_step s s' \<longleftrightarrow> (\<exists>x. sched_step s x = Some s')"
proof
  assume "server_step s s'"
  then show "\<exists>x. sched_step s x = Some s'"
  proof cases
    case (arrive rq)
    then show ?thesis by (intro exI [of _ "Arrive rq"]) simp
  next
    case thread
    then obtain i p d where "i < length (threads s)" and "phase_step (threads s ! i) (sdb s) = Some (p, d)"
      and "s' = s\<lparr>sdb := d, threads := (threads s)[i := p]\<rparr>"
      by (auto elim!: run_stepE)
    then have "sched_step s (Run i) = Some s'" by simp
    then show ?thesis ..
  qed
next
  assume "\<exists>x. sched_step s x = Some s'"
  then obtain x where x: "sched_step s x = Some s'" ..
  show "server_step s s'"
  proof (cases x)
    case (Arrive rq)
    with x show ?thesis by (auto intro: server_step.arrive)
  next
    case (Run i)
    with x show ?thesis
      by (auto intro!: server_step.thread run_step.run split: if_splits option.splits)
  qed
qed

lemma run_schedule_reachable:
  "reachable s \<Longrightarrow> run_schedule s xs = Some s' \<Longrightarrow> reachable s'"
proof (induction xs arbitrary: s)
  case Nil
  then show ?case by simp
next
  case (Cons x xs)
  from Cons.prems(2) obtain s1 where s1: "sched_step s x = Some s1"
    and rest: "run_schedule s1 xs = Some s'"
    by (auto split: option.splits)
  from s1 have "server_step s s1" by (auto simp: sched_step_iff)
  with Cons.prems(1) have "reachable s1" by (rule reachable.step)
  from Cons.IH [OF this rest] show ?case .
qed

lemma start_step_db: "snd (start_step rq d) = snd (handle_request rq d)"
proof (cases "is_create rq")
  case True
  then obtain a where r: "route (req_method rq) (path rq) = Inr (View_create_todo, a)"
    and m: "req_method rq \<noteq> OPTIONS"
    by (auto simp: is_create_def split: sum.splits prod.splits view.splits)
  with True show ?thesis
    by (simp add: start_step_def dispatch_def create_todo_split split: sum.split prod.split)
qed (simp add: start_step_def del: handle_request_db split: prod.split)

lemma phase_step_db_ok:
  "phase_step p d = Some (p', d') \<Longrightarrow> db_ok d \<Longrightarrow> db_ok d'"
proof (cases p)
  case (Pending rq)
  moreover assume "phase_step p d = Some (p', d')" and "db_ok d"
  ultimately show ?thesis
    using start_step_db [of rq d] dispatch_db_ok [of d rq] by simp
qed auto


lemma run_step_work: "run_step s s' \<Longrightarrow> work s' < work s"
proof (induction rule: run_step.induct)
  case (run i s p d)
  from run.hyps(2) have "remaining p < remaining (threads s ! i)"
    by (rule phase_step_remaining)
  with sum_list_map_list_update [OF run.hyps(1), of remaining p] show ?case
    by (simp add: work_def)
qed

lemma run_schedule_runs:
  "run_schedule s (map Run ns) = Some s' \<Longrightarrow> run_step\<^sup>*\<^sup>* s s'"
proof (induction ns arbitrary: s)
  case Nil
  then show ?case by simp
next
  case (Cons i ns)
  from Cons.prems obtain s1 where s1: "sched_step s (Run i) = Some s1"
    and rest: "run_schedule s1 (map Run ns) = Some s'"
    by (auto split: option.splits)
  from s1 have "run_step s s1"
    by (auto intro!: run_step.run split: if_splits option.splits)
  from this Cons.IH [OF rest] show ?case by (rule converse_rtranclp_into_rtranclp)
qed

lemma creates_body:
  assumes "creates k rq"
  obtains b t where "is_create rq" "request_json (rbody rq) = Inr b" "body_todo b = Some t" "todo_id t = k"
  using assms by (auto simp: creates_def split: sum.splits option.splits)

lemma session_reload_present:
  "has_todo_table d \<Longrightarrow> k \<in> set (keys (todo_rows d)) \<Longrightarrow> \<exists>t. session_reload k d = Inr t"
  by (auto simp: session_reload_def sql_select_id_def dom_map_of_conv_image_fst [symmetric])

lemma race_pending_step:
  assumes inv: "race_inv k s" and i: "i < length (threads s)" and ti: "threads s ! i = Pending rq"
  shows "race_inv k (s\<lparr>sdb := snd (start_step rq (sdb s)),
                      threads := (threads s)[i := fst (start_step rq (sdb s))]\<rparr>)"
proof -
  let ?xs = "threads s" and ?d = "sdb s"
  have mem: "?xs ! i \<in> set ?xs" using i by simp
  with inv ti have "creates k rq" by (force simp: race_inv_def)
  then obtain b t where ic: "is_create rq" and rj: "request_json (rbody rq) = Inr b"
    and bt: "body_todo b = Some t" and tk: "todo_id t = k"
    by (rule creates_body)
  from inv have ok: "db_ok ?d" and tbl: "has_todo_table ?d" by (simp_all add: race_inv_def db_ok_def)
  have cnt: "length (filter won (?xs[i := q])) = length (filter won ?xs) + (if won q then 1 else 0)" for q
    using length_filter_list_update [OF i, of won q] ti by simp
  have setu: "set (?xs[i := q]) \<subseteq> insert q (set ?xs)" for q
    by (rule set_update_subset_insert)
  show ?thesis
  proof (cases "k \<in> set (keys (todo_rows ?d))")
    case True
    with inv have one: "length (filter won ?xs) = 1" by (simp add: race_inv_def)
    from True tbl tk have "start_step rq ?d = (Done (finalize app_debug (cors (origin rq)) (Inr already_exist)), ?d)"
      by (simp add: start_step_def ic create_todo_commit_eq rj bt sql_insert_def row_of_todo_def)
    with inv one cnt [of "Done (finalize app_debug (cors (origin rq)) (Inr already_exist))"] setu True
    show ?thesis
      by (auto simp: race_inv_def already_exist_def dest!: subsetD [OF setu])
  next
    case False
    with inv have "length (filter won ?xs) \<noteq> 1" and "length (filter won ?xs) \<le> 1"
      by (simp_all add: race_inv_def)
    then have zero: "length (filter won ?xs) = 0" by linarith
    let ?d' = "?d\<lparr>todo_rows := todo_rows ?d @ [row_of_todo t]\<rparr>"
    from False tbl tk have st: "start_step rq ?d = (AwaitReload rq t, ?d')"
      by (simp add: start_step_def ic create_todo_commit_eq rj bt sql_insert_def row_of_todo_def)
    from ok False tk have "db_ok ?d'"
      by (auto simp: db_ok_def pk_inv_def has_todo_table_def row_of_todo_def)
    with st inv zero cnt [of "AwaitReload rq t"] tk show ?thesis
      by (auto simp: race_inv_def row_of_todo_def dest!: subsetD [OF setu])
  qed
qed

lemma race_reload_step:
  assumes inv: "race_inv k s" and i: "i < length (threads s)" and ti: "threads s ! i = AwaitReload rq t"
  shows "race_inv k (s\<lparr>threads := (threads s)[i := Done (finalize app_debug (cors (origin rq))
                                                         (create_todo_finish t (sdb s)))]\<rparr>)"
proof -
  let ?xs = "threads s" and ?d = "sdb s"
  have mem: "?xs ! i \<in> set ?xs" using i by simp
  with inv ti have tk: "todo_id t = k" by (force simp: race_inv_def)
  have "won (?xs ! i)" using ti by simp
  with mem have "?xs ! i \<in> set (filter won ?xs)" by simp
  then have pos: "0 < length (filter won ?xs)" by (rule length_pos_if_in_set)
  from inv have "length (filter won ?xs) \<le> 1" by (simp add: race_inv_def)
  with pos have one: "length (filter won ?xs) = 1" by linarith
  with inv have kin: "k \<in> set (keys (todo_rows ?d))" by (simp add: race_inv_def)
  from inv have tbl: "has_todo_table ?d" by (simp add: race_inv_def db_ok_def)
  obtain t' where "session_reload k ?d = Inr t'"
    using session_reload_present [OF tbl kin] by blast
  with tk have fin: "create_todo_finish t ?d = Inr (json_response (serialize t') 201)"
    by (simp add: create_todo_finish_def)
  let ?q = "Done (cors (origin rq) (json_response (serialize t') 201))"
  have q: "Done (finalize app_debug (cors (origin rq)) (create_todo_finish t ?d)) = ?q" by (simp add: fin)
  have "won ?q" by simp
  with length_filter_list_update [OF i, of won ?q] ti one
  have cnt: "length (filter won (?xs[i := ?q])) = 1" by simp
  have setu: "set (?xs[i := ?q]) \<subseteq> insert ?q (set ?xs)" by (rule set_update_subset_insert)
  from inv cnt kin show ?thesis
    unfolding q by (auto simp: race_inv_def dest!: subsetD [OF setu])
qed

lemma race_inv_step: "run_step s s' \<Longrightarrow> race_inv k s \<Longrightarrow> race_inv k s'"
proof (induction rule: run_step.induct)
  case (run i s p d)
  show ?case
  proof (cases "threads s ! i")
    case (Pending rq)
    with run.hyps(2) have "start_step rq (sdb s) = (p, d)" by simp
    with race_pending_step [OF run.prems run.hyps(1) Pending] show ?thesis by simp
  next
    case (AwaitReload rq t)
    with run.hyps(2) have "p = Done (finalize app_debug (cors (origin rq)) (create_todo_finish t (sdb s)))"
      and "d = sdb s" by auto
    with race_reload_step [OF run.prems run.hyps(1) AwaitReload] show ?thesis by simp
  next
    case (Done r)
    with run.hyps(2) show ?thesis by simp
  qed
qed

lemma race_inv_steps: "run_step\<^sup>*\<^sup>* s s' \<Longrightarrow> race_inv k s \<Longrightarrow> race_inv k s'"
  by (induction rule: rtranclp_induct) (auto intro: race_inv_step)

lemma run_steps_length: "run_step\<^sup>*\<^sup>* s s' \<Longrightarrow> length (threads s') = length (threads s)"
  by (induction rule: rtranclp_induct) (auto elim: run_stepE)

section \<open>Properties of the threaded server\<close>

text \<open>
  C12. In every state the threaded server can reach from start-up on a file with a
  unique key, whatever requests arrived and however their steps interleaved, the
  table exists and its primary key is unique.
\<close>

theorem reachable_db_ok: "reachable s \<Longrightarrow> db_ok (sdb s)"
proof (induction rule: reachable.induct)
  case (init f)
  then show ?case by (simp add: startup_db_ok)
next
  case (step s s')
  from step.hyps(2) step.IH show ?case
    by (auto elim!: server_step.cases run_stepE intro: phase_step_db_ok)
qed

theorem reachable_db_ok_witness:
  "reachable (the (run_schedule (boot empty_database)
     [Arrive (post_todo ''a'' ''x''), Arrive (delete_request ''a''), Run 0])) \<and>
   db_ok (sdb (the (run_schedule (boot empty_database)
     [Arrive (post_todo ''a'' ''x''), Arrive (delete_request ''a''), Run 0])))"
proof -
  have b: "reachable (boot empty_database)"
    by (simp add: boot_def reachable.init pk_inv_def empty_database_def)
  have "run_schedule (boot empty_database)
     [Arrive (post_todo ''a'' ''x''), Arrive (delete_request ''a''), Run 0] \<noteq> None"
    by code_simp
  then obtain s where s: "run_schedule (boot empty_database)
     [Arrive (post_todo ''a'' ''x''), Arrive (delete_request ''a''), Run 0] = Some s" by blast
  from run_schedule_reachable [OF b s] have "reachable s" .
  with reachable_db_ok [OF this] s show ?thesis by simp
qed

text \<open>
  A thread run alone takes at most two steps and answers exactly what the
  sequential request handler answers, with the same database: the split of
  \<^verbatim>\<open>create_todo\<close> at its commit loses nothing when no other thread intervenes.
\<close>

lemma solo_handle_request:
  "solo 2 (Pending rq) d = (Done (fst (handle_request rq d)), snd (handle_request rq d))"
proof (cases "is_create rq")
  case True
  then obtain a where r: "route (req_method rq) (path rq) = Inr (View_create_todo, a)"
    and m: "req_method rq \<noteq> OPTIONS"
    by (auto simp: is_create_def split: sum.splits prod.splits view.splits)
  have "handle_request rq d =
          (finalize app_debug (cors (origin rq)) (fst (create_todo (rbody rq) d)), snd (create_todo (rbody rq) d))"
    by (simp add: handle_request_def dispatch_def r m split: prod.split)
  moreover obtain x d' where c: "create_todo_commit (rbody rq) d = (x, d')"
    by (cases "create_todo_commit (rbody rq) d")
  ultimately show ?thesis using True
    by (cases x) (simp_all add: start_step_def create_todo_split numeral_2_eq_2)
next
  case False
  then show ?thesis
    by (simp add: start_step_def numeral_2_eq_2 del: handle_request_db split: prod.split)
qed

text \<open>
  Without new arrivals every interleaving of the threads is finite: each step
  consumes one of the at most two atomic steps a thread has left.
\<close>

lemma run_step_terminates: "wf {(s', s). run_step s s'}"
proof (rule wf_subset [OF wf_measure [of work]])
  show "{(s', s). run_step s s'} \<subseteq> measure work"
    by (auto dest: run_step_work)
qed

text \<open>
  Liveness: from any state of the server, the threads can be scheduled so that
  every request is answered; by \<open>run_step_terminates\<close> every schedule without new
  arrivals ends, and it
  ends only when every thread is done.
\<close>

lemma threads_complete: "\<exists>s'. run_step\<^sup>*\<^sup>* s s' \<and> list_all is_done (threads s')"
proof (induction "work s" arbitrary: s rule: less_induct)
  case less
  show ?case
  proof (cases "list_all is_done (threads s)")
    case True
    then show ?thesis by blast
  next
    case False
    then obtain i where i: "i < length (threads s)" and nd: "\<not> is_done (threads s ! i)"
      by (auto simp: list_all_length)
    from nd obtain p d where st: "phase_step (threads s ! i) (sdb s) = Some (p, d)"
      by (cases "phase_step (threads s ! i) (sdb s)") (auto simp: phase_step_None)
    let ?s1 = "s\<lparr>sdb := d, threads := (threads s)[i := p]\<rparr>"
    from i st have r: "run_step s ?s1" by (rule run_step.run)
    then have "work ?s1 < work s" by (rule run_step_work)
    then obtain s' where "run_step\<^sup>*\<^sup>* ?s1 s'" and "list_all is_done (threads s')"
      using less by blast
    with r show ?thesis by (blast intro: converse_rtranclp_into_rtranclp)
  qed
qed

lemma post_todo_start:
  assumes "has_todo_table d" and "k \<notin> set (keys (todo_rows d))"
  shows "start_step (post_todo k v) d =
           (AwaitReload (post_todo k v) \<lparr>todo_id = k, todo_value = v\<rparr>,
            d\<lparr>todo_rows := todo_rows d @ [(k, v)]\<rparr>)"
proof -
  have c: "is_create (post_todo k v)"
    by (simp add: is_create_def post_todo_def route_eq url_match_fst)
  have "sql_insert (row_of_todo \<lparr>todo_id = k, todo_value = v\<rparr>) d =
          Inr (d\<lparr>todo_rows := todo_rows d @ [row_of_todo \<lparr>todo_id = k, todo_value = v\<rparr>]\<rparr>)"
    using create_todo_insert_ok(1) [of d "\<lparr>todo_id = k, todo_value = v\<rparr>"] assms by simp
  with c show ?thesis
    by (simp add: start_step_def create_todo_commit_eq post_todo_def request_json_body body_todo_def
                  row_of_todo_def)
qed

lemma delete_request_start:
  assumes "has_todo_table d" and "k \<noteq> []" and "CHR ''/'' \<notin> set k"
  shows "start_step (delete_request k) d =
           (Done (cors None (jsonify (JStr ''Deleted''))), d\<lparr>todo_rows := drop_key k (todo_rows d)\<rparr>)"
proof -
  have r: "route DELETE (''/todo/'' @ k) = Inr (View_delete_todo, Some k)"
    using assms(2,3) by (rule route_delete_path)
  then have "\<not> is_create (delete_request k)" by (simp add: is_create_def delete_request_def)
  with r assms(1) show ?thesis
    by (simp add: start_step_def handle_request_def dispatch_def delete_request_def delete_todo_eq
                  sql_delete_id_def)
qed

lemma reload_after_delete:
  assumes "has_todo_table d" and "k \<notin> set (keys (todo_rows d))"
  shows "create_todo_finish \<lparr>todo_id = k, todo_value = v\<rparr> d = Inl ObjectDeletedError"
proof -
  have "map_of (todo_rows d) k = None" using assms(2) by (simp add: map_of_eq_None_iff)
  with assms(1) show ?thesis
    by (simp add: create_todo_finish_def session_reload_def sql_select_id_def)
qed

text \<open>
  C18. From every database with its table, a create of any fresh id \<open>k\<close> that a
  \<^verbatim>\<open>DELETE\<close> URL can name, with any value, can answer 500 although its row was
  committed: thread 0 posts \<open>k\<close> and commits, thread 1 deletes \<open>k\<close> between that
  commit and the reload of line 64, and the reload raises \<^verbatim>\<open>ObjectDeletedError\<close>,
  which the debug server answers with its traceback page (without the CORS header).
  The database ends as it began.
\<close>

theorem create_500_after_commit:
  assumes "db_ok d" and "k \<notin> set (keys (todo_rows d))" and "k \<noteq> []" and "CHR ''/'' \<notin> set k"
  shows "run_schedule \<lparr>sdb = d, threads = []\<rparr>
           [Arrive (post_todo k v), Arrive (delete_request k), Run 0] =
           Some \<lparr>sdb = d\<lparr>todo_rows := todo_rows d @ [(k, v)]\<rparr>,
                 threads = [AwaitReload (post_todo k v) \<lparr>todo_id = k, todo_value = v\<rparr>,
                            Pending (delete_request k)]\<rparr> \<and>
         run_schedule \<lparr>sdb = d, threads = []\<rparr>
           [Arrive (post_todo k v), Arrive (delete_request k), Run 0, Run 1, Run 0] =
           Some \<lparr>sdb = d, threads = [Done \<lparr>status = 500, payload = DebuggerPage, headers = []\<rparr>,
                                      Done (cors None (jsonify (JStr ''Deleted'')))]\<rparr>"
proof -
  have t: "has_todo_table d" using assms(1) by (simp add: db_ok_def)
  have t1: "has_todo_table (d\<lparr>todo_rows := todo_rows d @ [(k, v)]\<rparr>)"
    using t by (simp add: has_todo_table_def)
  have dk: "drop_key k (todo_rows d @ [(k, v)]) = todo_rows d" "drop_key k (todo_rows d) = todo_rows d"
    using assms(2) by (simp_all add: drop_key_absent)
  show ?thesis
    using post_todo_start [OF t assms(2), of v] delete_request_start [OF t1 assms(3,4)]
          reload_after_delete [OF t assms(2), of v]
    by (simp add: dk app_debug_def)
qed

theorem create_500_after_commit_witness:
  "run_schedule \<lparr>sdb = startup empty_database, threads = []\<rparr>
     [Arrive (post_todo ''a'' ''x''), Arrive (delete_request ''a''), Run 0, Run 1, Run 0] =
     Some \<lparr>sdb = startup empty_database,
           threads = [Done \<lparr>status = 500, payload = DebuggerPage, headers = []\<rparr>,
                      Done (cors None (jsonify (JStr ''Deleted'')))]\<rparr>"
proof -
  have h1: "db_ok (startup empty_database)" by (simp add: startup_db_ok pk_inv_def empty_database_def)
  have h2: "''a'' \<notin> set (keys (todo_rows (startup empty_database)))"
    by (simp add: startup_def create_all_def empty_database_def has_todo_table_def)
  have h3: "''a'' \<noteq> []" and h4: "CHR ''/'' \<notin> set ''a''" by simp_all
  show ?thesis using create_500_after_commit [OF h1 h2 h3 h4, of "''x''"] by simp
qed

text \<open>
  C19. From every database with its table, a create of any fresh id \<open>k\<close> that a
  \<^verbatim>\<open>DELETE\<close> URL can name can answer 201 with a value it did not post: thread 0
  posts \<open>(k, v)\<close> and commits, thread 1 deletes \<open>k\<close>, thread 2 posts \<open>(k, w)\<close> and
  finishes, and thread 0's reload reads \<open>(k, w)\<close>. Both creates of \<open>k\<close> answer 201
  with \<open>w\<close>, whatever \<open>v\<close> is.
\<close>

theorem create_reports_foreign_value:
  assumes "db_ok d" and "k \<notin> set (keys (todo_rows d))" and "k \<noteq> []" and "CHR ''/'' \<notin> set k"
  shows "run_schedule \<lparr>sdb = d, threads = []\<rparr>
           [Arrive (post_todo k v), Arrive (delete_request k), Arrive (post_todo k w),
            Run 0, Run 1, Run 2, Run 2, Run 0] =
           Some \<lparr>sdb = d\<lparr>todo_rows := todo_rows d @ [(k, w)]\<rparr>,
                 threads = [Done (cors None (json_response (serialize \<lparr>todo_id = k, todo_value = w\<rparr>) 201)),
                            Done (cors None (jsonify (JStr ''Deleted''))),
                            Done (cors None (json_response (serialize \<lparr>todo_id = k, todo_value = w\<rparr>) 201))]\<rparr>"
proof -
  have t: "has_todo_table d" using assms(1) by (simp add: db_ok_def)
  have t1: "has_todo_table (d\<lparr>todo_rows := todo_rows d @ [(k, v)]\<rparr>)"
    using t by (simp add: has_todo_table_def)
  have dk: "drop_key k (todo_rows d @ [(k, v)]) = todo_rows d" "drop_key k (todo_rows d) = todo_rows d"
    using assms(2) by (simp_all add: drop_key_absent)
  have fin: "create_todo_finish \<lparr>todo_id = k, todo_value = u\<rparr> (d\<lparr>todo_rows := todo_rows d @ [(k, w)]\<rparr>) =
               Inr (json_response (serialize \<lparr>todo_id = k, todo_value = w\<rparr>) 201)" for u
  proof -
    have "map_of (todo_rows d) k = None" using assms(2) by (simp add: map_of_eq_None_iff)
    then have "map_of (todo_rows d @ [(k, w)]) k = Some w" by (simp add: map_add_def)
    with t show ?thesis
      by (simp add: create_todo_finish_def session_reload_def sql_select_id_def has_todo_table_def
                    todo_of_row_def)
  qed
  show ?thesis
    using post_todo_start [OF t assms(2), of v] post_todo_start [OF t assms(2), of w]
          delete_request_start [OF t1 assms(3,4)]
    by (simp add: dk fin post_todo_def)
qed

theorem create_reports_foreign_value_witness:
  "run_schedule \<lparr>sdb = startup empty_database, threads = []\<rparr>
     [Arrive (post_todo ''a'' ''x''), Arrive (delete_request ''a''), Arrive (post_todo ''a'' ''y''),
      Run 0, Run 1, Run 2, Run 2, Run 0] =
     Some \<lparr>sdb = \<lparr>schema = [''todo'', ''ix_todo_id''], todo_rows = [(''a'', ''y'')]\<rparr>,
           threads = [Done (cors None (json_response (JObj [(''id'', JStr ''a''), (''value'', JStr ''y'')]) 201)),
                      Done (cors None (jsonify (JStr ''Deleted''))),
                      Done (cors None (json_response (JObj [(''id'', JStr ''a''), (''value'', JStr ''y'')]) 201))]\<rparr>"
proof -
  have h1: "db_ok (startup empty_database)" by (simp add: startup_db_ok pk_inv_def empty_database_def)
  have h2: "''a'' \<notin> set (keys (todo_rows (startup empty_database)))"
    by (simp add: startup_def create_all_def empty_database_def has_todo_table_def)
  have h3: "''a'' \<noteq> []" and h4: "CHR ''/'' \<notin> set ''a''" by simp_all
  show ?thesis
    using create_reports_foreign_value [OF h1 h2 h3 h4, of "''x''" "''y''"]
    by (simp add: startup_def create_all_def empty_database_def has_todo_table_def serialize_def
                  base_metadata_def)
qed

text \<open>
  C7. Any number of concurrent creates of one id that the table does not hold,
  interleaved in any way and run to completion: exactly one answers 201 and every
  other answers 409.
\<close>

theorem racing_creates:
  assumes "db_ok d" and "k \<notin> set (keys (todo_rows d))"
    and "rqs \<noteq> []" and "\<forall>rq \<in> set rqs. creates k rq"
    and "run_step\<^sup>*\<^sup>* \<lparr>sdb = d, threads = map Pending rqs\<rparr> s" and "list_all is_done (threads s)"
  shows "count_list (map phase_status (threads s)) 201 = 1 \<and>
         count_list (map phase_status (threads s)) 409 = length rqs - 1"
proof -
  have "race_inv k \<lparr>sdb = d, threads = map Pending rqs\<rparr>"
    using assms(1,2,4) by (auto simp: race_inv_def)
  with assms(5) have inv: "race_inv k s" by (rule race_inv_steps)
  from run_steps_length [OF assms(5)] have len: "length (threads s) = length rqs" by simp
  have st: "phase_status p = 201 \<or> phase_status p = 409" and w: "won p \<longleftrightarrow> phase_status p = 201"
    if "p \<in> set (threads s)" for p
  proof -
    from that assms(6) have "is_done p" by (simp add: list_all_iff)
    then obtain r where p: "p = Done r" by (cases p) auto
    with that inv show "phase_status p = 201 \<or> phase_status p = 409"
      by (force simp: race_inv_def)
    from p show "won p \<longleftrightarrow> phase_status p = 201" by simp
  qed
  have c201: "count_list (map phase_status (threads s)) 201 = length (filter won (threads s))"
    using w by (simp add: count_list_map_filter cong: filter_cong)
  have part: "count_list (map phase_status (threads s)) 201 + count_list (map phase_status (threads s)) 409
                = length (threads s)"
    using st by (intro count_list_two_values) auto
  have "length (filter won (threads s)) = 1"
  proof (rule ccontr)
    assume "length (filter won (threads s)) \<noteq> 1"
    moreover from inv have "length (filter won (threads s)) \<le> 1" by (simp add: race_inv_def)
    ultimately have "length (filter won (threads s)) = 0" by linarith
    from inv \<open>length (filter won (threads s)) \<noteq> 1\<close>
    have no409: "\<forall>p \<in> set (threads s). phase_status p \<noteq> 409"
      by (auto simp: race_inv_def)
    then have "count_list (map phase_status (threads s)) 409 = 0"
      by (auto simp: count_list_0_iff)
    with part c201 \<open>length (filter won (threads s)) = 0\<close> len assms(3) show False by simp
  qed
  with c201 part len show ?thesis by simp
qed

theorem racing_creates_witness:
  "db_ok (startup empty_database) \<and> ''a'' \<notin> set (keys (todo_rows (startup empty_database))) \<and>
   [post_todo ''a'' ''x'', post_todo ''a'' ''y''] \<noteq> [] \<and>
   creates ''a'' (post_todo ''a'' ''x'') \<and> creates ''a'' (post_todo ''a'' ''y'') \<and>
   run_step\<^sup>*\<^sup>* \<lparr>sdb = startup empty_database,
                threads = map Pending [post_todo ''a'' ''x'', post_todo ''a'' ''y'']\<rparr>
     \<lparr>sdb = \<lparr>schema = [''todo'', ''ix_todo_id''], todo_rows = [(''a'', ''x'')]\<rparr>,
      threads = [Done (cors None (json_response (JObj [(''id'', JStr ''a''), (''value'', JStr ''x'')]) 201)),
                 Done (cors None already_exist)]\<rparr> \<and>
   list_all is_done [Done (cors None (json_response (JObj [(''id'', JStr ''a''), (''value'', JStr ''x'')]) 201)),
                     Done (cors None already_exist)] \<and>
   count_list (map phase_status
     [Done (cors None (json_response (JObj [(''id'', JStr ''a''), (''value'', JStr ''x'')]) 201)),
      Done (cors None already_exist)]) 201 = 1 \<and>
   count_list (map phase_status
     [Done (cors None (json_response (JObj [(''id'', JStr ''a''), (''value'', JStr ''x'')]) 201)),
      Done (cors None already_exist)]) 409 = 1"
proof -
  have h1: "db_ok (startup empty_database)"
    by (simp add: startup_db_ok pk_inv_def empty_database_def)
  have h2: "''a'' \<notin> set (keys (todo_rows (startup empty_database)))"
    by (simp add: startup_def create_all_def empty_database_def has_todo_table_def)
  have h3: "[post_todo ''a'' ''x'', post_todo ''a'' ''y''] \<noteq> []" by simp
  have h4: "\<forall>rq \<in> set [post_todo ''a'' ''x'', post_todo ''a'' ''y'']. creates ''a'' rq"
    by (simp add: creates_def is_create_def post_todo_def route_eq url_match_fst body_todo_def)
  have "run_schedule \<lparr>sdb = startup empty_database,
                threads = map Pending [post_todo ''a'' ''x'', post_todo ''a'' ''y'']\<rparr> (map Run [0, 1, 0]) =
     Some \<lparr>sdb = \<lparr>schema = [''todo'', ''ix_todo_id''], todo_rows = [(''a'', ''x'')]\<rparr>,
      threads = [Done (cors None (json_response (JObj [(''id'', JStr ''a''), (''value'', JStr ''x'')]) 201)),
                 Done (cors None already_exist)]\<rparr>"
    by code_simp
  then have h5: "run_step\<^sup>*\<^sup>* \<lparr>sdb = startup empty_database,
                threads = map Pending [post_todo ''a'' ''x'', post_todo ''a'' ''y'']\<rparr>
     \<lparr>sdb = \<lparr>schema = [''todo'', ''ix_todo_id''], todo_rows = [(''a'', ''x'')]\<rparr>,
      threads = [Done (cors None (json_response (JObj [(''id'', JStr ''a''), (''value'', JStr ''x'')]) 201)),
                 Done (cors None already_exist)]\<rparr>"
    by (rule run_schedule_runs)
  have h6: "list_all is_done (threads
     \<lparr>sdb = \<lparr>schema = [''todo'', ''ix_todo_id''], todo_rows = [(''a'', ''x'')]\<rparr>,
      threads = [Done (cors None (json_response (JObj [(''id'', JStr ''a''), (''value'', JStr ''x'')]) 201)),
                 Done (cors None already_exist)]\<rparr>)" by simp
  from racing_creates [OF h1 h2 h3 h4 h5 h6] h1 h2 h3 h4 h5 h6 show ?thesis by simp
qed

end
