(* ===== verification/Serializability.thy ===== *)
theory Serializability
  imports Server "HOL-Library.Multiset"
begin

text \<open>
  What the threaded server guarantees. There is one order of the requests that have
  taken their database step, the order in which they took it, such that
  \<^item> the database is the one the sequential server \<open>serve\<close> leaves after those
    requests in that order (serializability; once every thread is done the order is a
    permutation of all the requests that arrived), and
  \<^item> every request other than a create is answered exactly as the sequential server
    answers it at its place in that order (linearizability of the requests that touch
    the database in one step).
  Creates are the exception: their answer is computed from a reload after the
  commit, and the claims on \<open>create_todo_finish\<close> in \<open>Server\<close> show that it can
  differ from the sequential one.

  The proof carries, next to the threads, the requests in order of arrival and the
  commit order as ghost state (\<open>lin_inv\<close>), in the manner of the auxiliary variables
  of Owicki--Gries proofs.
\<close>

section \<open>Ghost state of a schedule\<close>

text \<open>The requests a schedule lets arrive, in order.\<close>

fun arrivals :: "sched list \<Rightarrow> request list" where
  "arrivals [] = []"
| "arrivals (Arrive rq # xs) = rq # arrivals xs"
| "arrivals (Run i # xs) = arrivals xs"

text \<open>A thread that has not taken its first step.\<close>

fun is_pending :: "phase \<Rightarrow> bool" where
  "is_pending (Pending rq) = True"
| "is_pending _ = False"

text \<open>
  A thread belongs to the request that created it: a pending one carries it, one waiting
  for its reload carries it and it is a create.
\<close>

fun thread_req :: "phase \<Rightarrow> request \<Rightarrow> bool" where
  "thread_req (Pending r) rq = (r = rq)"
| "thread_req (AwaitReload r t) rq = (r = rq \<and> is_create rq)"
| "thread_req (Done x) rq = True"

text \<open>The database the sequential server leaves after the requests of \<open>ord\<close>, in that order.\<close>

definition serial_db :: "database \<Rightarrow> request list \<Rightarrow> nat list \<Rightarrow> database" where
  "serial_db d0 rqs ord = snd (serve d0 (map ((!) rqs) ord))"

text \<open>
  The invariant of a schedule with commit order \<open>ord\<close>: the threads belong to the
  arrived requests, \<open>ord\<close> lists each started thread once, the database is the serial
  one, and every started request other than a create holds the serial answer.
\<close>

definition lin_inv :: "database \<Rightarrow> request list \<Rightarrow> nat list \<Rightarrow> server \<Rightarrow> bool" where
  "lin_inv d0 rqs ord s \<longleftrightarrow>
     list_all2 thread_req (threads s) rqs \<and> distinct ord \<and>
     set ord = {i. i < length rqs \<and> \<not> is_pending (threads s ! i)} \<and>
     sdb s = serial_db d0 rqs ord \<and>
     (\<forall>k < length ord. \<not> is_create (rqs ! (ord ! k)) \<longrightarrow>
        threads s ! (ord ! k) =
          Done (fst (handle_request (rqs ! (ord ! k)) (serial_db d0 rqs (take k ord)))))"

section \<open>Lemmas\<close>

lemma start_step_not_pending: "\<not> is_pending (fst (start_step rq d))"
  by (auto simp: start_step_def split: prod.splits sum.splits)

lemma done_not_pending: "is_done p \<Longrightarrow> \<not> is_pending p"
  by (cases p) simp_all

lemma start_step_other:
  "\<not> is_create rq \<Longrightarrow> start_step rq d = (Done (fst (handle_request rq d)), snd (handle_request rq d))"
  by (simp add: start_step_def del: handle_request_db split: prod.split)

lemma start_step_await:
  "fst (start_step rq d) = AwaitReload r t \<Longrightarrow> r = rq \<and> is_create rq"
  by (auto simp: start_step_def split: if_splits prod.splits sum.splits)

lemma serial_db_snoc:
  "serial_db d0 rqs (ord @ [i]) = snd (handle_request (rqs ! i) (serial_db d0 rqs ord))"
  by (simp add: serial_db_def serve_snoc del: handle_request_db)

lemma serial_db_append_req:
  "\<forall>j \<in> set ord. j < length rqs \<Longrightarrow> serial_db d0 (rqs @ rs) ord = serial_db d0 rqs ord"
proof -
  assume "\<forall>j \<in> set ord. j < length rqs"
  then have m: "map ((!) (rqs @ rs)) ord = map ((!) rqs) ord" by (simp add: nth_append)
  show ?thesis unfolding serial_db_def by (simp only: m)
qed

lemma lin_inv_arrive:
  assumes "lin_inv d0 rqs ord s"
  shows "lin_inv d0 (rqs @ [rq]) ord (s\<lparr>threads := threads s @ [Pending rq]\<rparr>)"
proof -
  let ?ts = "threads s @ [Pending rq]" and ?rs = "rqs @ [rq]"
  from assms have all: "list_all2 thread_req (threads s) rqs" and dist: "distinct ord"
    and so: "set ord = {i. i < length rqs \<and> \<not> is_pending (threads s ! i)}"
    and db: "sdb s = serial_db d0 rqs ord"
    and rsp: "\<forall>k < length ord. \<not> is_create (rqs ! (ord ! k)) \<longrightarrow>
        threads s ! (ord ! k) = Done (fst (handle_request (rqs ! (ord ! k)) (serial_db d0 rqs (take k ord))))"
    by (simp_all add: lin_inv_def)
  have l: "length (threads s) = length rqs" using all by (rule list_all2_lengthD)
  have lt: "\<forall>j \<in> set ord. j < length rqs" using so by auto
  have tk: "\<forall>j \<in> set (take k ord). j < length rqs" for k using lt by (auto dest: in_set_takeD)
  have a1: "list_all2 thread_req ?ts ?rs" using all by (intro list_all2_appendI) simp_all
  have "{i. i < length ?rs \<and> \<not> is_pending (?ts ! i)} =
        {i. i < length rqs \<and> \<not> is_pending (threads s ! i)}"
  proof (intro Collect_cong)
    fix i
    show "(i < length ?rs \<and> \<not> is_pending (?ts ! i)) = (i < length rqs \<and> \<not> is_pending (threads s ! i))"
    proof (cases "i = length rqs")
      case False
      then show ?thesis using l by (auto simp: nth_append)
    qed (simp add: l [symmetric])
  qed
  with so have a2: "set ord = {i. i < length ?rs \<and> \<not> is_pending (?ts ! i)}" by simp
  have a3: "sdb s = serial_db d0 ?rs ord" using db serial_db_append_req [OF lt] by simp
  have a4: "\<forall>k < length ord. \<not> is_create (?rs ! (ord ! k)) \<longrightarrow>
        ?ts ! (ord ! k) = Done (fst (handle_request (?rs ! (ord ! k)) (serial_db d0 ?rs (take k ord))))"
  proof (intro allI impI)
    fix k assume k: "k < length ord" and nc: "\<not> is_create (?rs ! (ord ! k))"
    have o: "ord ! k < length rqs" using lt k by simp
    then have e1: "?rs ! (ord ! k) = rqs ! (ord ! k)" and e2: "?ts ! (ord ! k) = threads s ! (ord ! k)"
      using l by (simp_all add: nth_append)
    have e3: "serial_db d0 ?rs (take k ord) = serial_db d0 rqs (take k ord)"
      using serial_db_append_req [OF tk] by simp
    show "?ts ! (ord ! k) = Done (fst (handle_request (?rs ! (ord ! k)) (serial_db d0 ?rs (take k ord))))"
      using rsp k nc unfolding e1 e2 e3 by blast
  qed
  from a1 dist a2 a3 a4 show ?thesis by (simp add: lin_inv_def)
qed

lemma thread_req_start: "thread_req (fst (start_step rq d)) rq"
proof (cases "fst (start_step rq d)")
  case (Pending r)
  with start_step_not_pending [of rq d] show ?thesis by simp
next
  case (AwaitReload r t)
  with start_step_await [OF this] show ?thesis by simp
qed simp

lemma set_update_started:
  assumes "i < length ts" and "\<not> is_pending p"
  shows "{j. j < length ts \<and> \<not> is_pending (ts[i := p] ! j)} =
         insert i {j. j < length ts \<and> \<not> is_pending (ts ! j)}"
  using assms by (auto simp: nth_list_update)

lemma lin_inv_pending:
  assumes inv: "lin_inv d0 rqs ord s" and i: "i < length (threads s)"
    and ti: "threads s ! i = Pending r"
  shows "lin_inv d0 rqs (ord @ [i])
           (s\<lparr>sdb := snd (start_step r (sdb s)), threads := (threads s)[i := fst (start_step r (sdb s))]\<rparr>)"
proof -
  let ?p = "fst (start_step r (sdb s))" and ?ts = "(threads s)[i := fst (start_step r (sdb s))]"
  from inv have all: "list_all2 thread_req (threads s) rqs" and dist: "distinct ord"
    and so: "set ord = {j. j < length rqs \<and> \<not> is_pending (threads s ! j)}"
    and db: "sdb s = serial_db d0 rqs ord"
    and rsp: "\<forall>k < length ord. \<not> is_create (rqs ! (ord ! k)) \<longrightarrow>
        threads s ! (ord ! k) = Done (fst (handle_request (rqs ! (ord ! k)) (serial_db d0 rqs (take k ord))))"
    by (simp_all add: lin_inv_def)
  have l: "length (threads s) = length rqs" using all by (rule list_all2_lengthD)
  have r: "r = rqs ! i" using list_all2_nthD [OF all i] ti by simp
  have np: "\<not> is_pending ?p" by (rule start_step_not_pending)
  have notin: "i \<notin> set ord" using so ti by simp
  have a1: "list_all2 thread_req ?ts rqs"
    using all thread_req_start [of r "sdb s"] r
    by (metis list_all2_update_cong list_update_id)
  have a2: "distinct (ord @ [i])" using dist notin by simp
  have a3: "set (ord @ [i]) = {j. j < length rqs \<and> \<not> is_pending (?ts ! j)}"
    using set_update_started [OF i np] so l by simp
  have a4: "snd (start_step r (sdb s)) = serial_db d0 rqs (ord @ [i])"
    by (simp add: serial_db_snoc start_step_db db r del: handle_request_db)
  have a5: "\<forall>k < length (ord @ [i]). \<not> is_create (rqs ! ((ord @ [i]) ! k)) \<longrightarrow>
        ?ts ! ((ord @ [i]) ! k) =
          Done (fst (handle_request (rqs ! ((ord @ [i]) ! k)) (serial_db d0 rqs (take k (ord @ [i])))))"
  proof (intro allI impI)
    fix k assume k: "k < length (ord @ [i])" and nc: "\<not> is_create (rqs ! ((ord @ [i]) ! k))"
    show "?ts ! ((ord @ [i]) ! k) =
          Done (fst (handle_request (rqs ! ((ord @ [i]) ! k)) (serial_db d0 rqs (take k (ord @ [i])))))"
    proof (cases "k < length ord")
      case True
      then have ne: "ord ! k \<noteq> i" using notin nth_mem by metis
      from True have e: "(ord @ [i]) ! k = ord ! k" "take k (ord @ [i]) = take k ord"
        by (simp_all add: nth_append)
      from rsp True nc ne show ?thesis unfolding e by simp
    next
      case False
      with k have kk: "k = length ord" by simp
      then have e: "(ord @ [i]) ! k = i" "take k (ord @ [i]) = ord" by simp_all
      from nc r have "\<not> is_create r" unfolding e by simp
      then show ?thesis unfolding e using i db r
        by (simp add: start_step_other del: handle_request_db)
    qed
  qed
  from a1 a2 a3 a4 a5 show ?thesis by (simp add: lin_inv_def)
qed

lemma lin_inv_reload:
  assumes inv: "lin_inv d0 rqs ord s" and i: "i < length (threads s)"
    and ti: "threads s ! i = AwaitReload r t"
  shows "lin_inv d0 rqs ord (s\<lparr>threads := (threads s)[i := Done x]\<rparr>)"
proof -
  let ?ts = "(threads s)[i := Done x]"
  from inv have all: "list_all2 thread_req (threads s) rqs" and dist: "distinct ord"
    and so: "set ord = {j. j < length rqs \<and> \<not> is_pending (threads s ! j)}"
    and db: "sdb s = serial_db d0 rqs ord"
    and rsp: "\<forall>k < length ord. \<not> is_create (rqs ! (ord ! k)) \<longrightarrow>
        threads s ! (ord ! k) = Done (fst (handle_request (rqs ! (ord ! k)) (serial_db d0 rqs (take k ord))))"
    by (simp_all add: lin_inv_def)
  have l: "length (threads s) = length rqs" using all by (rule list_all2_lengthD)
  have cr: "is_create (rqs ! i)" using list_all2_nthD [OF all i] ti by simp
  have a1: "list_all2 thread_req ?ts rqs"
    using all by (metis list_all2_update_cong list_update_id thread_req.simps(3))
  have a3: "set ord = {j. j < length rqs \<and> \<not> is_pending (?ts ! j)}"
  proof -
    have "i \<in> {j. j < length rqs \<and> \<not> is_pending (threads s ! j)}" using i l ti by simp
    then show ?thesis using set_update_started [OF i, of "Done x"] so l by (simp add: insert_absorb)
  qed
  have a5: "\<forall>k < length ord. \<not> is_create (rqs ! (ord ! k)) \<longrightarrow>
        ?ts ! (ord ! k) = Done (fst (handle_request (rqs ! (ord ! k)) (serial_db d0 rqs (take k ord))))"
  proof (intro allI impI)
    fix k assume k: "k < length ord" and nc: "\<not> is_create (rqs ! (ord ! k))"
    with cr have "ord ! k \<noteq> i" by auto
    with rsp k nc show "?ts ! (ord ! k) = Done (fst (handle_request (rqs ! (ord ! k)) (serial_db d0 rqs (take k ord))))"
      by simp
  qed
  from a1 dist a3 db a5 show ?thesis by (simp add: lin_inv_def)
qed

lemma lin_inv_sched:
  assumes "lin_inv d0 rqs ord s" and "sched_step s x = Some s'"
  shows "\<exists>ord'. lin_inv d0 (rqs @ arrivals [x]) ord' s'"
proof (cases x)
  case (Arrive rq)
  with assms show ?thesis by (auto intro!: exI [of _ ord] lin_inv_arrive)
next
  case (Run i)
  from assms(2) Run obtain p d where i: "i < length (threads s)"
    and ph: "phase_step (threads s ! i) (sdb s) = Some (p, d)"
    and s': "s' = s\<lparr>sdb := d, threads := (threads s)[i := p]\<rparr>"
    by (auto split: if_splits option.splits)
  show ?thesis
  proof (cases "threads s ! i")
    case (Pending r)
    with ph have "p = fst (start_step r (sdb s))" "d = snd (start_step r (sdb s))" by auto
    with lin_inv_pending [OF assms(1) i Pending] s' Run show ?thesis by auto
  next
    case (AwaitReload r t)
    with ph have "p = Done (finalize app_debug (cors (origin r)) (create_todo_finish t (sdb s)))"
      and "d = sdb s" by auto
    with lin_inv_reload [OF assms(1) i AwaitReload] s' Run show ?thesis by auto
  next
    case (Done r)
    with ph show ?thesis by simp
  qed
qed

lemma lin_inv_schedule:
  "lin_inv d0 rqs ord s \<Longrightarrow> run_schedule s xs = Some s' \<Longrightarrow>
     \<exists>ord'. lin_inv d0 (rqs @ arrivals xs) ord' s'"
proof (induction xs arbitrary: s rqs ord)
  case Nil
  then show ?case by auto
next
  case (Cons x xs)
  from Cons.prems(2) obtain s1 where s1: "sched_step s x = Some s1"
    and rest: "run_schedule s1 xs = Some s'"
    by (auto split: option.splits)
  from lin_inv_sched [OF Cons.prems(1) s1] obtain ord1 where "lin_inv d0 (rqs @ arrivals [x]) ord1 s1" ..
  from Cons.IH [OF this rest] show ?case by (cases x) simp_all
qed

lemma schedule_order:
  assumes "run_schedule (boot f) sch = Some s"
  shows "\<exists>ord. lin_inv (startup f) (arrivals sch) ord s"
proof -
  have "lin_inv (startup f) [] [] (boot f)"
    by (simp add: lin_inv_def boot_def serial_db_def)
  from lin_inv_schedule [OF this assms] show ?thesis by simp
qed

text \<open>The commit order of a schedule run from start-up, as far as the database is concerned.\<close>

lemma schedule_log:
  assumes "run_schedule (boot f) sch = Some s"
  shows "\<exists>ord. distinct ord \<and> set ord \<subseteq> {..<length (arrivals sch)} \<and>
           sdb s = snd (serve (startup f) (map ((!) (arrivals sch)) ord)) \<and>
           (list_all is_done (threads s) \<longrightarrow> set ord = {..<length (arrivals sch)})"
proof -
  from schedule_order [OF assms] obtain ord where inv: "lin_inv (startup f) (arrivals sch) ord s" ..
  then have so: "set ord = {i. i < length (arrivals sch) \<and> \<not> is_pending (threads s ! i)}"
    and l: "length (threads s) = length (arrivals sch)"
    by (auto simp: lin_inv_def dest: list_all2_lengthD)
  have "list_all is_done (threads s) \<Longrightarrow> set ord = {..<length (arrivals sch)}"
    using so l by (auto simp: list_all_length done_not_pending)
  with inv so show ?thesis
    by (intro exI [of _ ord]) (auto simp: lin_inv_def serial_db_def)
qed

lemma mset_nth_upt: "mset xs = image_mset ((!) xs) (mset [0..<length xs])"
  by (metis map_nth mset_map)

lemma mset_map_nth_subset:
  assumes "distinct ord" and "set ord \<subseteq> {..<length xs}"
  shows "mset (map ((!) xs) ord) \<subseteq># mset xs"
proof -
  have "mset ord = mset_set (set ord)" using assms(1) by (simp add: mset_set_set)
  also have "\<dots> \<subseteq># mset_set {..<length xs}" using assms(2) by (intro subset_imp_msubset_mset_set) simp_all
  also have "\<dots> = mset [0..<length xs]" by (simp add: lessThan_atLeast0 mset_upt)
  finally have "image_mset ((!) xs) (mset ord) \<subseteq># image_mset ((!) xs) (mset [0..<length xs])"
    by (rule image_mset_subseteq_mono)
  then show ?thesis by (simp only: mset_map mset_nth_upt [symmetric])
qed

lemma mset_map_nth_perm:
  assumes "distinct ord" and "set ord = {..<length xs}"
  shows "mset (map ((!) xs) ord) = mset xs"
proof -
  have "mset ord = mset [0..<length xs]"
    using assms by (simp add: mset_set_set [symmetric] lessThan_atLeast0)
  then have "image_mset ((!) xs) (mset ord) = image_mset ((!) xs) (mset [0..<length xs])" by simp
  then show ?thesis by (simp only: mset_map mset_nth_upt [symmetric])
qed

text \<open>A create and a delete of the same id, the delete landing between the commit and the reload.\<close>

lemma create_delete_schedule:
  "run_schedule (boot empty_database)
     [Arrive (post_todo ''a'' ''x''), Arrive (delete_request ''a''), Run 0, Run 1, Run 0] =
     Some \<lparr>sdb = \<lparr>schema = [''todo'', ''ix_todo_id''], todo_rows = []\<rparr>,
            threads = [Done \<lparr>status = 500, payload = DebuggerPage, headers = []\<rparr>,
                       Done (cors None (jsonify (JStr ''Deleted'')))]\<rparr>"
  by code_simp

section \<open>Serializability and linearizability\<close>

text \<open>
  C8. Serializability of the threaded server: after any schedule of arrivals and
  thread steps from start-up, the database is the one the sequential server leaves
  after some of the arrived requests (those that committed), in some order; when
  every thread is done, after all of them, each exactly once.
\<close>

theorem schedule_serializable:
  assumes "run_schedule (boot f) sch = Some s"
  shows "\<exists>log. mset log \<subseteq># mset (arrivals sch) \<and> sdb s = snd (serve (startup f) log) \<and>
           (list_all is_done (threads s) \<longrightarrow> mset log = mset (arrivals sch))"
proof -
  from schedule_log [OF assms] obtain ord where dist: "distinct ord"
    and sub: "set ord \<subseteq> {..<length (arrivals sch)}"
    and db: "sdb s = snd (serve (startup f) (map ((!) (arrivals sch)) ord))"
    and all: "list_all is_done (threads s) \<longrightarrow> set ord = {..<length (arrivals sch)}"
    by blast
  with mset_map_nth_subset [OF dist sub] mset_map_nth_perm [OF dist] show ?thesis
    by (intro exI [of _ "map ((!) (arrivals sch)) ord"]) auto
qed

theorem schedule_serializable_witness:
  "run_schedule (boot empty_database)
     [Arrive (post_todo ''a'' ''x''), Arrive (delete_request ''a''), Run 0, Run 1, Run 0] =
     Some \<lparr>sdb = \<lparr>schema = [''todo'', ''ix_todo_id''], todo_rows = []\<rparr>,
            threads = [Done \<lparr>status = 500, payload = DebuggerPage, headers = []\<rparr>,
                       Done (cors None (jsonify (JStr ''Deleted'')))]\<rparr> \<and>
   (\<exists>log. mset log = mset [post_todo ''a'' ''x'', delete_request ''a''] \<and>
          todo_rows (snd (serve (startup empty_database) log)) = [])"
proof -
  note r = create_delete_schedule
  from schedule_serializable [OF r] obtain log where
    db: "\<lparr>schema = [''todo'', ''ix_todo_id''], todo_rows = []\<rparr> = snd (serve (startup empty_database) log)"
    and all: "list_all is_done [Done \<lparr>status = 500, payload = DebuggerPage, headers = []\<rparr>,
                                Done (cors None (jsonify (JStr ''Deleted'')))] \<longrightarrow>
              mset log = mset (arrivals [Arrive (post_todo ''a'' ''x''), Arrive (delete_request ''a''),
                                         Run 0, Run 1, Run 0])"
    by auto
  from all have "mset log = mset [post_todo ''a'' ''x'', delete_request ''a'']" by simp
  moreover from db have "todo_rows (snd (serve (startup empty_database) log)) = []"
    by (metis database.select_convs(2))
  ultimately show ?thesis using r by blast
qed

text \<open>
  C9. Linearizability of the requests answered in one step: after any schedule from
  start-up there is an order of the started requests such that the database is the
  one the sequential server leaves after them in that order, and every started
  request that is not a create has been answered exactly what the sequential server
  answers it after the requests before it in that order.
\<close>

theorem schedule_linearizable:
  assumes "run_schedule (boot f) sch = Some s"
  shows "\<exists>ord. distinct ord \<and>
           set ord = {i. i < length (arrivals sch) \<and> \<not> is_pending (threads s ! i)} \<and>
           sdb s = snd (serve (startup f) (map ((!) (arrivals sch)) ord)) \<and>
           (\<forall>k < length ord. \<not> is_create (arrivals sch ! (ord ! k)) \<longrightarrow>
              threads s ! (ord ! k) =
                Done (fst (handle_request (arrivals sch ! (ord ! k))
                            (snd (serve (startup f) (map ((!) (arrivals sch)) (take k ord)))))))"
proof -
  from schedule_order [OF assms] obtain ord where "lin_inv (startup f) (arrivals sch) ord s" ..
  then show ?thesis by (intro exI [of _ ord]) (simp add: lin_inv_def serial_db_def)
qed

theorem schedule_linearizable_witness:
  "run_schedule (boot empty_database)
     [Arrive (post_todo ''a'' ''x''), Arrive (delete_request ''a''), Run 0, Run 1, Run 0] =
     Some \<lparr>sdb = \<lparr>schema = [''todo'', ''ix_todo_id''], todo_rows = []\<rparr>,
            threads = [Done \<lparr>status = 500, payload = DebuggerPage, headers = []\<rparr>,
                       Done (cors None (jsonify (JStr ''Deleted'')))]\<rparr> \<and>
   (\<exists>ord. distinct ord \<and> set ord = {0, 1} \<and>
      todo_rows (snd (serve (startup empty_database)
        (map ((!) [post_todo ''a'' ''x'', delete_request ''a'']) ord))) = [])"
proof -
  note r = create_delete_schedule
  from schedule_linearizable [OF r] obtain ord where
    d: "distinct ord"
    and so: "set ord = {i. i < length (arrivals [Arrive (post_todo ''a'' ''x''), Arrive (delete_request ''a''),
                                                 Run 0, Run 1, Run 0])
               \<and> \<not> is_pending ([Done \<lparr>status = 500, payload = DebuggerPage, headers = []\<rparr>,
                                    Done (cors None (jsonify (JStr ''Deleted'')))] ! i)}"
    and db: "\<lparr>schema = [''todo'', ''ix_todo_id''], todo_rows = []\<rparr> =
               snd (serve (startup empty_database)
                 (map ((!) (arrivals [Arrive (post_todo ''a'' ''x''), Arrive (delete_request ''a''),
                                       Run 0, Run 1, Run 0])) ord))"
    by auto
  have "set ord = {0, 1}"
    unfolding so by (auto simp: less_Suc_eq)
  moreover from db have "todo_rows (snd (serve (startup empty_database)
        (map ((!) [post_todo ''a'' ''x'', delete_request ''a'']) ord))) = []"
    by (metis arrivals.simps database.select_convs(2))
  ultimately show ?thesis using r d by blast
qed

end
