(* ===== verification/Api_Types.thy ===== *)
theory Api_Types
  imports Handlers
begin

text \<open>
  The response types of the specification's API table (its section 6): the JSON body
  each method and path answers with for each status. \<open>conforms\<close> checks a response
  of the application against that table: a JSON body must have the listed type, a
  framework error page must carry its own status, and the answer to \<^verbatim>\<open>OPTIONS\<close> is
  the automatic one. The row is looked up on the path Werkzeug matches
  (\<open>werkzeug_path\<close>: leading slashes stripped). For \<^verbatim>\<open>HEAD\<close> the table's
  \<^verbatim>\<open>GET\<close> row applies (the response value is that of the \<^verbatim>\<open>GET\<close>;
  \<open>Wire.wire_response\<close> drops its body on the wire).
\<close>

section \<open>Types of JSON bodies\<close>

text \<open>A string, a todo object \<^verbatim>\<open>{id, value}\<close> with string fields, or an array.\<close>

datatype jtype = JTString | JTTodo | JTList jtype

fun has_jtype :: "jtype \<Rightarrow> json \<Rightarrow> bool" where
  "has_jtype JTString j = (case j of JStr _ \<Rightarrow> True | _ \<Rightarrow> False)"
| "has_jtype JTTodo j =
     (case j of
        JObj [(k1, JStr _), (k2, JStr _)] \<Rightarrow> k1 = ''id'' \<and> k2 = ''value''
      | _ \<Rightarrow> False)"
| "has_jtype (JTList t) j = (case j of JArr xs \<Rightarrow> list_all (has_jtype t) xs | _ \<Rightarrow> False)"

section \<open>The API table\<close>

text \<open>
  The rows of the table: \<^verbatim>\<open>GET /test\<close> 200 a string; \<^verbatim>\<open>GET /todo\<close> 200 an array of
  todos; \<^verbatim>\<open>POST /todo\<close> 201 a todo, 400 and 409 a string message;
  \<^verbatim>\<open>DELETE /todo/{id}\<close> 200 a string.
\<close>

definition api_type :: "http_method \<Rightarrow> string \<Rightarrow> nat \<Rightarrow> jtype option" where
  "api_type m p n =
     (if m \<in> {GET, HEAD} \<and> p = ''/test'' \<and> n = 200 then Some JTString
      else if m \<in> {GET, HEAD} \<and> p = ''/todo'' \<and> n = 200 then Some (JTList JTTodo)
      else if m = POST \<and> p = ''/todo'' \<and> n = 201 then Some JTTodo
      else if m = POST \<and> p = ''/todo'' \<and> n \<in> {400, 409} then Some JTString
      else if m = DELETE \<and> take 6 p = ''/todo/'' \<and> n = 200 then Some JTString
      else None)"

definition conforms :: "request \<Rightarrow> response \<Rightarrow> bool" where
  "conforms rq r =
     (case payload r of
        JsonPayload j \<Rightarrow>
          (case api_type (req_method rq) (werkzeug_path (path rq)) (status r) of
             Some t \<Rightarrow> has_jtype t j
           | None \<Rightarrow> False)
      | ErrorPage n \<Rightarrow> n = status r
      | OptionsPage \<Rightarrow> req_method rq = OPTIONS \<and> status r = 200
      | DebuggerPage \<Rightarrow> False)"

section \<open>Lemmas\<close>

lemma conforms_cors [simp]: "conforms rq (cors org r) = conforms rq r"
  by (simp add: conforms_def cors_def split: payload.split)


section \<open>Every response conforms\<close>



end
