(* ===== verification/Store_Spec.thy ===== *)
theory Store_Spec
  imports Prelude
begin

text \<open>
  The contract of the service as the specification states it (its sections 4.1 and 8),
  independent of tables, sessions and HTTP: a store is a finite map from ids to values;
  list answers the set of stored pairs (in no particular order), create adds a pair
  for a fresh id and answers a conflict otherwise, an invalid body changes nothing,
  delete removes the id whether or not it is stored. The root theory proves that the
  service refines this contract.
\<close>

type_synonym store = "string \<rightharpoonup> string"

datatype api_op =
    ListTodos
  | CreateTodo string string
  | CreateInvalid
  | DeleteTodo string

datatype api_reply =
    Listed "(string \<times> string) set"
  | Created string string
  | Conflict
  | Invalid
  | Deleted

fun spec_step :: "store \<Rightarrow> api_op \<Rightarrow> api_reply \<times> store" where
  "spec_step m ListTodos = (Listed (Map.graph m), m)"
| "spec_step m (CreateTodo k v) =
     (if k \<in> dom m then (Conflict, m) else (Created k v, m(k \<mapsto> v)))"
| "spec_step m CreateInvalid = (Invalid, m)"
| "spec_step m (DeleteTodo k) = (Deleted, m(k := None))"

text \<open>A sequence of operations, each on the store the previous one left.\<close>

fun spec_run :: "store \<Rightarrow> api_op list \<Rightarrow> api_reply list \<times> store" where
  "spec_run m [] = ([], m)"
| "spec_run m (op # ops) =
     (case spec_step m op of
        (r, m') \<Rightarrow> (case spec_run m' ops of (rs, m'') \<Rightarrow> (r # rs, m'')))"

section \<open>Lemmas\<close>

text \<open>The map-interface laws of the contract, in the manner of a map ADT.\<close>

lemma spec_create_lookup:
  "k \<notin> dom m \<Longrightarrow> snd (spec_step m (CreateTodo k v)) = m(k \<mapsto> v)"
  by simp

lemma spec_delete_lookup:
  "snd (spec_step m (DeleteTodo k)) k = None"
  by simp

lemma spec_step_finite:
  "finite (dom m) \<Longrightarrow> finite (dom (snd (spec_step m op)))"
  by (cases op) auto

lemma spec_run_append:
  "spec_run m (xs @ ys) =
     (case spec_run m xs of
        (rs, m') \<Rightarrow> (case spec_run m' ys of (rs', m'') \<Rightarrow> (rs @ rs', m'')))"
  by (induction xs arbitrary: m) (auto split: prod.splits)

end
