(* ===== verification/Json_Text.thy ===== *)
theory Json_Text
  imports Json "HOL-Library.Char_ord" "HOL-Library.List_Lexorder"
begin

text \<open>
  The text of a JSON response. \<^verbatim>\<open>jsonify(x)\<close> (lines 33, 39, 45, 50, 53, 62, 64 and
  72 of \<^verbatim>\<open>src/backend/main.py\<close>) hands \<open>x\<close> to Flask's \<^verbatim>\<open>DefaultJSONProvider\<close>;
  under \<^verbatim>\<open>app.run(debug=True)\<close> (line 74) the provider calls Python's
  \<^verbatim>\<open>json.dumps(x, indent=2, sort_keys=True, ensure_ascii=True)\<close> and appends a newline.
  \<open>dumps\<close> is that encoder: separators \<^verbatim>\<open>,\<close> and \<^verbatim>\<open>: \<close>, a newline and two spaces
  per level before each element, members in key order, and every character outside
  \<^verbatim>\<open> \<close>..\<^verbatim>\<open>~\<close> escaped (\<^verbatim>\<open>\"\<close>, \<^verbatim>\<open>\\\<close>, \<^verbatim>\<open>\n\<close>, \<^verbatim>\<open>\r\<close>, \<^verbatim>\<open>\t\<close>,
  \<^verbatim>\<open>\b\<close>, \<^verbatim>\<open>\f\<close>, otherwise \<^verbatim>\<open>\u00xx\<close> in lower-case hex). Isabelle's \<open>char\<close> has
  the 256 code points of Latin-1, so the \<^verbatim>\<open>\u\<close> escape of a character always starts
  with \<^verbatim>\<open>00\<close>.

  \<open>json_loads\<close> is a reference decoder for the grammar of RFC 8259 restricted to these
  characters and to integers, as a client of the service reads the text (the
  browser's \<^verbatim>\<open>JSON.parse\<close> or Python's \<^verbatim>\<open>json.loads\<close>). It is recursive descent
  with fuel: \<open>p_value\<close>, \<open>p_elems\<close> and \<open>p_members\<close> each consume one unit, and
  \<open>json_loads\<close> gives one unit more than the text has characters, which the lemma
  \<open>size_le_dumps\<close> shows to be enough for every text \<open>dumps\<close> writes.
\<close>

section \<open>The encoder: \<^verbatim>\<open>json.dumps\<close> as \<^verbatim>\<open>jsonify\<close> calls it\<close>

text \<open>A hex digit of a \<^verbatim>\<open>\u\<close> escape, lower case (\<^verbatim>\<open>'\\u{0:04x}'\<close>).\<close>

definition hex_digit :: "nat \<Rightarrow> char" where
  "hex_digit n = char_of (if n < 10 then 48 + n else 87 + n)"

text \<open>
  One character under \<^verbatim>\<open>ensure_ascii=True\<close> (\<^verbatim>\<open>json.encoder.py_encode_basestring_ascii\<close>,
  whose pattern \<^verbatim>\<open>([\\"]|[^\ -~])\<close> also escapes DEL).
\<close>

definition py_escape_char :: "char \<Rightarrow> string" where
  "py_escape_char c =
     (if c = CHR 0x22 then [CHR 0x5C, CHR 0x22]
      else if c = CHR 0x5C then [CHR 0x5C, CHR 0x5C]
      else if c = CHR 0x0A then [CHR 0x5C, CHR ''n'']
      else if c = CHR 0x0D then [CHR 0x5C, CHR ''r'']
      else if c = CHR 0x09 then [CHR 0x5C, CHR ''t'']
      else if c = CHR 0x08 then [CHR 0x5C, CHR ''b'']
      else if c = CHR 0x0C then [CHR 0x5C, CHR ''f'']
      else if of_char c < (32::nat) \<or> (127::nat) \<le> of_char c then
        [CHR 0x5C, CHR ''u'', CHR ''0'', CHR ''0'',
         hex_digit (of_char c div 16), hex_digit (of_char c mod 16)]
      else [c])"

text \<open>A string literal, in double quotes.\<close>

definition py_encode_str :: "string \<Rightarrow> string" where
  "py_encode_str s = CHR 0x22 # concat (map py_escape_char s) @ [CHR 0x22]"

text \<open>Decimal digits of an integer (\<^verbatim>\<open>int.__repr__\<close>).\<close>

fun nat_str :: "nat \<Rightarrow> string" where
  "nat_str n = (if n < 10 then [char_of (48 + n)] else nat_str (n div 10) @ [char_of (48 + n mod 10)])"

declare nat_str.simps [simp del]

definition int_str :: "int \<Rightarrow> string" where
  "int_str i = (if i < 0 then CHR ''-'' # nat_str (nat (- i)) else nat_str (nat i))"

text \<open>The newline and indentation before an element at depth \<open>n\<close> (\<^verbatim>\<open>indent=2\<close>).\<close>

definition newline_indent :: "nat \<Rightarrow> string" where
  "newline_indent n = CHR 0x0A # replicate (2 * n) (CHR '' '')"

text \<open>\<^verbatim>\<open>str.join\<close>.\<close>

fun join :: "string \<Rightarrow> string list \<Rightarrow> string" where
  "join sep [] = []"
| "join sep [x] = x"
| "join sep (x # y # xs) = x @ sep @ join sep (y # xs)"

text \<open>
  The encoder at nesting depth \<open>l\<close>; an empty array or object is written without a
  newline (\<^verbatim>\<open>json.encoder._iterencode_list\<close> and \<^verbatim>\<open>_iterencode_dict\<close>).
\<close>

function dumps :: "nat \<Rightarrow> json \<Rightarrow> string" where
  "dumps l JNull = ''null''"
| "dumps l (JBool b) = (if b then ''true'' else ''false'')"
| "dumps l (JNum i) = int_str i"
| "dumps l (JStr s) = py_encode_str s"
| "dumps l (JArr xs) =
     (if xs = [] then ''[]''
      else CHR ''['' # newline_indent (Suc l) @
           join (CHR '','' # newline_indent (Suc l)) (map (dumps (Suc l)) xs) @
           newline_indent l @ '']'')"
| "dumps l (JObj kvs) =
     (if kvs = [] then ''{}''
      else CHR ''{'' # newline_indent (Suc l) @
           join (CHR '','' # newline_indent (Suc l))
             (map (\<lambda>(k, v). py_encode_str k @ '': '' @ dumps (Suc l) v) (sort_key fst kvs)) @
           newline_indent l @ ''}'')"
  by pat_completeness auto
termination
proof -
  have elem: "size x < size (JArr xs)" if "x \<in> set xs" for x xs
    using that by (induction xs) auto
  have member: "size v < size (JObj kvs)" if "(k, v) \<in> set kvs" for k v kvs
    using that by (induction kvs) auto
  show ?thesis
    by (relation "measure (\<lambda>(l, j). size j)") (auto dest: elem member)
qed

text \<open>
  The body \<^verbatim>\<open>jsonify(x)\<close> writes: the encoding at depth 0 and a newline
  (\<^verbatim>\<open>f"{self.dumps(obj, **dump_args)}\n"\<close> in \<^verbatim>\<open>DefaultJSONProvider.response\<close>).
\<close>

definition jsonify_text :: "json \<Rightarrow> string" where
  "jsonify_text j = dumps 0 j @ [CHR 0x0A]"

text \<open>
  The value a client reads back: object members in key order, as
  \<^verbatim>\<open>sort_keys=True\<close> writes them.
\<close>

fun norm :: "json \<Rightarrow> json" where
  "norm (JArr xs) = JArr (map norm xs)"
| "norm (JObj kvs) = JObj (map (\<lambda>(k, v). (k, norm v)) (sort_key fst kvs))"
| "norm j = j"

section \<open>A reference decoder (RFC 8259)\<close>

definition is_ws :: "char \<Rightarrow> bool" where
  "is_ws c \<longleftrightarrow> c = CHR '' '' \<or> c = CHR 0x0A \<or> c = CHR 0x0D \<or> c = CHR 0x09"

definition skip_ws :: "string \<Rightarrow> string" where
  "skip_ws s = dropWhile is_ws s"

definition hex_val :: "char \<Rightarrow> nat option" where
  "hex_val c =
     (let n = of_char c in
      if 48 \<le> n \<and> n \<le> 57 then Some (n - 48)
      else if 97 \<le> n \<and> n \<le> 102 then Some (n - 87)
      else if 65 \<le> n \<and> n \<le> 70 then Some (n - 55)
      else None)"

definition unescape :: "char \<Rightarrow> char option" where
  "unescape e =
     (if e = CHR 0x22 \<or> e = CHR 0x5C \<or> e = CHR ''/'' then Some e
      else if e = CHR ''b'' then Some (CHR 0x08)
      else if e = CHR ''f'' then Some (CHR 0x0C)
      else if e = CHR ''n'' then Some (CHR 0x0A)
      else if e = CHR ''r'' then Some (CHR 0x0D)
      else if e = CHR ''t'' then Some (CHR 0x09)
      else None)"

definition hex4 :: "char \<Rightarrow> char \<Rightarrow> char \<Rightarrow> char \<Rightarrow> nat option" where
  "hex4 a b c d =
     (case (hex_val a, hex_val b, hex_val c, hex_val d) of
        (Some w, Some x, Some y, Some z) \<Rightarrow> Some (((w * 16 + x) * 16 + y) * 16 + z)
      | _ \<Rightarrow> None)"

fun p_chars :: "string \<Rightarrow> (string \<times> string) option" where
  "p_chars [] = None"
| "p_chars [c] = (if c = CHR 0x22 then Some ([], []) else None)"
| "p_chars (c # e # cs) =
     (if c = CHR 0x22 then Some ([], e # cs)
      else if c = CHR 0x5C then
        (if e = CHR ''u'' then
           (case cs of
              a # b # x # y # r \<Rightarrow>
                (case hex4 a b x y of
                   Some v \<Rightarrow> if v < 256 then map_option (apfst (Cons (char_of v))) (p_chars r) else None
                 | None \<Rightarrow> None)
            | _ \<Rightarrow> None)
         else
           (case unescape e of
              Some ch \<Rightarrow> map_option (apfst (Cons ch)) (p_chars cs)
            | None \<Rightarrow> None))
      else if of_char c < (32::nat) then None
      else map_option (apfst (Cons c)) (p_chars (e # cs)))"

definition is_digit :: "char \<Rightarrow> bool" where
  "is_digit c \<longleftrightarrow> 48 \<le> (of_char c :: nat) \<and> (of_char c :: nat) \<le> 57"

definition digits_val :: "string \<Rightarrow> nat" where
  "digits_val ds = foldl (\<lambda>n d. 10 * n + (of_char d - 48)) 0 ds"

definition p_nat :: "string \<Rightarrow> (nat \<times> string) option" where
  "p_nat s =
     (case s of
        [] \<Rightarrow> None
      | c # r \<Rightarrow>
          if c = CHR ''0'' then Some (0, r)
          else if is_digit c then
            Some (digits_val (takeWhile is_digit s), dropWhile is_digit s)
          else None)"

definition p_number :: "string \<Rightarrow> (json \<times> string) option" where
  "p_number s =
     (case s of
        c # r \<Rightarrow>
          if c = CHR ''-'' then map_option (\<lambda>(n, r'). (JNum (- int n), r')) (p_nat r)
          else map_option (\<lambda>(n, r'). (JNum (int n), r')) (p_nat s)
      | [] \<Rightarrow> None)"

fun p_value :: "nat \<Rightarrow> string \<Rightarrow> (json \<times> string) option"
and p_elems :: "nat \<Rightarrow> string \<Rightarrow> (json list \<times> string) option"
and p_members :: "nat \<Rightarrow> string \<Rightarrow> ((string \<times> json) list \<times> string) option" where
  "p_value 0 s = None"
| "p_value (Suc f) s =
     (case skip_ws s of
        [] \<Rightarrow> None
      | c # r \<Rightarrow>
          if c = CHR ''n'' then (if take 3 r = ''ull'' then Some (JNull, drop 3 r) else None)
          else if c = CHR ''t'' then (if take 3 r = ''rue'' then Some (JBool True, drop 3 r) else None)
          else if c = CHR ''f'' then (if take 4 r = ''alse'' then Some (JBool False, drop 4 r) else None)
          else if c = CHR 0x22 then map_option (apfst JStr) (p_chars r)
          else if c = CHR ''['' then
            (case skip_ws r of
               d # r' \<Rightarrow> if d = CHR '']'' then Some (JArr [], r') else map_option (apfst JArr) (p_elems f r)
             | [] \<Rightarrow> None)
          else if c = CHR ''{'' then
            (case skip_ws r of
               d # r' \<Rightarrow> if d = CHR ''}'' then Some (JObj [], r') else map_option (apfst JObj) (p_members f r)
             | [] \<Rightarrow> None)
          else p_number (c # r))"
| "p_elems 0 s = None"
| "p_elems (Suc f) s =
     (case p_value f s of
        None \<Rightarrow> None
      | Some (v, r) \<Rightarrow>
          (case skip_ws r of
             c # r' \<Rightarrow>
               if c = CHR '','' then map_option (apfst (Cons v)) (p_elems f r')
               else if c = CHR '']'' then Some ([v], r')
               else None
           | [] \<Rightarrow> None))"
| "p_members 0 s = None"
| "p_members (Suc f) s =
     (case skip_ws s of
        q # r \<Rightarrow>
          if q \<noteq> CHR 0x22 then None
          else
            (case p_chars r of
               None \<Rightarrow> None
             | Some (k, r1) \<Rightarrow>
                 (case skip_ws r1 of
                    d # r2 \<Rightarrow>
                      if d \<noteq> CHR '':'' then None
                      else
                        (case p_value f r2 of
                           None \<Rightarrow> None
                         | Some (v, r3) \<Rightarrow>
                             (case skip_ws r3 of
                                c # r4 \<Rightarrow>
                                  if c = CHR '','' then map_option (apfst (Cons (k, v))) (p_members f r4)
                                  else if c = CHR ''}'' then Some ([(k, v)], r4)
                                  else None
                              | [] \<Rightarrow> None))
                  | [] \<Rightarrow> None))
      | [] \<Rightarrow> None)"

definition json_loads :: "string \<Rightarrow> json option" where
  "json_loads s =
     (case p_value (Suc (length s)) s of
        Some (j, r) \<Rightarrow> if skip_ws r = [] then Some j else None
      | None \<Rightarrow> None)"

text \<open>
  Two predicates of the round-trip lemmas: a rest that cannot continue a number, and
  white space the decoder skips.
\<close>

definition stops :: "string \<Rightarrow> bool" where
  "stops r \<longleftrightarrow> (case r of [] \<Rightarrow> True | c # _ \<Rightarrow> \<not> is_digit c)"

definition all_ws :: "string \<Rightarrow> bool" where
  "all_ws w \<longleftrightarrow> (\<forall>c \<in> set w. is_ws c)"

section \<open>The text is ASCII\<close>

definition is_ascii :: "string \<Rightarrow> bool" where
  "is_ascii s \<longleftrightarrow> (\<forall>c \<in> set s. of_char c < (128::nat))"

lemma is_ascii_simps [simp]:
  "is_ascii []" "is_ascii (c # s) \<longleftrightarrow> of_char c < (128::nat) \<and> is_ascii s"
  "is_ascii (s @ t) \<longleftrightarrow> is_ascii s \<and> is_ascii t"
  by (auto simp: is_ascii_def)

lemma is_ascii_concat: "is_ascii (concat xs) \<longleftrightarrow> (\<forall>x \<in> set xs. is_ascii x)"
  by (auto simp: is_ascii_def)

lemma of_char_char_of_small [simp]: "n < 256 \<Longrightarrow> of_char (char_of n :: char) = (n::nat)"
  by (simp add: of_char_of)

lemma of_char_lt_256: "of_char c < (256::nat)"
  by (metis char_of_char of_char_of mod_less_divisor zero_less_numeral)

lemma hex_digit_ascii: "n < 16 \<Longrightarrow> of_char (hex_digit n) < (128::nat)"
  by (simp add: hex_digit_def)

lemma py_escape_char_ascii: "is_ascii (py_escape_char c)"
proof -
  have "of_char c < (256::nat)" by (rule of_char_lt_256)
  then have "of_char c div 16 < (16::nat)" by (simp add: div_less_iff_less_mult)
  then show ?thesis
    by (auto simp: py_escape_char_def hex_digit_ascii)
qed

lemma py_encode_str_ascii: "is_ascii (py_encode_str s)"
  by (simp add: py_encode_str_def is_ascii_concat py_escape_char_ascii)

lemma nat_str_ascii: "is_ascii (nat_str n)"
proof (induction n rule: nat_str.induct)
  case (1 n)
  have "n mod 10 < 10" by simp
  with 1 show ?case by (subst nat_str.simps) auto
qed

lemma int_str_ascii: "is_ascii (int_str i)"
  by (simp add: int_str_def nat_str_ascii)

lemma newline_indent_ascii: "is_ascii (newline_indent n)"
  by (simp add: newline_indent_def is_ascii_def)

lemma join_ascii: "is_ascii sep \<Longrightarrow> \<forall>x \<in> set xs. is_ascii x \<Longrightarrow> is_ascii (join sep xs)"
  by (induction sep xs rule: join.induct) simp_all

lemma dumps_ascii: "is_ascii (dumps l j)"
proof (induction l j rule: dumps.induct)
  case (5 l xs)
  then show ?case by (auto simp: newline_indent_ascii intro!: join_ascii)
next
  case (6 l kvs)
  then show ?case by (auto simp: newline_indent_ascii py_encode_str_ascii intro!: join_ascii)
qed (simp_all add: int_str_ascii py_encode_str_ascii)

section \<open>Round trip\<close>

section \<open>Decoding what \<open>dumps\<close> writes\<close>

lemma hex_val_hex_digit: "n < 16 \<Longrightarrow> hex_val (hex_digit n) = Some n"
  by (auto simp: hex_val_def hex_digit_def Let_def)

lemma hex_val_zero: "hex_val (CHR ''0'') = Some 0"
  by (simp add: hex_val_def)

lemma hex4_escape:
  "hex4 (CHR ''0'') (CHR ''0'') (hex_digit (of_char c div 16)) (hex_digit (of_char c mod 16)) = Some (of_char c)"
proof -
  have "of_char c < (256::nat)" by (rule of_char_lt_256)
  then have "of_char c div 16 < (16::nat)" by (simp add: div_less_iff_less_mult)
  then show ?thesis
    by (simp add: hex4_def hex_val_zero hex_val_hex_digit)
qed

lemma p_chars_escape:
  assumes "x \<noteq> []"
  shows "p_chars (py_escape_char c @ x) = map_option (apfst (Cons c)) (p_chars x)"
proof -
  obtain e xs where x: "x = e # xs" using assms by (cases x) auto
  have lt: "of_char c < (256::nat)" by (rule of_char_lt_256)
  consider "c = CHR 0x22" | "c = CHR 0x5C" | "c = CHR 0x0A" | "c = CHR 0x0D" | "c = CHR 0x09"
    | "c = CHR 0x08" | "c = CHR 0x0C"
    | "c \<notin> {CHR 0x22, CHR 0x5C, CHR 0x0A, CHR 0x0D, CHR 0x09, CHR 0x08, CHR 0x0C}"
      "of_char c < (32::nat) \<or> (127::nat) \<le> of_char c"
    | "c \<notin> {CHR 0x22, CHR 0x5C, CHR 0x0A, CHR 0x0D, CHR 0x09, CHR 0x08, CHR 0x0C}"
      "\<not> (of_char c < (32::nat) \<or> (127::nat) \<le> of_char c)"
    by blast
  then show ?thesis
  proof cases
    case 8
    then have "py_escape_char c = [CHR 0x5C, CHR ''u'', CHR ''0'', CHR ''0'',
         hex_digit (of_char c div 16), hex_digit (of_char c mod 16)]"
      by (auto simp: py_escape_char_def)
    with lt show ?thesis by (simp add: hex4_escape x)
  next
    case 9
    then have "py_escape_char c = [c]" by (auto simp: py_escape_char_def)
    with 9 show ?thesis by (auto simp: x)
  qed (simp_all add: py_escape_char_def unescape_def x)
qed

lemma p_chars_encoded:
  "p_chars (concat (map py_escape_char s) @ CHR 0x22 # rest) = Some (s, rest)"
proof (induction s)
  case Nil
  then show ?case by (cases rest) simp_all
next
  case (Cons c s)
  then show ?case by (simp add: p_chars_escape)
qed

lemma nat_str_digits: "\<forall>c \<in> set (nat_str n). is_digit c"
proof (induction n rule: nat_str.induct)
  case (1 n)
  have "n mod 10 < 10" by simp
  with 1 show ?case by (subst nat_str.simps) (auto simp: is_digit_def)
qed

lemma nat_str_Cons: "\<exists>c r. nat_str n = c # r \<and> (c = CHR ''0'' \<longleftrightarrow> n = 0) \<and> (n = 0 \<longrightarrow> r = [])"
proof (induction n rule: nat_str.induct)
  case (1 n)
  show ?case
  proof (cases "n < 10")
    case True
    then have e1: "of_char (char_of (48 + n) :: char) = (48 + n :: nat)" by simp
    have e2: "of_char (CHR ''0'') = (48 :: nat)" by simp
    have "char_of (48 + n) = CHR ''0'' \<longleftrightarrow> (48 + n :: nat) = 48"
      by (metis e1 e2 char_of_char)
    then have "char_of (48 + n) = CHR ''0'' \<longleftrightarrow> n = 0" by simp
    with True show ?thesis by (subst nat_str.simps) auto
  next
    case False
    then have "n div 10 \<noteq> 0" by simp
    with 1 False show ?thesis by (subst nat_str.simps) auto
  qed
qed

lemma digits_val_snoc: "digits_val (xs @ [d]) = 10 * digits_val xs + (of_char d - 48)"
  by (simp add: digits_val_def)

lemma digits_val_nat_str: "digits_val (nat_str n) = n"
proof (induction n rule: nat_str.induct)
  case (1 n)
  have "n mod 10 < 10" by simp
  with 1 show ?case
    by (subst nat_str.simps) (auto simp: digits_val_snoc digits_val_def)
qed

lemma p_nat_nat_str: "stops rest \<Longrightarrow> p_nat (nat_str n @ rest) = Some (n, rest)"
proof -
  assume st: "stops rest"
  obtain c r where nc: "nat_str n = c # r" and z: "c = CHR ''0'' \<longleftrightarrow> n = 0" and e: "n = 0 \<longrightarrow> r = []"
    using nat_str_Cons by blast
  have dg: "\<forall>x \<in> set (nat_str n). is_digit x" by (rule nat_str_digits)
  have tw: "takeWhile is_digit (nat_str n @ rest) = nat_str n"
    and dw: "dropWhile is_digit (nat_str n @ rest) = rest"
    using dg st by (auto simp: takeWhile_append2 dropWhile_append2 stops_def split: list.splits)
  show ?thesis
  proof (cases "n = 0")
    case True
    with nc z e show ?thesis by (simp add: p_nat_def)
  next
    case False
    with nc z dg have "is_digit c" "c \<noteq> CHR ''0''" by auto
    moreover have "digits_val (c # r) = n" using digits_val_nat_str [of n] nc by simp
    ultimately show ?thesis using nc tw dw by (simp add: p_nat_def)
  qed
qed

lemma p_number_int_str: "stops rest \<Longrightarrow> p_number (int_str i @ rest) = Some (JNum i, rest)"
proof -
  assume st: "stops rest"
  show ?thesis
  proof (cases "i < 0")
    case True
    then show ?thesis by (simp add: int_str_def p_number_def p_nat_nat_str [OF st])
  next
    case False
    obtain c r where nc: "nat_str (nat i) = c # r"
      using nat_str_Cons by blast
    have "is_digit c" using nat_str_digits [of "nat i"] nc by simp
    then have "c \<noteq> CHR ''-''" by (auto simp: is_digit_def)
    with False nc have "p_number (int_str i @ rest) = map_option (\<lambda>(n, r'). (JNum (int n), r')) (p_nat (nat_str (nat i) @ rest))"
      by (simp add: int_str_def p_number_def)
    with False show ?thesis by (simp add: p_nat_nat_str [OF st])
  qed
qed

lemma skip_ws_ws: "\<forall>c \<in> set w. is_ws c \<Longrightarrow> skip_ws (w @ x) = skip_ws x"
  by (induction w) (simp_all add: skip_ws_def)

lemma skip_ws_nonws: "\<not> is_ws c \<Longrightarrow> skip_ws (c # x) = c # x"
  by (simp add: skip_ws_def)

lemma newline_indent_ws: "\<forall>c \<in> set (newline_indent n). is_ws c"
  by (simp add: newline_indent_def is_ws_def)

lemma skip_ws_nl: "skip_ws (newline_indent n @ x) = skip_ws x"
  by (rule skip_ws_ws [OF newline_indent_ws])

lemma stops_nonDigit: "\<not> is_digit c \<Longrightarrow> stops (c # r)"
  by (simp add: stops_def)

lemma stops_nl: "stops (newline_indent n @ r)"
  by (simp add: newline_indent_def stops_def is_digit_def)

text \<open>The first character of an encoded value: a letter of a literal, a sign or digit, or a bracket or quote.\<close>

lemma dumps_first:
  "\<exists>c r. dumps l j = c # r \<and> \<not> is_ws c \<and> c \<noteq> CHR '']'' \<and> c \<noteq> CHR ''}'' \<and>
         (c = CHR ''n'' \<longrightarrow> j = JNull) \<and> (c = CHR ''t'' \<longrightarrow> j = JBool True) \<and>
         (c = CHR ''f'' \<longrightarrow> j = JBool False) \<and> (c = CHR 0x22 \<longrightarrow> (\<exists>s. j = JStr s)) \<and>
         (c = CHR ''['' \<longrightarrow> (\<exists>xs. j = JArr xs)) \<and> (c = CHR ''{'' \<longrightarrow> (\<exists>kvs. j = JObj kvs))"
proof (cases j)
  case (JNum i)
  obtain c r where nc: "nat_str (if i < 0 then nat (- i) else nat i) = c # r"
    using nat_str_Cons by blast
  have "is_digit c" using nat_str_digits [of "if i < 0 then nat (- i) else nat i"] nc by simp
  with JNum nc show ?thesis
    by (auto simp: int_str_def is_digit_def is_ws_def split: if_splits)
qed (auto simp: py_encode_str_def is_ws_def)

lemma p_elems_dumps:
  assumes "xs \<noteq> []"
    and IH: "\<And>x f w rest. x \<in> set xs \<Longrightarrow> all_ws w \<Longrightarrow> stops rest \<Longrightarrow> size x < f \<Longrightarrow>
               p_value f (w @ dumps (Suc l) x @ rest) = Some (norm x, rest)"
    and "sum_list (map (\<lambda>x. size x + 1) xs) < g"
  shows "p_elems g (newline_indent (Suc l) @ join (CHR '','' # newline_indent (Suc l)) (map (dumps (Suc l)) xs) @
                    newline_indent l @ CHR '']'' # rest) = Some (map norm xs, rest)"
  using assms
proof (induction xs arbitrary: g)
  case Nil
  then show ?case by simp
next
  case (Cons x xs)
  obtain g' where g: "g = Suc g'" using Cons.prems(3) by (cases g) auto
  have ws: "all_ws (newline_indent (Suc l))" by (simp add: all_ws_def newline_indent_ws)
  show ?case
  proof (cases xs)
    case Nil
    have "p_value g' (newline_indent (Suc l) @ dumps (Suc l) x @ (newline_indent l @ CHR '']'' # rest)) =
          Some (norm x, newline_indent l @ CHR '']'' # rest)"
      using Cons.prems(3) g Nil by (intro Cons.prems(2) ws stops_nl) simp_all
    with g Nil show ?thesis by (simp add: skip_ws_nl skip_ws_nonws is_ws_def)
  next
    case (Cons y ys)
    let ?tail = "newline_indent (Suc l) @ join (CHR '','' # newline_indent (Suc l)) (map (dumps (Suc l)) xs) @
                 newline_indent l @ CHR '']'' # rest"
    have pv: "p_value g' (newline_indent (Suc l) @ dumps (Suc l) x @ (CHR '','' # ?tail)) =
          Some (norm x, CHR '','' # ?tail)"
      using Cons.prems(3) g by (intro Cons.prems(2) ws stops_nonDigit) (auto simp: is_digit_def)
    have "p_elems g' ?tail = Some (map norm xs, rest)"
      using Cons.prems(2,3) g \<open>xs = y # ys\<close> by (intro Cons.IH) auto
    with pv g \<open>xs = y # ys\<close> show ?thesis by (simp add: skip_ws_nonws is_ws_def)
  qed
qed

lemma p_member_head:
  assumes "p_value g (CHR '' '' # dumps (Suc l) v @ rest') = Some (norm v, rest')"
  shows "p_members (Suc g) (newline_indent (Suc l) @ (py_encode_str k @ '': '' @ dumps (Suc l) v) @ rest') =
           (case skip_ws rest' of
              c # r4 \<Rightarrow>
                if c = CHR '','' then map_option (apfst (Cons (k, norm v))) (p_members g r4)
                else if c = CHR ''}'' then Some ([(k, norm v)], r4)
                else None
            | [] \<Rightarrow> None)"
proof -
  have "py_encode_str k @ '': '' @ dumps (Suc l) v @ rest' =
        CHR 0x22 # (concat (map py_escape_char k) @ CHR 0x22 # (CHR '':'' # CHR '' '' # dumps (Suc l) v @ rest'))"
    by (simp add: py_encode_str_def)
  with assms show ?thesis
    by (simp add: skip_ws_nl skip_ws_nonws is_ws_def p_chars_encoded)
qed

lemma p_members_dumps:
  assumes "ms \<noteq> []"
    and IH: "\<And>k v f w rest. (k, v) \<in> set ms \<Longrightarrow> all_ws w \<Longrightarrow> stops rest \<Longrightarrow> size v < f \<Longrightarrow>
               p_value f (w @ dumps (Suc l) v @ rest) = Some (norm v, rest)"
    and "sum_list (map (\<lambda>(k, v). size v + 1) ms) < g"
  shows "p_members g (newline_indent (Suc l) @
            join (CHR '','' # newline_indent (Suc l))
              (map (\<lambda>(k, v). py_encode_str k @ '': '' @ dumps (Suc l) v) ms) @
            newline_indent l @ CHR ''}'' # rest) = Some (map (\<lambda>(k, v). (k, norm v)) ms, rest)"
  using assms
proof (induction ms arbitrary: g)
  case Nil
  then show ?case by simp
next
  case (Cons m ms)
  obtain k v where m: "m = (k, v)" by (cases m)
  obtain g' where g: "g = Suc g'" using Cons.prems(3) by (cases g) auto
  have sp: "all_ws [CHR '' '']" by (simp add: all_ws_def is_ws_def)
  show ?case
  proof (cases ms)
    case Nil
    have "p_value g' ([CHR '' ''] @ dumps (Suc l) v @ (newline_indent l @ CHR ''}'' # rest)) =
          Some (norm v, newline_indent l @ CHR ''}'' # rest)"
      using Cons.prems(3) g Nil m by (intro Cons.prems(2) sp stops_nl) simp_all
    from p_member_head [of g' l v _ k, OF this [simplified]] g Nil m show ?thesis
      by (simp add: skip_ws_nl skip_ws_nonws is_ws_def)
  next
    case (Cons y ys)
    let ?tail = "newline_indent (Suc l) @
            join (CHR '','' # newline_indent (Suc l))
              (map (\<lambda>(k, v). py_encode_str k @ '': '' @ dumps (Suc l) v) ms) @
            newline_indent l @ CHR ''}'' # rest"
    have pv: "p_value g' ([CHR '' ''] @ dumps (Suc l) v @ (CHR '','' # ?tail)) = Some (norm v, CHR '','' # ?tail)"
      using Cons.prems(3) g m by (intro Cons.prems(2) sp stops_nonDigit) (auto simp: is_digit_def)
    have ih: "p_value f (w @ dumps (Suc l) v' @ rest') = Some (norm v', rest')"
      if "(k', v') \<in> set ms" "all_ws w" "stops rest'" "size v' < f" for k' v' f w rest'
      using that Cons.prems(2) by (meson list.set_intros(2))
    have fuel: "sum_list (map (\<lambda>(k, v). size v + 1) ms) < g'" using Cons.prems(3) g m by simp
    have "p_members g' ?tail = Some (map (\<lambda>(k, v). (k, norm v)) ms, rest)"
      using Cons.IH [OF _ ih fuel] \<open>ms = y # ys\<close> by simp
    with p_member_head [of g' l v _ k, OF pv [simplified]] g m \<open>ms = y # ys\<close> show ?thesis
      by (simp add: skip_ws_nonws is_ws_def)
  qed
qed

lemma sum_list_insort_key: "sum_list (map h (insort_key f x xs)) = h x + (sum_list (map h xs) :: nat)"
  by (induction xs) (simp_all add: ac_simps)

lemma sum_list_sort_key: "sum_list (map h (sort_key f xs)) = (sum_list (map h xs) :: nat)"
  by (induction xs) (simp_all add: sum_list_insort_key)

lemma size_members: "sum_list (map (size_prod (\<lambda>x. 0) size) kvs) = (\<Sum>p\<leftarrow>kvs. Suc (size (snd p)))"
  by (induction kvs) auto

lemma sum_list_Suc: "sum_list (map (\<lambda>x. Suc (g x)) xs) = sum_list (map g xs) + length xs"
  by (induction xs) simp_all

lemma p_value_dumps:
  "all_ws w \<Longrightarrow> stops rest \<Longrightarrow> size j < f \<Longrightarrow>
     p_value f (w @ dumps l j @ rest) = Some (norm j, rest)"
proof (induction l j arbitrary: f w rest rule: dumps.induct)
  case (1 l)
  then obtain f' where "f = Suc f'" by (cases f) auto
  with 1 show ?case by (simp add: all_ws_def skip_ws_ws skip_ws_nonws is_ws_def)
next
  case (2 l b)
  then obtain f' where "f = Suc f'" by (cases f) auto
  with 2 show ?case by (simp add: all_ws_def skip_ws_ws skip_ws_nonws is_ws_def)
next
  case (3 l i)
  then obtain f' where f: "f = Suc f'" by (cases f) auto
  obtain c r where cr: "dumps l (JNum i) = c # r" and nw: "\<not> is_ws c"
    and c: "c \<noteq> CHR ''n''" "c \<noteq> CHR ''t''" "c \<noteq> CHR ''f''" "c \<noteq> CHR 0x22"
           "c \<noteq> CHR ''[''" "c \<noteq> CHR ''{''"
    using dumps_first [of l "JNum i"] by auto
  have "p_number (int_str i @ rest) = Some (JNum i, rest)" by (rule p_number_int_str [OF 3(2)])
  with 3(1) f cr nw c show ?case
    by (simp add: all_ws_def skip_ws_ws skip_ws_nonws)
next
  case (4 l str)
  then obtain f' where "f = Suc f'" by (cases f) auto
  with 4 show ?case
    by (simp add: all_ws_def skip_ws_ws skip_ws_nonws is_ws_def py_encode_str_def p_chars_encoded)
next
  case (5 l xs)
  then obtain f' where f: "f = Suc f'" by (cases f) auto
  show ?case
  proof (cases "xs = []")
    case True
    with 5 f show ?thesis by (simp add: all_ws_def skip_ws_ws skip_ws_nonws is_ws_def)
  next
    case False
    then obtain x xs' where xs: "xs = x # xs'" by (cases xs) auto
    obtain c r where cr: "dumps (Suc l) x = c # r" and nw: "\<not> is_ws c" and cb: "c \<noteq> CHR '']''"
      using dumps_first [of "Suc l" x] by auto
    obtain Z where J: "join (CHR '','' # newline_indent (Suc l)) (map (dumps (Suc l)) xs) = c # r @ Z"
      using xs cr by (cases xs') auto
    have fuel: "sum_list (map (\<lambda>x. size x + 1) xs) < f'"
      using 5(4) f by (simp add: size_list_conv_sum_list sum_list_Suc)
    have el: "p_elems f' (newline_indent (Suc l) @ join (CHR '','' # newline_indent (Suc l)) (map (dumps (Suc l)) xs) @
                    newline_indent l @ CHR '']'' # rest) = Some (map norm xs, rest)"
      using 5(1) False by (intro p_elems_dumps [OF False _ fuel]) blast
    show ?thesis
      using 5(2) f False el J nw cb
      by (simp add: all_ws_def skip_ws_ws skip_ws_nonws is_ws_def skip_ws_nl)
  qed
next
  case (6 l kvs)
  then obtain f' where f: "f = Suc f'" by (cases f) auto
  show ?case
  proof (cases "kvs = []")
    case True
    with 6 f show ?thesis by (simp add: all_ws_def skip_ws_ws skip_ws_nonws is_ws_def)
  next
    case False
    let ?ms = "sort_key fst kvs"
    have ne: "?ms \<noteq> []" using False by (cases kvs) auto
    then obtain k v ms' where ms: "?ms = (k, v) # ms'" by (cases ?ms) auto
    obtain Z where J: "join (CHR '','' # newline_indent (Suc l))
        (map (\<lambda>(k, v). py_encode_str k @ '': '' @ dumps (Suc l) v) ?ms) = CHR 0x22 # Z"
      using ms by (cases ms') (auto simp: py_encode_str_def)
    have fuel: "sum_list (map (\<lambda>(k, v). size v + 1) ?ms) < f'"
      using 6(4) f by (simp add: sum_list_sort_key size_list_conv_sum_list split_def size_members)
    have mem: "p_members f' (newline_indent (Suc l) @
            join (CHR '','' # newline_indent (Suc l))
              (map (\<lambda>(k, v). py_encode_str k @ '': '' @ dumps (Suc l) v) ?ms) @
            newline_indent l @ CHR ''}'' # rest) = Some (map (\<lambda>(k, v). (k, norm v)) ?ms, rest)"
      using 6(1) False by (intro p_members_dumps [OF ne _ fuel]) blast
    show ?thesis
      using 6(2) f False mem J
      by (simp add: all_ws_def skip_ws_ws skip_ws_nonws is_ws_def skip_ws_nl)
  qed
qed

section \<open>The fuel of \<open>json_loads\<close> is enough\<close>

lemma length_join:
  "ys \<noteq> [] \<Longrightarrow> length (join sep ys) + length sep = sum_list (map (\<lambda>y. length y + length sep) ys)"
  by (induction sep ys rule: join.induct) simp_all

lemma length_join_ge:
  assumes "ys \<noteq> []" and "sep \<noteq> []"
  shows "sum_list (map length ys) + length ys \<le> length (join sep ys) + 1"
proof -
  have "sum_list (map (\<lambda>y. length y + length sep) ys) = sum_list (map length ys) + length ys * length sep"
    by (induction ys) simp_all
  moreover have "length ys + length sep \<le> length ys * length sep + 1"
    using assms by (cases ys; cases sep) auto
  ultimately show ?thesis using length_join [OF assms(1), of sep] by linarith
qed

lemma size_le_dumps: "size j \<le> length (dumps l j)"
proof (induction l j rule: dumps.induct)
  case (5 l xs)
  show ?case
  proof (cases "xs = []")
    case False
    have "sum_list (map size xs) \<le> sum_list (map length (map (dumps (Suc l)) xs))"
      using 5 False by (simp add: sum_list_mono)
    moreover have "sum_list (map length (map (dumps (Suc l)) xs)) + length xs \<le>
        length (join (CHR '','' # newline_indent (Suc l)) (map (dumps (Suc l)) xs)) + 1"
      using length_join_ge [of "map (dumps (Suc l)) xs" "CHR '','' # newline_indent (Suc l)"] False by simp
    ultimately show ?thesis using False by (simp add: size_list_conv_sum_list newline_indent_def)
  qed simp
next
  case (6 l kvs)
  show ?case
  proof (cases "kvs = []")
    case False
    let ?ms = "sort_key fst kvs"
    let ?txt = "map (\<lambda>(k, v). py_encode_str k @ '': '' @ dumps (Suc l) v) ?ms"
    have sz: "sum_list (map (size_prod (\<lambda>x. 0) size) kvs) = sum_list (map (\<lambda>(k, v). size v + 1) ?ms)"
      by (simp add: sum_list_sort_key split_def size_members)
    have ih: "size v \<le> length (dumps (Suc l) v)" if "(k, v) \<in> set kvs" for k v
    proof -
      from that have "(k, v) \<in> set ?ms" by simp
      from 6 [OF False this refl] show ?thesis .
    qed
    have "sum_list (map (\<lambda>(k, v). size v + 1) ?ms) \<le> sum_list (map length ?txt)"
      by (auto simp: py_encode_str_def intro!: sum_list_mono dest!: ih)
    moreover have "sum_list (map length ?txt) + length ?txt \<le>
        length (join (CHR '','' # newline_indent (Suc l)) ?txt) + 1"
    proof -
      have "?ms \<noteq> []" using False by (metis length_0_conv length_sort)
      then show ?thesis using length_join_ge [of ?txt "CHR '','' # newline_indent (Suc l)"] by simp
    qed
    ultimately show ?thesis using False sz by (simp add: size_list_conv_sum_list newline_indent_def)
  qed simp
qed simp_all

lemma json_loads_dumps: "json_loads (dumps 0 j @ [CHR 0x0A]) = Some (norm j)"
proof -
  have "size j < Suc (length (dumps 0 j @ [CHR 0x0A]))"
    using size_le_dumps [of j 0] by simp
  moreover have "stops [CHR 0x0A]" by (simp add: stops_def is_digit_def)
  moreover have "all_ws []" by (simp add: all_ws_def)
  ultimately have "p_value (Suc (length (dumps 0 j @ [CHR 0x0A]))) (dumps 0 j @ [CHR 0x0A]) =
      Some (norm j, [CHR 0x0A])"
    using p_value_dumps [of "[]" "[CHR 0x0A]" j "Suc (length (dumps 0 j @ [CHR 0x0A]))" 0]
    by (simp only: append_Nil)
  then show ?thesis by (simp add: json_loads_def skip_ws_def is_ws_def)
qed

section \<open>Properties of the response text\<close>

text \<open>
  Every body \<^verbatim>\<open>jsonify\<close> writes is ASCII text, whatever the strings in the
  value: \<^verbatim>\<open>ensure_ascii=True\<close> escapes every character outside \<^verbatim>\<open> \<close>..\<^verbatim>\<open>~\<close>. So the
  body's length in bytes (the \<^verbatim>\<open>Content-Length\<close> Werkzeug sends) is its length in
  characters under any ASCII-compatible charset.
\<close>

lemma jsonify_text_ascii: "is_ascii (jsonify_text j)"
  using dumps_ascii [of 0 j] by (simp add: jsonify_text_def)

text \<open>
  A client that decodes a body \<^verbatim>\<open>jsonify\<close> wrote gets the value back, its object
  members in key order: the encoder and an RFC 8259 decoder form a round trip up to
  \<open>norm\<close>, and the fuel \<open>json_loads\<close> gives is enough.
\<close>

lemma jsonify_text_loads: "json_loads (jsonify_text j) = Some (norm j)"
  using json_loads_dumps [of j] by (simp add: jsonify_text_def)

end
