(* ===== verification/Wire.thy ===== *)
theory Wire
  imports Api_Types Json_Text "HOL-Library.Word"
begin

text \<open>
  What travels on the connection, on both sides of \<^verbatim>\<open>src/backend/main.py\<close>.
  \<^item> Responses: \<open>body_text\<close> is the text \<^verbatim>\<open>jsonify\<close> produced for a JSON payload
    (\<open>Json_Text.jsonify_text\<close>); the HTML of an error or debugger page is not
    modelled (\<open>None\<close>). Werkzeug encodes the text in UTF-8 (\<open>utf8\<close>), sets
    \<^verbatim>\<open>Content-Length\<close> to the number of bytes, and the development server sends
    no body for \<^verbatim>\<open>HEAD\<close> (\<open>wire_response\<close>).
  \<^item> Requests: \<^verbatim>\<open>request.json\<close> (line 43) first asks Werkzeug's
    \<^verbatim>\<open>Request.is_json\<close> whether the \<^verbatim>\<open>Content-Type\<close> header names JSON
    (\<open>mimetype\<close>, \<open>is_json_mimetype\<close>, with the string methods of
    \<open>Prelude\<close>), then decodes the body text. \<open>header_body\<close>
    builds the request body of the model from the header and the text, with the
    reference decoder of \<open>Json_Text\<close> in place of Python's \<^verbatim>\<open>json.loads\<close>; on every
    text \<^verbatim>\<open>jsonify\<close> writes the two agree (only integers, strings with the escapes
    of \<open>py_escape_char\<close>, arrays and objects occur in it).
\<close>

section \<open>Response bodies\<close>

definition body_text :: "response \<Rightarrow> string option" where
  "body_text r = (case payload r of JsonPayload j \<Rightarrow> Some (jsonify_text j) | _ \<Rightarrow> None)"

section \<open>The content type of a request\<close>

text \<open>
  \<^verbatim>\<open>Request.mimetype\<close>: the header (\<^verbatim>\<open>""\<close> when absent) cut at its first
  \<^verbatim>\<open>;\<close> and stripped (\<^verbatim>\<open>parse_options_header\<close>), then lower-cased.
\<close>

definition mimetype :: "string option \<Rightarrow> string" where
  "mimetype ct =
     map py_lower_char (py_strip (takeWhile (\<lambda>c. c \<noteq> CHR '';'') (case ct of None \<Rightarrow> [] | Some s \<Rightarrow> s)))"

text \<open>\<^verbatim>\<open>Request.is_json\<close>: \<^verbatim>\<open>application/json\<close> or \<^verbatim>\<open>application/*+json\<close>.\<close>

definition is_json_mimetype :: "string \<Rightarrow> bool" where
  "is_json_mimetype mt \<longleftrightarrow>
     mt = ''application/json'' \<or> (take 12 mt = ''application/'' \<and> drop (length mt - 5) mt = ''+json'')"

text \<open>A request with this \<^verbatim>\<open>Content-Type\<close> header and this body text.\<close>

definition header_body :: "string option \<Rightarrow> string \<Rightarrow> req_body" where
  "header_body ct s = \<lparr>content_is_json = is_json_mimetype (mimetype ct), parsed = json_loads s\<rparr>"

definition text_body :: "string \<Rightarrow> req_body" where
  "text_body s = header_body (Some ''application/json'') s"

section \<open>Bytes on the wire\<close>

text \<open>UTF-8, the charset of Werkzeug's responses, for code points below 256.\<close>

definition utf8_char :: "char \<Rightarrow> 8 word list" where
  "utf8_char c =
     (let n = (of_char c :: nat) in
      if n < 128 then [word_of_nat n] else [word_of_nat (192 + n div 64), word_of_nat (128 + n mod 64)])"

definition utf8 :: "string \<Rightarrow> 8 word list" where
  "utf8 s = concat (map utf8_char s)"

text \<open>
  A response as the development server writes it: status line, headers, the
  \<^verbatim>\<open>Content-Length\<close> that \<^verbatim>\<open>Response.set_data\<close> computed from the encoded body,
  and the body, empty for \<^verbatim>\<open>HEAD\<close> (\<^verbatim>\<open>Response.get_app_iter\<close>).
\<close>

record wire =
  w_status :: nat
  w_headers :: "(string \<times> string) list"
  w_length :: nat
  w_body :: "8 word list"

definition wire_response :: "http_method \<Rightarrow> response \<Rightarrow> wire option" where
  "wire_response m r =
     map_option (\<lambda>t. \<lparr>w_status = status r, w_headers = headers r, w_length = length (utf8 t),
                      w_body = if m = HEAD then [] else utf8 t\<rparr>) (body_text r)"

section \<open>Lemmas\<close>

lemma has_jtype_norm: "has_jtype t j \<Longrightarrow> norm j = j"
proof (induction t arbitrary: j)
  case JTString
  then show ?case by (cases j) auto
next
  case JTTodo
  then show ?case by (auto split: json.splits list.splits prod.splits)
next
  case (JTList t)
  then show ?case by (cases j) (auto simp: list_all_iff intro: map_idI)
qed

lemma serialize_norm: "norm (serialize t) = serialize t"
  by (rule has_jtype_norm [of JTTodo]) (simp add: serialize_def)

lemma body_text_ascii: "body_text r = Some t \<Longrightarrow> is_ascii t"
  using dumps_ascii by (auto simp: body_text_def jsonify_text_def split: payload.splits)

lemma utf8_ascii: "is_ascii s \<Longrightarrow> utf8 s = map (\<lambda>c. word_of_nat (of_char c)) s"
  by (induction s) (auto simp: utf8_def utf8_char_def is_ascii_def)

lemma mimetype_examples:
  "mimetype (Some ''Application/JSON ; charset=utf-8'') = ''application/json''"
  "is_json_mimetype (mimetype (Some ''application/vnd.api+json''))"
  "\<not> is_json_mimetype (mimetype (Some ''text/plain''))"
  "mimetype None = []"
  by code_simp+

section \<open>What the client reads\<close>

section \<open>Bytes, length and \<^verbatim>\<open>HEAD\<close>\<close>

text \<open>
  Every JSON response is sent as one byte per character of its text: the
  \<^verbatim>\<open>Content-Length\<close> is the text's length, the bytes are the characters' codes, all
  below 128, and a \<^verbatim>\<open>HEAD\<close> request gets no body.
\<close>

lemma wire_length_bytes:
  assumes "wire_response m (fst (handle_request rq d)) = Some w"
  shows "\<exists>t. body_text (fst (handle_request rq d)) = Some t \<and> w_length w = length t \<and>
             w_body w = (if m = HEAD then [] else map (\<lambda>c. word_of_nat (of_char c)) t) \<and>
             (\<forall>b \<in> set (w_body w). unat b < 128)"
proof -
  obtain t where t: "body_text (fst (handle_request rq d)) = Some t"
    and w: "w = \<lparr>w_status = status (fst (handle_request rq d)), w_headers = headers (fst (handle_request rq d)),
                 w_length = length (utf8 t), w_body = if m = HEAD then [] else utf8 t\<rparr>"
    using assms by (auto simp: wire_response_def)
  have a: "is_ascii t" using t by (rule body_text_ascii)
  then have "\<forall>c \<in> set t. unat (word_of_nat (of_char c) :: 8 word) < 128"
    by (auto simp: is_ascii_def unat_of_nat)
  with t w a show ?thesis by (auto simp: utf8_ascii)
qed

text \<open>
  A \<^verbatim>\<open>HEAD\<close> request is answered as the \<^verbatim>\<open>GET\<close> of the same path, with the
  same status, headers, \<^verbatim>\<open>Content-Length\<close> and effect on the database, and an empty
  body: Werkzeug adds \<^verbatim>\<open>HEAD\<close> to every rule that allows \<^verbatim>\<open>GET\<close>.
\<close>

lemma head_as_get:
  "handle_request (rq\<lparr>req_method := HEAD\<rparr>) d = handle_request (rq\<lparr>req_method := GET\<rparr>) d \<and>
   wire_response HEAD (fst (handle_request (rq\<lparr>req_method := HEAD\<rparr>) d)) =
     map_option (\<lambda>w. w\<lparr>w_body := []\<rparr>)
       (wire_response GET (fst (handle_request (rq\<lparr>req_method := GET\<rparr>) d)))"
proof -
  have f: "fst (url_match url_map HEAD q) = fst (url_match url_map GET q)" for q
    by (simp add: url_match_fst split: option.split)
  have g: "snd (url_match url_map HEAD q) = snd (url_match url_map GET q)"
    if "fst (url_match url_map GET q) = None" for q
    using that f [of q] url_match_snd [of HEAD q] url_match_snd [of GET q] by simp
  have r: "route HEAD p = route GET p" for p
    by (simp add: route_eq f g split: option.split)
  have "handle_request (rq\<lparr>req_method := HEAD\<rparr>) d = handle_request (rq\<lparr>req_method := GET\<rparr>) d"
    by (cases "route GET (path rq)") (auto simp: handle_request_def dispatch_def r split: view.split)
  then show ?thesis by (simp add: wire_response_def option.map_comp comp_def)
qed

section \<open>A client posts back what it read\<close>

text \<open>
  C15. A client that posts to \<^verbatim>\<open>/todo\<close> the very text the service writes for a
  todo, with \<^verbatim>\<open>Content-Type: application/json\<close> and any parameters (such as the
  \<^verbatim>\<open>; charset=utf-8\<close> browsers add), creates it when its id is fresh, and reads
  back the same text in the 201 answer, byte for byte.
\<close>

theorem echo_created:
  assumes "db_ok d" and "todo_id t \<notin> set (keys (todo_rows d))"
    and "ct = Some (''application/json'' @ ps)" and "ps = [] \<or> (\<exists>q. ps = CHR '';'' # q)"
  shows "handle_request \<lparr>req_method = POST, path = ''/todo'', origin = org,
                         rbody = header_body ct (jsonify_text (serialize t))\<rparr> d =
           (cors org (json_response (serialize t) 201),
            d\<lparr>todo_rows := todo_rows d @ [row_of_todo t]\<rparr>) \<and>
         body_text (fst (handle_request \<lparr>req_method = POST, path = ''/todo'', origin = org,
                                        rbody = header_body ct (jsonify_text (serialize t))\<rparr> d)) =
           Some (jsonify_text (serialize t))"
proof -
  have mt: "mimetype ct = ''application/json''"
    using assms(3,4) by (auto simp: mimetype_def py_strip_def py_isspace_def py_lower_char_def)
  have rj: "request_json (header_body ct (jsonify_text (serialize t))) = Inr (serialize t)"
    using json_loads_dumps [of "serialize t"]
    by (simp add: request_json_def header_body_def mt is_json_mimetype_def serialize_norm
                  jsonify_text_def)
  have tbl: "has_todo_table d" using assms(1) by (simp add: db_ok_def)
  show ?thesis
    using create_todo_insert_ok [OF tbl assms(2)] rj
    by (simp add: handle_request_def dispatch_def route_eq url_match_fst create_todo_eq body_text_def)
qed

theorem echo_created_witness:
  "body_text (fst (handle_request
     \<lparr>req_method = POST, path = ''/todo'', origin = None,
      rbody = header_body (Some ''application/json; charset=utf-8'')
                (jsonify_text (serialize \<lparr>todo_id = ''a'', todo_value = ''buy milk''\<rparr>))\<rparr>
     (startup empty_database))) =
   Some (jsonify_text (serialize \<lparr>todo_id = ''a'', todo_value = ''buy milk''\<rparr>))"
proof -
  have h1: "db_ok (startup empty_database)" by (simp add: startup_db_ok pk_inv_def empty_database_def)
  have h2: "todo_id \<lparr>todo_id = ''a'', todo_value = ''buy milk''\<rparr> \<notin>
              set (keys (todo_rows (startup empty_database)))"
    by (simp add: startup_def create_all_def empty_database_def has_todo_table_def)
  have h4: "''; charset=utf-8'' = [] \<or> (\<exists>q. ''; charset=utf-8'' = CHR '';'' # q)" by simp
  show ?thesis
    using echo_created [OF h1 h2 _ h4, of "Some (''application/json'' @ ''; charset=utf-8'')" None]
    by (simp add: body_text_def)
qed

section \<open>The specification's scenario on the wire\<close>

text \<open>
  The scenario of the specification (section 8) as bytes: the client sends the
  compact text \<^verbatim>\<open>{"id":"a","value":"buy milk"}\<close>, and the four bodies the debug
  server writes are the pretty-printed texts below (two spaces per level, a space
  after each colon, a trailing newline), not the compact texts the specification
  shows; they decode to the values it lists.
\<close>

lemma spec_scenario_text:
  \<open>map body_text (fst (serve (startup empty_database)
     [\<lparr>req_method = POST, path = ''/todo'', origin = None,
       rbody = text_body ''{"id":"a","value":"buy milk"}''\<rparr>,
      \<lparr>req_method = GET, path = ''/todo'', origin = None, rbody = json_body JNull\<rparr>,
      \<lparr>req_method = DELETE, path = ''/todo/a'', origin = None, rbody = json_body JNull\<rparr>,
      \<lparr>req_method = GET, path = ''/todo'', origin = None, rbody = json_body JNull\<rparr>])) =
   [Some ''{\<newline>  "id": "a",\<newline>  "value": "buy milk"\<newline>}\<newline>'',
    Some ''[\<newline>  {\<newline>    "id": "a",\<newline>    "value": "buy milk"\<newline>  }\<newline>]\<newline>'',
    Some ''"Deleted"\<newline>'',
    Some ''[]\<newline>'']\<close>
  by code_simp

end
