(* ===== verification/Cors_Preflight.thy ===== *)
theory Cors_Preflight
  imports Wire "HOL-Library.Sublist"
begin

text \<open>
  The whole \<^verbatim>\<open>after_request\<close> hook of \<^verbatim>\<open>CORS(app)\<close> (line 8 of
  \<^verbatim>\<open>src/backend/main.py\<close>), flask-cors 4 with its defaults, including the answer to a
  browser's preflight: before a cross-origin \<^verbatim>\<open>POST\<close> with a JSON body or a
  \<^verbatim>\<open>DELETE\<close>, a browser sends \<^verbatim>\<open>OPTIONS\<close> with \<^verbatim>\<open>Access-Control-Request-Method\<close>
  and \<^verbatim>\<open>Access-Control-Request-Headers\<close>, and sends the request itself only if the
  answer allows them. A request is extended by these two headers; \<open>handle_http\<close> is the
  application with the full hook, and equals \<open>Handlers.handle_request\<close> on every
  request without the first header.
\<close>

section \<open>Requests with the preflight headers\<close>

record http_request = request +
  acr_method :: "string option"    \<comment> \<open>\<^verbatim>\<open>Access-Control-Request-Method\<close>\<close>
  acr_headers :: "string option"   \<comment> \<open>\<^verbatim>\<open>Access-Control-Request-Headers\<close>\<close>

section \<open>The hook\<close>

text \<open>
  The default \<^verbatim>\<open>methods\<close> option, serialised by flask-cors (\<^verbatim>\<open>flexible_str\<close>: the
  sorted names joined by \<^verbatim>\<open>, \<close>, upper-cased).
\<close>

definition cors_methods :: string where
  "cors_methods = ''DELETE, GET, HEAD, OPTIONS, PATCH, POST, PUT''"

text \<open>
  \<^verbatim>\<open>get_allow_headers\<close>: the requested header names, split at \<^verbatim>\<open>,\<close>, stripped,
  all matching the default pattern \<^verbatim>\<open>.*\<close>, sorted and joined by \<^verbatim>\<open>, \<close>. The empty
  text stands for Python's \<^verbatim>\<open>None\<close>; both are dropped from the headers.
\<close>

definition allow_headers :: "string option \<Rightarrow> string" where
  "allow_headers h =
     (case h of None \<Rightarrow> [] | Some s \<Rightarrow> join '', '' (sort (map py_strip (py_split CHR '','' s))))"

text \<open>
  The preflight part of \<^verbatim>\<open>get_cors_headers\<close>: on \<^verbatim>\<open>OPTIONS\<close>, if the upper-cased
  requested method is non-empty and occurs in \<open>cors_methods\<close> (Python's \<^verbatim>\<open>in\<close> on
  strings: a substring test), \<^verbatim>\<open>Access-Control-Allow-Headers\<close> (when non-empty)
  and \<^verbatim>\<open>Access-Control-Allow-Methods\<close>; \<^verbatim>\<open>max_age\<close> is unset and dropped.
\<close>

definition preflight_headers :: "http_method \<Rightarrow> string option \<Rightarrow> string option \<Rightarrow> (string \<times> string) list" where
  "preflight_headers m acrm acrh =
     (let u = py_upper (case acrm of None \<Rightarrow> [] | Some s \<Rightarrow> s) in
      if m = OPTIONS \<and> u \<noteq> [] \<and> sublist u cors_methods then
        (if allow_headers acrh = [] then [] else [(''Access-Control-Allow-Headers'', allow_headers acrh)]) @
        [(''Access-Control-Allow-Methods'', cors_methods)]
      else [])"

text \<open>
  \<^verbatim>\<open>set_cors_headers\<close>: the allowed origin, the preflight headers, then
  \<^verbatim>\<open>Vary: Origin\<close> unless the allowed origin is \<^verbatim>\<open>*\<close>, appended in that order.
\<close>

definition cors_hook :: "'a http_request_scheme \<Rightarrow> response \<Rightarrow> response" where
  "cors_hook rq r = r\<lparr>headers := headers r @
      [(''Access-Control-Allow-Origin'', allowed_origin (origin rq))] @
      preflight_headers (req_method rq) (acr_method rq) (acr_headers rq) @
      (if allowed_origin (origin rq) = ''*'' then [] else [(''Vary'', ''Origin'')])\<rparr>"

definition handle_http :: "http_request \<Rightarrow> database \<Rightarrow> response \<times> database" where
  "handle_http rq d =
     (case dispatch (request.truncate rq) d of (res, d') \<Rightarrow> (finalize app_debug (cors_hook rq) res, d'))"

section \<open>Lemmas\<close>

lemma py_split_join:
  "xs \<noteq> [] \<Longrightarrow> \<forall>x \<in> set xs. c \<notin> set x \<Longrightarrow> c \<notin> set s \<Longrightarrow>
     py_split c (join (c # s) xs) = hd xs # map (\<lambda>x. s @ x) (tl xs)"
proof (induction "c # s" xs rule: join.induct)
  case (2 x)
  then show ?case by (simp add: py_split_no_sep)
next
  case (3 x y zs)
  then show ?case by (simp add: py_split_append_sep py_split_prefix)
qed simp

lemma split_allow_headers:
  "map py_strip (py_split CHR '','' (allow_headers (Some h))) = sort (map py_strip (py_split CHR '','' h))"
proof -
  let ?L = "sort (map py_strip (py_split CHR '','' h))"
  have ne: "?L \<noteq> []" by (metis length_0_conv length_map length_sort py_split_Nil)
  have nc: "\<forall>x \<in> set ?L. CHR '','' \<notin> set x"
    using py_split_pieces set_py_strip by fastforce
  have st: "\<forall>x \<in> set ?L. py_strip x = x" by (auto simp: py_strip_idem)
  obtain a rest where L: "?L = a # rest" using ne by (cases ?L) auto
  have "py_split CHR '','' (allow_headers (Some h)) = a # map (\<lambda>x. CHR '' '' # x) rest"
    using py_split_join [OF ne nc, of "'' ''"] L by (simp add: allow_headers_def)
  moreover have "map py_strip (map (\<lambda>x. CHR '' '' # x) rest) = rest"
    using st L by (simp add: py_strip_space map_idI)
  ultimately show ?thesis using st L by simp
qed

lemma cors_method_names:
  "map py_strip (py_split CHR '','' cors_methods) =
     [''DELETE'', ''GET'', ''HEAD'', ''OPTIONS'', ''PATCH'', ''POST'', ''PUT'']"
  by code_simp

lemma cors_method_sublist:
  "u \<in> set (map py_strip (py_split CHR '','' cors_methods)) \<Longrightarrow> u \<noteq> [] \<and> sublist u cors_methods"
  unfolding cors_method_names by (auto simp: cors_methods_def) code_simp+

section \<open>Requests without a preflight header\<close>

text \<open>
  On a request without \<^verbatim>\<open>Access-Control-Request-Method\<close> the full hook adds
  exactly the origin and \<^verbatim>\<open>Vary\<close> headers of \<open>cors\<close>, so the application with the
  full hook answers as \<open>handle_request\<close> and leaves the same database: every
  property of \<open>handle_request\<close> holds for it.
\<close>

lemma handle_http_plain:
  assumes "acr_method rq = None"
  shows "handle_http rq d = handle_request (request.truncate rq) d"
proof -
  have "cors_hook rq = cors (origin rq)"
    using assms by (simp add: fun_eq_iff cors_hook_def cors_def preflight_headers_def py_upper_def)
  then show ?thesis
    by (simp add: handle_http_def handle_request_def request.defs)
qed

section \<open>The preflight passes\<close>

text \<open>
  C23. A browser's preflight for a cross-origin request to a path of the URL map
  passes, from any origin (echoed, or \<^verbatim>\<open>*\<close> for an empty one), for any method
  flask-cors lists (in any case) and any requested headers: the answer is 200, names the origin, lists the methods, and
  lists every requested header name in \<^verbatim>\<open>Access-Control-Allow-Headers\<close>; the
  database is untouched.
\<close>

theorem preflight_passes:
  assumes "req_method rq = OPTIONS" and "origin rq = Some og" and "acr_method rq = Some m"
    and "py_upper m \<in> set (map py_strip (py_split CHR '','' cors_methods))"
    and "acr_headers rq = Some h" and "route OPTIONS (path rq) = Inr x"
  shows "snd (handle_http rq d) = d \<and> status (fst (handle_http rq d)) = 200 \<and>
         (''Access-Control-Allow-Origin'', allowed_origin (Some og)) \<in> set (headers (fst (handle_http rq d))) \<and>
         (''Access-Control-Allow-Methods'', cors_methods) \<in> set (headers (fst (handle_http rq d))) \<and>
         (\<forall>n \<in> set (map py_strip (py_split CHR '','' h)). n \<noteq> [] \<longrightarrow>
            (\<exists>v. (''Access-Control-Allow-Headers'', v) \<in> set (headers (fst (handle_http rq d))) \<and>
                 n \<in> set (map py_strip (py_split CHR '','' v))))"
proof -
  obtain vw arg where x: "x = (vw, arg)" by (cases x)
  have disp: "dispatch (request.truncate rq) d = (Inr options_response, d)"
    using assms(1,6) x by (simp add: dispatch_def request.defs)
  have pf: "preflight_headers OPTIONS (Some m) (Some h) =
      (if allow_headers (Some h) = [] then [] else [(''Access-Control-Allow-Headers'', allow_headers (Some h))]) @
      [(''Access-Control-Allow-Methods'', cors_methods)]"
    using cors_method_sublist [OF assms(4)] by (simp add: preflight_headers_def Let_def)
  have r: "handle_http rq d = (cors_hook rq options_response, d)"
    by (simp add: handle_http_def disp)
  have ah: "\<exists>v. (''Access-Control-Allow-Headers'', v) \<in> set (headers (cors_hook rq options_response)) \<and>
                 n \<in> set (map py_strip (py_split CHR '','' v))"
    if "n \<in> set (map py_strip (py_split CHR '','' h))" and "n \<noteq> []" for n
  proof -
    have n: "n \<in> set (map py_strip (py_split CHR '','' (allow_headers (Some h))))"
      using that(1) by (simp add: split_allow_headers)
    then have "allow_headers (Some h) \<noteq> []" using that(2) by (auto simp: py_strip_def)
    with n show ?thesis using assms(1,3,5) pf by (auto simp: cors_hook_def)
  qed
  show ?thesis
    using assms(1,2,3,5) pf ah by (simp add: r cors_hook_def options_response_def)
qed

theorem preflight_passes_witness:
  "status (fst (handle_http \<lparr>req_method = OPTIONS, path = ''/todo'',
                     origin = Some ''http://localhost:8081'', rbody = json_body JNull,
                     acr_method = Some ''post'', acr_headers = Some ''content-type''\<rparr>
                     (startup empty_database))) = 200 \<and>
   (\<exists>v. (''Access-Control-Allow-Headers'', v) \<in>
     set (headers (fst (handle_http \<lparr>req_method = OPTIONS, path = ''/todo'',
                     origin = Some ''http://localhost:8081'', rbody = json_body JNull,
                     acr_method = Some ''post'', acr_headers = Some ''content-type''\<rparr>
                     (startup empty_database)))) \<and>
        ''content-type'' \<in> set (map py_strip (py_split CHR '','' v)))"
proof -
  have h4: "py_upper ''post'' \<in> set (map py_strip (py_split CHR '','' cors_methods))"
    by (simp only: cors_method_names) code_simp
  have h6: "route OPTIONS ''/todo'' = Inr (View_get_todos, None)" by (simp add: route_eq url_match_fst)
  have p: "map py_strip (py_split CHR '','' ''content-type'') = [''content-type'']" by code_simp
  show ?thesis
    using preflight_passes [where rq = "\<lparr>req_method = OPTIONS, path = ''/todo'',
                     origin = Some ''http://localhost:8081'', rbody = json_body JNull,
                     acr_method = Some ''post'', acr_headers = Some ''content-type''\<rparr>"
                     and d = "startup empty_database" and og = "''http://localhost:8081''"
                     and m = "''post''" and h = "''content-type''" and x = "(View_get_todos, None)"]
      h4 h6 p
    by simp
qed

end
