(* ===== verification/Spec2Isabelle.thy ===== *)
theory Spec2Isabelle
  imports Serializability Api_Types Store_Spec Wire Cors_Preflight
begin

text \<open>
  \<^bold>\<open>A verification development of the todo service \<^verbatim>\<open>src/backend/main.py\<close>.\<close>

  \<^medskip>\<^bold>\<open>The program.\<close> One Flask module (73 lines) serves a single resource, a todo
  \<open>{id, value}\<close>, stored in the SQLite table \<^verbatim>\<open>todo\<close> through SQLAlchemy's ORM.
  Its parts and how they interact:
  \<^item> the mapped class \<^verbatim>\<open>Todo\<close> (lines 13--24) with its primary key \<^verbatim>\<open>id\<close> and the
    computed view \<^verbatim>\<open>serialize\<close>;
  \<^item> the engine and schema creation (lines 26--29), run once at import;
  \<^item> four views (lines 31--72): \<^verbatim>\<open>test\<close>, \<^verbatim>\<open>get_todos\<close>, \<^verbatim>\<open>create_todo\<close>,
    \<^verbatim>\<open>delete_todo\<close>, each opening a short-lived \<^verbatim>\<open>Session\<close> on the shared engine;
  \<^item> the application object: the URL map of the \<^verbatim>\<open>@app.route\<close> decorators, the
    \<^verbatim>\<open>CORS(app)\<close> hook (line 8) and the debug server of \<^verbatim>\<open>app.run\<close> (line 74), which
    serves requests on several threads against the one database file.

  \<^medskip>\<^bold>\<open>The theories.\<close>
  \<^item> \<open>Prelude\<close>: the Python exceptions that can leave a line of the module
    (\<open>py_exc\<close>, results \<open>'a py_result = py_exc + 'a\<close>), and the association-list
    lemmas (\<open>keys_simps\<close>) shared by tables and JSON objects, and Python's
    \<^verbatim>\<open>str\<close> methods on header values (\<open>py_strip\<close>, \<open>py_lower_char\<close>,
    \<open>py_upper\<close>, \<open>py_split\<close>).
  \<^item> \<open>Json\<close>: JSON values as \<^verbatim>\<open>json.loads\<close> returns them, the subscription
    \<^verbatim>\<open>body[k]\<close> (\<open>py_getitem\<close>, with \<^verbatim>\<open>KeyError\<close>/\<^verbatim>\<open>TypeError\<close>), the test
    \<^verbatim>\<open>type(x) is str\<close>, and Flask's \<^verbatim>\<open>request.json\<close> (\<open>request_json\<close>).
  \<^item> \<open>Http\<close>: responses (\<open>jsonify\<close>, \<open>json_response\<close> for \<^verbatim>\<open>(resp, status)\<close>),
    the CORS hook (\<open>cors\<close>), Flask's treatment of an exception leaving a view under
    \<open>app_debug\<close> (\<open>finalize\<close>), the four \<^verbatim>\<open>@app.route\<close> rules (\<open>rule_test\<close>,
    \<open>rule_get_todos\<close>, \<open>rule_create_todo\<close>, \<open>rule_delete_todo\<close>, lines 31, 35, 41,
    66) collected in \<open>url_map\<close>, and Werkzeug's matcher: leading slashes stripped
    (\<open>werkzeug_path\<close>), the first rule for path and method (\<open>url_match\<close>), and on
    no match a second attempt with merged slashes that answers a 308 redirect, else
    405 or 404 (\<open>merge_slashes\<close>, \<open>route\<close>).
  \<^item> \<open>Database\<close>: the SQLite file as a record (\<open>schema\<close>, \<open>todo_rows\<close> in rowid
    order) and the four statements the ORM sends (\<open>sql_select_all\<close>,
    \<open>sql_select_id\<close>, \<open>sql_insert\<close>, \<open>sql_delete_id\<close>) with SQLite's
    \<^verbatim>\<open>OperationalError\<close> and \<^verbatim>\<open>IntegrityError\<close>; the primary-key invariant
    \<open>pk_inv\<close>.
  \<^item> \<open>Todo\<close>: the record \<open>todo\<close> (fields \<open>todo_id\<close>, \<open>todo_value\<close>),
    \<open>serialize\<close>, the row correspondence, the schema objects of \<^verbatim>\<open>Base.metadata\<close>
    (\<open>base_metadata\<close>, lines 10--17) and \<open>create_all\<close>/\<open>startup\<close>.
  \<^item> \<open>Session\<close>: the unit of work the views use: open, add, flush (one insert per
    pending instance, all or nothing), commit, query, bulk delete, and the reload of an
    instance expired by the commit (\<^verbatim>\<open>ObjectDeletedError\<close> when its row is gone).
  \<^item> \<open>Handlers\<close>: the views \<open>test\<close>, \<open>get_todos\<close>, \<open>create_todo\<close>,
    \<open>delete_todo\<close>, each taking the committed database and returning the view's
    outcome and the committed database after it; \<open>dispatch\<close>,
    \<open>handle_request\<close> and the sequential server \<open>serve\<close>.

  \<^item> \<open>Store_Spec\<close>: the contract of the specification (sections 4.1, 8) as an
    abstract store \<open>string \<rightharpoonup> string\<close> with the operations \<open>api_op\<close>, the
    replies \<open>api_reply\<close>, \<open>spec_step\<close> and \<open>spec_run\<close>.
  \<^item> \<open>Server\<close>: the threaded debug server. \<open>create_todo\<close> split at its commit
    (\<open>create_todo_commit\<close>, lines 41--62, and \<open>create_todo_finish\<close>, line 64, the
    reload that \<^verbatim>\<open>expire_on_commit\<close> forces); a request's thread as a \<open>phase\<close>
    (\<open>Pending\<close>, \<open>AwaitReload\<close>, \<open>Done\<close>) with \<open>phase_step\<close>; the interleaving
    relation \<open>run_step\<close>/\<open>server_step\<close> and the \<open>reachable\<close> states; executable
    schedules (\<open>sched_step\<close>, \<open>run_schedule\<close>) that describe exactly the same steps.
  \<^item> \<open>Serializability\<close>: the requests a schedule lets arrive (\<open>arrivals\<close>), the
    database of a sequential run in a given order (\<open>serial_db\<close>), and the invariant
    \<open>lin_inv\<close> carrying the commit order of an interleaving as ghost state.
  \<^item> \<open>Api_Types\<close>: the API table of the specification (section 6) as response types
    (\<open>jtype\<close>, \<open>has_jtype\<close>, \<open>api_type\<close>) and the check \<open>conforms\<close> of a response.
  \<^item> \<open>Json_Text\<close>: the text \<^verbatim>\<open>jsonify\<close> writes under \<^verbatim>\<open>debug=True\<close>: Python's
    \<^verbatim>\<open>json.dumps\<close> with \<^verbatim>\<open>indent=2\<close>, \<^verbatim>\<open>sort_keys=True\<close>, \<^verbatim>\<open>ensure_ascii=True\<close>
    (\<open>dumps\<close>, \<open>py_escape_char\<close>, \<open>py_encode_str\<close>, \<open>int_str\<close>) plus a newline
    (\<open>jsonify_text\<close>), and a reference RFC 8259 decoder with fuel (\<open>p_value\<close>,
    \<open>json_loads\<close>) standing for the client.
  \<^item> \<open>Wire\<close>: the body of a response as text (\<open>body_text\<close>), its UTF-8 bytes
    (\<open>utf8\<close>) and what the development server writes (\<open>wire_response\<close>:
    status, headers, \<^verbatim>\<open>Content-Length\<close>, and no body for \<^verbatim>\<open>HEAD\<close>); on the
    request side Werkzeug's \<^verbatim>\<open>Request.mimetype\<close> and \<^verbatim>\<open>is_json\<close>
    (\<open>mimetype\<close>, \<open>is_json_mimetype\<close>, with Python's \<^verbatim>\<open>strip\<close> and
    \<^verbatim>\<open>lower\<close>) and a request built from its header and body text
    (\<open>header_body\<close>, \<open>text_body\<close>).
  \<^item> \<open>Cors_Preflight\<close>: requests with the preflight headers
    (\<open>http_request\<close>, a record extending \<open>request\<close>), flask-cors's whole hook
    (\<open>cors_hook\<close>: origin, \<open>preflight_headers\<close> with \<open>allow_headers\<close> and
    \<open>cors_methods\<close>, \<^verbatim>\<open>Vary\<close>), and the application with it (\<open>handle_http\<close>).
  \<^item> This theory: the abstraction of tables, requests and responses to the contract
    (\<open>abs_db\<close>, \<open>api_op_of\<close>, \<open>reply_of\<close>) and the properties that span components.

  \<^medskip>\<^bold>\<open>What is proved.\<close> Claims C1--C25, each stated before its theorem.
  \<^item> Views (\<open>Handlers\<close>): every branch of \<^verbatim>\<open>create_todo\<close> (C1 201 and the row
    appended, C2 409 and nothing changed, C3 400 and nothing changed, C21 the
    framework's 415/400 before the view's checks), \<^verbatim>\<open>delete_todo\<close> (C4, C25 row
    count), \<^verbatim>\<open>get_todos\<close> (C5); the requests that reach \<^verbatim>\<open>delete_todo\<close>, leading
    slashes stripped (C24).
  \<^item> Refinement (this theory, C6): the sequential service refines the abstract store,
    reply by reply and state by state, for every sequence of API requests.
  \<^item> Invariants: the table exists and its key is unique after any sequence of requests
    (C11) and in every reachable state of the threaded server (C12, by rule
    induction over \<open>reachable\<close>); on such a database a request handled alone gets
    no server error, only 200, 201, the router's 308, or a 4xx (C13); a restart
    resumes in the state the last run left (C17).
  \<^item> Round trip (this theory, C16): the items of a listing, posted back in order to a
    fresh service, are all created and rebuild the same table.
  \<^item> Serializability and linearizability (\<open>Serializability\<close>): after any interleaving
    there is one order of the started requests, their commit order, such that the
    database is the one a sequential run in that order leaves (C8; once every thread is
    done, a permutation of all the arrived requests), and every request other than a
    create was answered as the sequential server answers it at its place in that order
    (C9). With C6 this gives C10 (this theory): the threaded server refines the
    contract up to the order of requests.
  \<^item> Types (\<open>Api_Types\<close>): every response conforms to the API table of the
    specification, read on the path Werkzeug matches (C14).
  \<^item> Wire (\<open>Wire\<close>): the text the service writes for a todo, posted back with a
    JSON content type and any parameters, creates it and is echoed byte for byte (C15).
    Lemmas there and in \<open>Json_Text\<close> give the properties of the library's encoder
    the claims rely on: every body is ASCII, decodes to its payload
    (\<open>jsonify_text_loads\<close>), is sent one byte per character
    (\<open>wire_length_bytes\<close>), and \<^verbatim>\<open>HEAD\<close> is \<^verbatim>\<open>GET\<close> without a body
    (\<open>head_as_get\<close>).
  \<^item> Concurrency (\<open>Server\<close>): racing creates of one fresh id yield exactly one 201
    and 409 for all others (C7, an invariant of the interleaving counting the threads
    whose insert committed). Lemmas: a thread run alone equals the sequential handler
    (\<open>solo_handle_request\<close>); every interleaving without arrivals is finite
    (\<open>run_step_terminates\<close>) and can complete every request (\<open>threads_complete\<close>).
  \<^item> Findings, each a theorem over every database, fresh id and value: a committed
    create can answer 500 (C18) or another client's value (C19) when a delete of its
    id runs between its commit and its reload; ids that are empty or contain
    \<^verbatim>\<open>/\<close> can be created but never deleted (C20); the spec's "Invalid body" for
    unparseable bodies is in fact Werkzeug's 400 page or 415 (C21); CORS headers are
    present on every response except the debugger's 500 (C22); a browser's preflight
    passes for every routed path, origin, listed method and requested header (C23).
  \<^item> Executable checks (not claims): the specification's scenario (section 8) from
    an empty file (\<open>spec_scenario\<close>) and as bytes on the wire
    (\<open>spec_scenario_text\<close>).

  \<^medskip>\<^bold>\<open>Bounds and fuel.\<close> No loop of the program needs fuel; the reference decoder
  does (its recursion follows the nesting of the text), and \<open>json_loads\<close> gives it one
  unit more than the text has characters, enough because a value's size never exceeds
  the length of its encoding (\<open>size_le_dumps\<close>). The other bound is the
  number of atomic steps of a thread: two for a create (commit, reload), one for every
  other request; \<open>remaining\<close> counts them, \<open>solo 2\<close> runs a thread alone with that
  bound (enough by \<open>solo_handle_request\<close>), and the total \<open>work\<close> of the
  threads is the measure of \<open>run_step_terminates\<close>.

  \<^medskip>\<^bold>\<open>Library behaviour.\<close> Flask 2.3/Werkzeug 2.3 (\<^verbatim>\<open>request.json\<close>, routing,
  exception handling in debug mode), flask-cors 4 defaults (including the preflight
  answer), SQLAlchemy 2 sessions
  (\<^verbatim>\<open>expire_on_commit\<close>, bulk delete, rollback on close) and SQLite (one writer, a
  statement and its commit atomic for other connections, rows scanned in rowid order)
  are modelled from their documented behaviour, only as far as the views use them.

  \<^medskip>\<^bold>\<open>Not modelled.\<close> HTTP framing (sockets, the request line, header
  parsing): requests arrive as a method, a path, an \<^verbatim>\<open>Origin\<close> and a body the
  model of \<^verbatim>\<open>request.json\<close> reads. Python's \<^verbatim>\<open>json.loads\<close> on arbitrary text:
  it also accepts floats and \<^verbatim>\<open>NaN\<close>, so the reference decoder stands for it
  only on texts \<^verbatim>\<open>jsonify\<close> writes (C15) and on the example requests
  (\<open>spec_scenario_text\<close>). The
  headers Werkzeug adds besides \<^verbatim>\<open>Content-Type\<close> and \<^verbatim>\<open>Content-Length\<close>
  (\<^verbatim>\<open>Date\<close>, \<^verbatim>\<open>Server\<close>, and the \<^verbatim>\<open>Allow\<close> header of automatic \<^verbatim>\<open>OPTIONS\<close>
  and 405 answers, whose order is that of a Python set), and the HTML of error and
  debugger pages. JSON
  numbers are integers and characters are Isabelle's 256 code points, so the
  \<^verbatim>\<open>\u\<close> escapes of code points above 255 are not covered. The
  \<^verbatim>\<open>print(e)\<close> of line 61 (output only). SQLite's lock timeout (\<^verbatim>\<open>database is locked\<close>):
  every write of a view is one statement and its commit, far shorter than the
  driver's five-second busy timeout, so the model treats each as atomic and never
  raises it. The libraries' internals beyond the behaviour listed above. Lines 1--5
  (imports) have no behaviour of their own; the empty \<^verbatim>\<open>DeclarativeBase\<close> of
  lines 10--11 only carries the metadata \<open>base_metadata\<close> models. The parent
  process of Werkzeug's reloader (\<^verbatim>\<open>debug=True\<close>), which runs the module once
  before the serving child: its \<^verbatim>\<open>create_all\<close> leaves a file that has the table, and
  start-up on such a file keeps it (C17).
\<close>

section \<open>Refinement of the contract\<close>

text \<open>
  The abstraction: the table read as a map from ids to values; a request read as the
  contract's operation (requests outside the contract, such as \<^verbatim>\<open>/test\<close>, automatic
  \<^verbatim>\<open>OPTIONS\<close>, unknown routes and bodies \<^verbatim>\<open>request.json\<close> rejects, have none); a
  response read as the contract's reply.
\<close>

definition abs_db :: "database \<Rightarrow> store" where
  "abs_db d = map_of (todo_rows d)"

definition api_op_of :: "request \<Rightarrow> api_op option" where
  "api_op_of rq =
     (if req_method rq = OPTIONS then None
      else case route (req_method rq) (path rq) of
        Inr (View_get_todos, _) \<Rightarrow> Some ListTodos
      | Inr (View_create_todo, _) \<Rightarrow>
          (case request_json (rbody rq) of
             Inl _ \<Rightarrow> None
           | Inr b \<Rightarrow>
              (case body_todo b of
                 None \<Rightarrow> Some CreateInvalid
               | Some t \<Rightarrow> Some (CreateTodo (todo_id t) (todo_value t))))
      | Inr (View_delete_todo, Some k) \<Rightarrow> Some (DeleteTodo k)
      | _ \<Rightarrow> None)"

definition pair_of_json :: "json \<Rightarrow> (string \<times> string) option" where
  "pair_of_json j =
     (case j of
        JObj [(a, JStr k), (b, JStr v)] \<Rightarrow> if a = ''id'' \<and> b = ''value'' then Some (k, v) else None
      | _ \<Rightarrow> None)"

definition reply_of :: "response \<Rightarrow> api_reply option" where
  "reply_of r =
     (case payload r of
        JsonPayload j \<Rightarrow>
          (if status r = 201 then map_option (\<lambda>(k, v). Created k v) (pair_of_json j)
           else if status r = 409 \<and> j = JStr ''Already exist'' then Some Conflict
           else if status r = 400 \<and> j = JStr ''Invalid body'' then Some Invalid
           else if status r = 200 \<and> j = JStr ''Deleted'' then Some Deleted
           else if status r = 200 then
             (case j of JArr xs \<Rightarrow> map_option (Listed \<circ> set) (those (map pair_of_json xs))
              | _ \<Rightarrow> None)
           else None)
      | _ \<Rightarrow> None)"

section \<open>Lemmas\<close>

lemma pair_of_json_serialize [simp]: "pair_of_json (serialize t) = Some (todo_id t, todo_value t)"
  by (simp add: pair_of_json_def serialize_def)

lemma those_map_Some: "those (map (\<lambda>x. Some (f x)) xs) = Some (map f xs)"
  by (induction xs) auto

lemma dispatch_api:
  assumes "api_op_of rq = Some op"
  shows "dispatch rq d =
           (case op of
              ListTodos \<Rightarrow> (get_todos d, d)
            | DeleteTodo k \<Rightarrow> delete_todo k d
            | _ \<Rightarrow> create_todo (rbody rq) d)"
  using assms
  by (auto simp: api_op_of_def dispatch_def split: if_splits sum.splits prod.splits view.splits
                 option.splits)

lemma api_op_create:
  "api_op_of rq = Some (CreateTodo k v) \<Longrightarrow>
     \<exists>b. request_json (rbody rq) = Inr b \<and> body_todo b = Some \<lparr>todo_id = k, todo_value = v\<rparr>"
  by (auto simp: api_op_of_def split: if_splits sum.splits prod.splits view.splits option.splits)

lemma api_op_invalid:
  "api_op_of rq = Some CreateInvalid \<Longrightarrow> \<exists>b. request_json (rbody rq) = Inr b \<and> body_todo b = None"
  by (auto simp: api_op_of_def split: if_splits sum.splits prod.splits view.splits option.splits)

lemma reply_of_cors [simp]:
  "reply_of (cors org r) = reply_of r"
  by (simp add: reply_of_def split: payload.split)

lemma graph_map_of_distinct:
  "distinct_keys xs \<Longrightarrow> Map.graph (map_of xs) = set xs"
  by (auto simp: Map.graph_def)

lemma spec_run_Cons:
  "spec_run m (op # ops) =
     (fst (spec_step m op) # fst (spec_run (snd (spec_step m op)) ops),
      snd (spec_run (snd (spec_step m op)) ops))"
  by (simp split: prod.split)

lemma handle_request_split:
  "handle_request rq d = (finalize app_debug (cors (origin rq)) (fst (dispatch rq d)), snd (dispatch rq d))"
  by (simp add: handle_request_def split: prod.split)

lemma reply_of_created [simp]: "reply_of (json_response (serialize t) 201) = Some (Created (todo_id t) (todo_value t))"
  by (simp add: reply_of_def)

lemma reply_of_constants [simp]:
  "reply_of already_exist = Some Conflict"
  "reply_of invalid_body = Some Invalid"
  "reply_of (jsonify (JStr ''Deleted'')) = Some Deleted"
  by (simp_all add: reply_of_def already_exist_def invalid_body_def)

lemma reply_of_listed:
  "reply_of (jsonify (JArr (map (serialize \<circ> todo_of_row) rs))) = Some (Listed (set rs))"
proof -
  have "those (map pair_of_json (map (serialize \<circ> todo_of_row) rs)) = Some rs"
    using those_map_Some [of id rs] by (simp add: o_def)
  then show ?thesis by (simp add: reply_of_def)
qed

lemma handle_request_refines:
  assumes ok: "db_ok d" and op: "api_op_of rq = Some op"
  shows "reply_of (fst (handle_request rq d)) = Some (fst (spec_step (abs_db d) op)) \<and>
         abs_db (snd (handle_request rq d)) = snd (spec_step (abs_db d) op)"
proof -
  from ok have tbl: "has_todo_table d" and pk: "distinct_keys (todo_rows d)"
    by (simp_all add: db_ok_def pk_inv_def)
  have disp: "dispatch rq d = (case op of ListTodos \<Rightarrow> (get_todos d, d)
       | DeleteTodo k \<Rightarrow> delete_todo k d | _ \<Rightarrow> create_todo (rbody rq) d)"
    by (rule dispatch_api [OF op])
  show ?thesis
  proof (cases op)
    case ListTodos
    with disp tbl pk show ?thesis
      by (simp add: handle_request_split get_todos_eq sql_select_all_def
                    reply_of_listed abs_db_def graph_map_of_distinct)
  next
    case (CreateTodo k v)
    with op obtain b where rj: "request_json (rbody rq) = Inr b"
      and bt: "body_todo b = Some \<lparr>todo_id = k, todo_value = v\<rparr>"
      using api_op_create by blast
    show ?thesis
    proof (cases "k \<in> set (keys (todo_rows d))")
      case True
      then have "k \<in> dom (map_of (todo_rows d))" by (simp add: dom_map_of_conv_image_fst)
      with True CreateTodo disp tbl rj bt show ?thesis
        by (simp add: handle_request_split create_todo_eq sql_insert_def row_of_todo_def abs_db_def)
    next
      case False
      with tbl have ins: "sql_insert (row_of_todo \<lparr>todo_id = k, todo_value = v\<rparr>) d =
            Inr (d\<lparr>todo_rows := todo_rows d @ [row_of_todo \<lparr>todo_id = k, todo_value = v\<rparr>]\<rparr>)"
        and rl: "session_reload k (d\<lparr>todo_rows := todo_rows d @ [row_of_todo \<lparr>todo_id = k, todo_value = v\<rparr>]\<rparr>)
            = Inr \<lparr>todo_id = k, todo_value = v\<rparr>"
        using create_todo_insert_ok [of d "\<lparr>todo_id = k, todo_value = v\<rparr>"] by simp_all
      from False have "k \<notin> dom (map_of (todo_rows d))"
        by (simp add: dom_map_of_conv_image_fst)
      with CreateTodo disp rj bt ins rl False show ?thesis
        by (simp add: handle_request_split create_todo_eq abs_db_def
                      row_of_todo_def map_of_snoc_fresh del: map_of_append)
    qed
  next
    case CreateInvalid
    with op obtain b where "request_json (rbody rq) = Inr b" and "body_todo b = None"
      using api_op_invalid by blast
    with CreateInvalid disp show ?thesis
      by (simp add: handle_request_split create_todo_eq)
  next
    case (DeleteTodo k)
    with disp tbl show ?thesis
      by (simp add: handle_request_split delete_todo_eq sql_delete_id_def
                    abs_db_def map_of_drop_key)
  qed
qed

text \<open>
  C6. The service refines the contract: on a database with its table and a unique
  key, any sequence of API requests answers, reply by reply, what the abstract store
  answers to the corresponding operations, and leaves the table holding exactly the
  abstract store the operations produce.
\<close>

theorem serve_refines:
  assumes "db_ok d" and "those (map api_op_of rqs) = Some ops"
  shows "those (map reply_of (fst (serve d rqs))) = Some (fst (spec_run (abs_db d) ops)) \<and>
         abs_db (snd (serve d rqs)) = snd (spec_run (abs_db d) ops)"
  using assms
proof (induction rqs arbitrary: d ops)
  case Nil
  then show ?case by simp
next
  case (Cons rq rqs)
  from Cons.prems(2) obtain op ops' where op: "api_op_of rq = Some op"
    and ops: "those (map api_op_of rqs) = Some ops'" and eq: "ops = op # ops'"
    by (auto split: option.splits)
  let ?d' = "snd (handle_request rq d)"
  from handle_request_refines [OF Cons.prems(1) op]
  have r: "reply_of (fst (handle_request rq d)) = Some (fst (spec_step (abs_db d) op))"
    and a: "abs_db ?d' = snd (spec_step (abs_db d) op)" by simp_all
  from Cons.prems(1) have "db_ok ?d'" by (simp add: dispatch_db_ok)
  from Cons.IH [OF this ops] r a eq show ?case
    by (simp only: serve_Cons spec_run_Cons) simp
qed

theorem serve_refines_witness:
  "db_ok (startup empty_database) \<and>
   those (map api_op_of
     [\<lparr>req_method = POST, path = ''/todo'', origin = None,
       rbody = json_body (JObj [(''id'', JStr ''a''), (''value'', JStr ''buy milk'')])\<rparr>,
      \<lparr>req_method = GET, path = ''/todo'', origin = None, rbody = json_body JNull\<rparr>])
     = Some [CreateTodo ''a'' ''buy milk'', ListTodos] \<and>
   those (map reply_of (fst (serve (startup empty_database)
     [\<lparr>req_method = POST, path = ''/todo'', origin = None,
       rbody = json_body (JObj [(''id'', JStr ''a''), (''value'', JStr ''buy milk'')])\<rparr>,
      \<lparr>req_method = GET, path = ''/todo'', origin = None, rbody = json_body JNull\<rparr>])))
     = Some [Created ''a'' ''buy milk'', Listed {(''a'', ''buy milk'')}]"
proof -
  have h1: "db_ok (startup empty_database)"
    by (simp add: startup_db_ok pk_inv_def empty_database_def)
  have h2: "those (map api_op_of
     [\<lparr>req_method = POST, path = ''/todo'', origin = None,
       rbody = json_body (JObj [(''id'', JStr ''a''), (''value'', JStr ''buy milk'')])\<rparr>,
      \<lparr>req_method = GET, path = ''/todo'', origin = None, rbody = json_body JNull\<rparr>])
     = Some [CreateTodo ''a'' ''buy milk'', ListTodos]"
    by (simp add: api_op_of_def route_eq url_match_fst body_todo_def)
  have h3: "abs_db (startup empty_database) = Map.empty"
    by (simp add: abs_db_def startup_def create_all_def empty_database_def has_todo_table_def)
  have h4: "fst (spec_run Map.empty [CreateTodo ''a'' ''buy milk'', ListTodos])
              = [Created ''a'' ''buy milk'', Listed {(''a'', ''buy milk'')}]"
    by (auto simp: Map.graph_def split: if_splits)
  from conjunct1 [OF serve_refines [OF h1 h2]] h1 h2 show ?thesis
    unfolding h3 h4 by blast
qed

section \<open>The threaded server refines the contract\<close>

lemma those_map_Some_iff:
  "those (map f xs) = Some ys \<longleftrightarrow> list_all (\<lambda>x. f x \<noteq> None) xs \<and> ys = map (the \<circ> f) xs"
  by (induction xs arbitrary: ys) (auto split: option.splits)

lemma those_map_perm:
  assumes "those (map f xs) = Some ys" and "mset xs' = mset xs"
  shows "\<exists>ys'. those (map f xs') = Some ys' \<and> mset ys' = mset ys"
proof -
  from assms(2) have "set xs' = set xs" by (rule mset_eq_setD)
  with assms show ?thesis
    by (auto simp: those_map_Some_iff list_all_iff intro!: exI [of _ "map (the \<circ> f) xs'"])
qed

lemma serve_abs:
  "db_ok d \<Longrightarrow> those (map api_op_of rqs) = Some ops \<Longrightarrow>
     abs_db (snd (serve d rqs)) = snd (spec_run (abs_db d) ops)"
proof (induction rqs arbitrary: d ops)
  case Nil
  then show ?case by simp
next
  case (Cons rq rqs)
  from Cons.prems(2) obtain op ops' where op: "api_op_of rq = Some op"
    and ops: "those (map api_op_of rqs) = Some ops'" and eq: "ops = op # ops'"
    by (auto split: option.splits)
  have a: "abs_db (snd (handle_request rq d)) = snd (spec_step (abs_db d) op)"
    using handle_request_refines [OF Cons.prems(1) op] by simp
  from Cons.prems(1) have "db_ok (snd (handle_request rq d))" by (simp add: dispatch_db_ok)
  from Cons.IH [OF this ops] a eq show ?case
    by (simp only: serve_Cons spec_run_Cons snd_conv split_def)
qed

text \<open>
  C10. The threaded server refines the contract up to the order of the requests: when
  every request that arrived is an API request and every thread is done, whatever the
  interleaving, the table holds exactly the store the contract reaches by applying the
  requests' operations one at a time in some order, each exactly once.
\<close>

theorem threaded_refines:
  assumes "pk_inv f" and "run_schedule (boot f) sch = Some s" and "list_all is_done (threads s)"
    and "those (map api_op_of (arrivals sch)) = Some ops"
  shows "\<exists>ops'. mset ops' = mset ops \<and> abs_db (sdb s) = snd (spec_run (abs_db (startup f)) ops')"
proof -
  from schedule_log [OF assms(2)] obtain ord where dist: "distinct ord"
    and db: "sdb s = snd (serve (startup f) (map ((!) (arrivals sch)) ord))"
    and all: "list_all is_done (threads s) \<longrightarrow> set ord = {..<length (arrivals sch)}"
    by blast
  let ?log = "map ((!) (arrivals sch)) ord"
  from all assms(3) have "set ord = {..<length (arrivals sch)}" by simp
  then have "mset ?log = mset (arrivals sch)" by (rule mset_map_nth_perm [OF dist])
  from those_map_perm [OF assms(4) this] obtain ops' where
    o: "those (map api_op_of ?log) = Some ops'" and m: "mset ops' = mset ops" by blast
  have "db_ok (startup f)" using assms(1) by (rule startup_db_ok)
  from serve_abs [OF this o] db m show ?thesis by auto
qed

theorem threaded_refines_witness:
  "pk_inv empty_database \<and>
   run_schedule (boot empty_database)
     [Arrive (post_todo ''a'' ''x''), Arrive (delete_request ''a''), Run 0, Run 1, Run 0] =
     Some \<lparr>sdb = \<lparr>schema = [''todo'', ''ix_todo_id''], todo_rows = []\<rparr>,
            threads = [Done \<lparr>status = 500, payload = DebuggerPage, headers = []\<rparr>,
                       Done (cors None (jsonify (JStr ''Deleted'')))]\<rparr> \<and>
   those (map api_op_of (arrivals
     [Arrive (post_todo ''a'' ''x''), Arrive (delete_request ''a''), Run 0, Run 1, Run 0]))
     = Some [CreateTodo ''a'' ''x'', DeleteTodo ''a''] \<and>
   (\<exists>ops'. mset ops' = mset [CreateTodo ''a'' ''x'', DeleteTodo ''a''] \<and>
      abs_db \<lparr>schema = [''todo'', ''ix_todo_id''], todo_rows = []\<rparr> =
      snd (spec_run (abs_db (startup empty_database)) ops'))"
proof -
  have h1: "pk_inv empty_database" by (simp add: pk_inv_def empty_database_def)
  note h2 = create_delete_schedule
  have h3: "list_all is_done [Done \<lparr>status = 500, payload = DebuggerPage, headers = []\<rparr>,
                              Done (cors None (jsonify (JStr ''Deleted'')))]" by simp
  have h4: "those (map api_op_of (arrivals
     [Arrive (post_todo ''a'' ''x''), Arrive (delete_request ''a''), Run 0, Run 1, Run 0]))
     = Some [CreateTodo ''a'' ''x'', DeleteTodo ''a'']"
    by (simp add: api_op_of_def post_todo_def delete_request_def route_eq url_match_fst body_todo_def Let_def)
  from threaded_refines [OF h1 h2 _ h4] h1 h2 h3 h4 show ?thesis by simp
qed

section \<open>Listing and re-creating\<close>

lemma route_post_todo [simp]: "route POST ''/todo'' = Inr (View_create_todo, None)"
  by (simp add: route_eq url_match_fst)

lemma handle_request_repost:
  assumes "has_todo_table d" and "todo_id t \<notin> set (keys (todo_rows d))"
  shows "handle_request (post_json (serialize t)) d =
           (cors None (json_response (serialize t) 201),
            d\<lparr>todo_rows := todo_rows d @ [row_of_todo t]\<rparr>)"
  using create_todo_insert_ok [OF assms]
  by (simp add: handle_request_def dispatch_def post_json_def create_todo_eq app_debug_def)

lemma serve_reposts:
  assumes "has_todo_table d" and "distinct_keys (todo_rows d @ rs)"
  shows "serve d (map (\<lambda>r. post_json (serialize (todo_of_row r))) rs) =
           (map (\<lambda>r. cors None (json_response (serialize (todo_of_row r)) 201)) rs,
            d\<lparr>todo_rows := todo_rows d @ rs\<rparr>)"
  using assms
proof (induction rs arbitrary: d)
  case Nil
  then show ?case by simp
next
  case (Cons r rs)
  have fresh: "todo_id (todo_of_row r) \<notin> set (keys (todo_rows d))"
    using Cons.prems(2) by auto
  let ?d' = "d\<lparr>todo_rows := todo_rows d @ [r]\<rparr>"
  have h: "handle_request (post_json (serialize (todo_of_row r))) d =
             (cors None (json_response (serialize (todo_of_row r)) 201), ?d')"
    using handle_request_repost [OF Cons.prems(1) fresh] by simp
  have "serve ?d' (map (\<lambda>r. post_json (serialize (todo_of_row r))) rs) =
          (map (\<lambda>r. cors None (json_response (serialize (todo_of_row r)) 201)) rs,
           ?d'\<lparr>todo_rows := todo_rows ?d' @ rs\<rparr>)"
    using Cons.prems by (intro Cons.IH) (auto simp: has_todo_table_def)
  then show ?case by (simp add: serve_Cons h del: handle_request_db)
qed

text \<open>
  C16. What \<^verbatim>\<open>GET /todo\<close> answers can be posted back: posting each item of a listing,
  in order and as received, to a freshly started service answers 201 to every one
  and rebuilds exactly the listed table, rows in the same order. The output of
  \<^verbatim>\<open>serialize\<close> is a valid \<^verbatim>\<open>create_todo\<close> body for the same todo.
\<close>

theorem listing_restores:
  assumes "db_ok d" and "get_todos d = Inr r" and "payload r = JsonPayload (JArr items)"
  shows "todo_rows (snd (serve (startup empty_database) (map post_json items))) = todo_rows d
       \<and> map status (fst (serve (startup empty_database) (map post_json items)))
           = replicate (length items) 201"
proof -
  from assms(1) have tbl: "has_todo_table d" and pk: "distinct_keys (todo_rows d)"
    by (simp_all add: db_ok_def pk_inv_def)
  from assms(2,3) tbl have items: "items = map (serialize \<circ> todo_of_row) (todo_rows d)"
    by (auto simp: get_todos_eq sql_select_all_def jsonify_def)
  have e: "has_todo_table (startup empty_database)" "todo_rows (startup empty_database) = []"
    by (simp_all add: startup_def create_all_def empty_database_def has_todo_table_def)
  show ?thesis
    using serve_reposts [OF e(1), of "todo_rows d"] pk e(2)
    by (simp add: items comp_def map_replicate_const json_response_simps cors_simps)
qed

theorem listing_restores_witness:
  "db_ok \<lparr>schema = [''todo'', ''ix_todo_id''], todo_rows = [(''a'', ''x''), (''b'', ''y'')]\<rparr> \<and>
   get_todos \<lparr>schema = [''todo'', ''ix_todo_id''], todo_rows = [(''a'', ''x''), (''b'', ''y'')]\<rparr>
     = Inr (jsonify (JArr [serialize \<lparr>todo_id = ''a'', todo_value = ''x''\<rparr>,
                          serialize \<lparr>todo_id = ''b'', todo_value = ''y''\<rparr>])) \<and>
   todo_rows (snd (serve (startup empty_database)
     (map post_json [serialize \<lparr>todo_id = ''a'', todo_value = ''x''\<rparr>,
                     serialize \<lparr>todo_id = ''b'', todo_value = ''y''\<rparr>])))
     = [(''a'', ''x''), (''b'', ''y'')]"
proof -
  have h1: "db_ok \<lparr>schema = [''todo'', ''ix_todo_id''], todo_rows = [(''a'', ''x''), (''b'', ''y'')]\<rparr>"
    by (simp add: db_ok_def has_todo_table_def pk_inv_def)
  have h2: "get_todos \<lparr>schema = [''todo'', ''ix_todo_id''], todo_rows = [(''a'', ''x''), (''b'', ''y'')]\<rparr>
     = Inr (jsonify (JArr [serialize \<lparr>todo_id = ''a'', todo_value = ''x''\<rparr>,
                          serialize \<lparr>todo_id = ''b'', todo_value = ''y''\<rparr>]))"
    by (simp add: get_todos_eq sql_select_all_def has_todo_table_def todo_of_row_def)
  have h3: "payload (jsonify (JArr [serialize \<lparr>todo_id = ''a'', todo_value = ''x''\<rparr>,
                          serialize \<lparr>todo_id = ''b'', todo_value = ''y''\<rparr>]))
     = JsonPayload (JArr [serialize \<lparr>todo_id = ''a'', todo_value = ''x''\<rparr>,
                          serialize \<lparr>todo_id = ''b'', todo_value = ''y''\<rparr>])"
    by (simp add: jsonify_def)
  from conjunct1 [OF listing_restores [OF h1 h2 h3]] h1 h2 show ?thesis by simp
qed

section \<open>The specification's scenario\<close>

text \<open>
  The concrete scenario of the specification (section 8), run from start-up on
  an empty file: create \<^verbatim>\<open>{"id":"a","value":"buy milk"}\<close> answers 201 with it, list
  answers it, delete answers \<^verbatim>\<open>"Deleted"\<close>, list answers the empty array, and the
  table ends empty.
\<close>

lemma spec_scenario:
  "serve (startup empty_database)
     [\<lparr>req_method = POST, path = ''/todo'', origin = None,
       rbody = json_body (JObj [(''id'', JStr ''a''), (''value'', JStr ''buy milk'')])\<rparr>,
      \<lparr>req_method = GET, path = ''/todo'', origin = None, rbody = json_body JNull\<rparr>,
      \<lparr>req_method = DELETE, path = ''/todo/a'', origin = None, rbody = json_body JNull\<rparr>,
      \<lparr>req_method = GET, path = ''/todo'', origin = None, rbody = json_body JNull\<rparr>] =
   ([cors None (json_response (JObj [(''id'', JStr ''a''), (''value'', JStr ''buy milk'')]) 201),
     cors None (jsonify (JArr [JObj [(''id'', JStr ''a''), (''value'', JStr ''buy milk'')]])),
     cors None (jsonify (JStr ''Deleted'')),
     cors None (jsonify (JArr []))],
    \<lparr>schema = [''todo'', ''ix_todo_id''], todo_rows = []\<rparr>)"
  by code_simp

end
